theory Spec2Isabelle
  imports Main "HOL-Library.Word"
begin

unbundle bit_operations_syntax

section \<open>Host-language string primitives\<close>

text \<open>
  JavaScript strings are modelled as \<^typ>\<open>string\<close>; one \<^typ>\<open>char\<close> stands for one
  UTF-16 code unit with a code point below 256, so \<open>length\<close> is the \<open>.length\<close> of the source.
\<close>

text \<open>\<open>Array.prototype.join\<close> on an array of strings.\<close>

fun join :: "string \<Rightarrow> string list \<Rightarrow> string" where
  "join sep [] = []"
| "join sep [x] = x"
| "join sep (x # y # ys) = x @ sep @ join sep (y # ys)"

text \<open>\<open>String.prototype.split\<close> with a one-character separator: always at least one piece.\<close>

fun split :: "char \<Rightarrow> string \<Rightarrow> string list" where
  "split sep [] = [[]]"
| "split sep (c # cs) =
     (if c = sep then [] # split sep cs
      else (c # hd (split sep cs)) # tl (split sep cs))"

definition hexDigit :: "nat \<Rightarrow> char" where
  "hexDigit d = ''0123456789ABCDEF'' ! d"

text \<open>\<open>n.toString(16).toUpperCase()\<close> for a non-negative integer \<open>n\<close>.\<close>

fun toStringHexUpper :: "nat \<Rightarrow> string" where
  "toStringHexUpper n =
     (if n < 16 then [hexDigit n]
      else toStringHexUpper (n div 16) @ [hexDigit (n mod 16)])"

declare toStringHexUpper.simps [simp del]

text \<open>\<open>s.padStart(n, c)\<close>: pads on the left up to width \<open>n\<close>, never truncates.\<close>

definition padStart :: "nat \<Rightarrow> char \<Rightarrow> string \<Rightarrow> string" where
  "padStart n c s = replicate (n - length s) c @ s"

text \<open>\<open>Buffer.from(s, 'utf-8')\<close> for code points below 256: one or two bytes each.\<close>

definition utf8_char :: "char \<Rightarrow> int list" where
  "utf8_char c =
     (let n = (of_char c :: int) in
      if n < 128 then [n] else [192 + n div 64, 128 + n mod 64])"

definition utf8 :: "string \<Rightarrow> int list" where
  "utf8 s = concat (map utf8_char s)"

section \<open>The checksum of the \<open>crc\<close> package\<close>

text \<open>
  \<open>crc.crc16ccitt\<close> belongs to the npm package \<open>crc\<close>, an external dependency of
  \<open>request.ts\<close>. It is modelled by the algorithm the package documents for that name:
  a 16-bit register starting at \<open>0xFFFF\<close>, each byte combined into the high half, eight
  left shifts per byte with the polynomial \<open>0x1021\<close> folded in whenever bit 15 falls out,
  no reflection of input or output and no final inversion. The register is an integer kept
  below \<open>2 ^ 16\<close> by an explicit \<open>mod\<close>.
\<close>

definition crc16_shift :: "int \<Rightarrow> int" where
  "crc16_shift crc =
     (if crc div 32768 mod 2 = 1 then (crc * 2 mod 65536) XOR 4129
      else crc * 2 mod 65536)"

definition crc16_byte :: "int \<Rightarrow> int \<Rightarrow> int" where
  "crc16_byte crc b = (crc16_shift ^^ 8) (crc XOR (b * 256))"

definition crc16ccitt :: "int list \<Rightarrow> int" where
  "crc16ccitt bytes = foldl crc16_byte 65535 bytes"

section \<open>\<open>request.ts\<close>: the request builder\<close>

text \<open>\<open>Request._getParameters\<close>\<close>

definition u_getParameters :: "string list \<Rightarrow> string" where
  "u_getParameters parameters = join '';'' parameters @ '';''"

text \<open>\<open>Request._getRawData\<close>\<close>

definition u_getRawData :: "string \<Rightarrow> string \<Rightarrow> string list \<Rightarrow> string" where
  "u_getRawData command mode parameters =
     (let paramString = u_getParameters parameters;
          lenParameters = padStart 4 CHR ''0'' (toStringHexUpper (length paramString))
      in lenParameters @ command @ mode @ paramString)"

text \<open>\<open>Request._getCrc\<close>\<close>

definition u_getCrc :: "string \<Rightarrow> string" where
  "u_getCrc message =
     (let crcValue = crc16ccitt (utf8 message)
      in padStart 4 CHR ''0'' (toStringHexUpper (nat crcValue)))"

text \<open>\<open>Request._buildRawPacket\<close>: the text stored in the field \<open>request\<close>.\<close>

definition u_buildRawPacket :: "string \<Rightarrow> string \<Rightarrow> string list \<Rightarrow> string" where
  "u_buildRawPacket command mode parameters =
     (let strSocketId = ''00000'';
          strRawData = u_getRawData command mode parameters;
          strData = strSocketId @ ''C---'' @ strRawData;
          strCrc = u_getCrc strData
      in ''#'' @ strData @ strCrc @ [CHR 0x0A])"

text \<open>\<open>Request.getRequest\<close>: the bytes handed to the socket.\<close>

definition getRequest :: "string \<Rightarrow> string \<Rightarrow> string list \<Rightarrow> int list" where
  "getRequest command mode parameters = utf8 (u_buildRawPacket command mode parameters)"

text \<open>\<open>HottohRemoteClient._extractData\<close> (the same in both client files and in \<open>Hottoh\<close>).\<close>

definition u_extractData :: "string \<Rightarrow> string list" where
  "u_extractData data = split CHR '';'' data"

subsection \<open>The frame as the specification words it\<close>

text \<open>A number rendered as four uppercase hexadecimal digits, zero-padded.\<close>

definition spec_hex4 :: "nat \<Rightarrow> string" where
  "spec_hex4 n =
     [hexDigit (n div 4096 mod 16), hexDigit (n div 256 mod 16),
      hexDigit (n div 16 mod 16), hexDigit (n mod 16)]"

text \<open>The parameters joined with \<open>;\<close> plus a trailing \<open>;\<close>.\<close>

definition spec_joined :: "string list \<Rightarrow> string" where
  "spec_joined P = join '';'' P @ '';''"

definition spec_body :: "string \<Rightarrow> string \<Rightarrow> string list \<Rightarrow> string" where
  "spec_body command mode P =
     ''00000'' @ ''C---'' @ spec_hex4 (length (spec_joined P)) @ command @ mode @ spec_joined P"

definition spec_frame :: "string \<Rightarrow> string \<Rightarrow> string list \<Rightarrow> string" where
  "spec_frame command mode P =
     ''#'' @ spec_body command mode P
       @ spec_hex4 (nat (crc16ccitt (utf8 (spec_body command mode P)))) @ [CHR 0x0A]"

section \<open>\<open>client.ts\<close>: the polling client\<close>

text \<open>
  The socket is the environment. What the client asks of it is recorded, in order, in the
  field \<open>trace\<close>; what it answers arrives as events. Times are not modelled beyond the
  delays the code passes to \<open>setTimeout\<close>.
\<close>

datatype action =
    SockConnect              \<comment> \<open>\<open>this._socket.connect(this.port, this.address)\<close>\<close>
  | SockWrite "int list"     \<comment> \<open>\<open>this._socket.write(request)\<close>\<close>
  | SockEnd                  \<comment> \<open>\<open>this._socket.end()\<close>\<close>
  | ResponseTimer nat        \<comment> \<open>the \<open>setTimeout\<close> that guards one exchange\<close>

text \<open>The fields both client files declare.\<close>

record client_base =
  info :: "string list option"
  data :: "string list option"
  data2 :: "string list option"
  writeRequest :: bool
  writeParameters :: "string list list"
  isConnected :: bool
  endRequest :: bool
  responseBuffer :: string
  trace :: "action list"

text \<open>
  \<open>client.ts\<close> adds \<open>_loopTimeout\<close>, the handle of the pending \<open>setTimeout(() => this.loop(), ms)\<close>
  (here its delay; \<open>None\<close> is \<open>null\<close>), and keeps \<open>once('connect', connectHandler)\<close>
  listeners on the socket.
\<close>

record client = client_base +
  loopTimeout :: "nat option"
  connectHandlers :: nat

text \<open>The rejection reasons of an exchange.\<close>

datatype error = SocketTimeout | SocketFailure

text \<open>
  What can happen while an exchange waits: socket events, the exchange's own timer, and
  calls of the public methods by the owner of the client.
\<close>

datatype event =
    Data string              \<comment> \<open>\<open>'data'\<close>, the chunk as \<open>data.toString('utf-8')\<close>\<close>
  | SocketError              \<comment> \<open>\<open>'error'\<close>\<close>
  | SocketClose              \<comment> \<open>\<open>'close'\<close> or \<open>'end'\<close>\<close>
  | Timeout                  \<comment> \<open>the 60000 ms timer of the exchange fires\<close>
  | CallSendCommand "string list"
  | CallStop

text \<open>\<open>sendCommand\<close> (returns \<open>true\<close>)\<close>

definition sendCommand :: "string list \<Rightarrow> 'a client_base_scheme \<Rightarrow> 'a client_base_scheme" where
  "sendCommand parameters c =
     c\<lparr>writeRequest := True, writeParameters := writeParameters c @ [parameters]\<rparr>"

text \<open>\<open>__disconnect\<close>\<close>

definition uu_disconnect :: "'a client_base_scheme \<Rightarrow> 'a client_base_scheme" where
  "uu_disconnect c = c\<lparr>isConnected := False, trace := trace c @ [SockEnd]\<rparr>"

text \<open>\<open>stop\<close>\<close>

definition stop :: "client \<Rightarrow> client" where
  "stop c =
     (let c1 = c\<lparr>endRequest := True\<rparr>;
          c2 = (if loopTimeout c1 \<noteq> None then c1\<lparr>loopTimeout := None\<rparr> else c1)
      in uu_disconnect c2)"

text \<open>
  The listener \<open>onData\<close> of \<open>_sendRequestAndWaitForResponse\<close>: \<open>Some\<close> is the value the
  promise resolves with.
\<close>

definition onData ::
  "string \<Rightarrow> 'a client_base_scheme \<Rightarrow> string list option \<times> 'a client_base_scheme" where
  "onData chunk c =
     (let buf = responseBuffer c @ chunk in
      if CHR 0x0A \<in> set buf
      then (Some (u_extractData (hd (split CHR 0x0A buf))), c\<lparr>responseBuffer := []\<rparr>)
      else (None, c\<lparr>responseBuffer := buf\<rparr>))"

text \<open>
  The wait of \<open>_sendRequestAndWaitForResponse\<close>. The persistent handlers of
  \<open>_setupSocketEventHandlers\<close> run on \<open>'error'\<close>, \<open>'close'\<close> and \<open>'end'\<close>. When nothing
  more happens the 60000 ms timer fires.
\<close>

fun await_response ::
  "event list \<Rightarrow> client \<Rightarrow> (error + string list) \<times> event list \<times> client" where
  "await_response [] c = (Inl SocketTimeout, [], c)"
| "await_response (Data chunk # es) c =
     (case onData chunk c of
        (Some r, c') \<Rightarrow> (Inr r, es, c')
      | (None, c') \<Rightarrow> await_response es c')"
| "await_response (SocketError # es) c = (Inl SocketFailure, es, c\<lparr>isConnected := False\<rparr>)"
| "await_response (SocketClose # es) c = await_response es (c\<lparr>isConnected := False\<rparr>)"
| "await_response (Timeout # es) c = (Inl SocketTimeout, es, c)"
| "await_response (CallSendCommand p # es) c = await_response es (sendCommand p c)"
| "await_response (CallStop # es) c = await_response es (stop c)"

text \<open>\<open>_sendRequestAndWaitForResponse\<close>\<close>

definition u_sendRequestAndWaitForResponse ::
  "int list \<Rightarrow> event list \<Rightarrow> client \<Rightarrow> (error + string list) \<times> event list \<times> client" where
  "u_sendRequestAndWaitForResponse request evs c =
     await_response evs (c\<lparr>trace := trace c @ [SockWrite request, ResponseTimer 60000]\<rparr>)"

text \<open>\<open>_get_data\<close> and \<open>_set_data\<close>\<close>

definition u_get_data ::
  "string \<Rightarrow> string list \<Rightarrow> event list \<Rightarrow> client
    \<Rightarrow> (error + string list) \<times> event list \<times> client" where
  "u_get_data command parameters =
     u_sendRequestAndWaitForResponse (getRequest command ''R'' parameters)"

definition u_set_data ::
  "string list \<Rightarrow> event list \<Rightarrow> client \<Rightarrow> (error + string list) \<times> event list \<times> client" where
  "u_set_data parameters =
     u_sendRequestAndWaitForResponse (getRequest ''DAT'' ''W'' parameters)"

lemma await_response_shorter:
  "await_response evs c = (Inr r, evs', c') \<Longrightarrow> length evs' < length evs"
proof (induction evs c rule: await_response.induct)
  case (2 chunk es c)
  then show ?case
    by (cases "onData chunk c") (auto split: option.splits)
qed auto

lemma u_set_data_shorter:
  "u_set_data p evs c = (Inr r, evs', c') \<Longrightarrow> length evs' < length evs"
  unfolding u_set_data_def u_sendRequestAndWaitForResponse_def
  by (rule await_response_shorter)

text \<open>
  The \<open>while\<close> loop of \<open>__dial\<close> that sends the queued commands. \<open>Inl\<close> is the
  exception leaving the loop.
\<close>

function drain :: "event list \<Rightarrow> client \<Rightarrow> (error + unit) \<times> event list \<times> client" where
  "drain evs c =
     (if writeParameters c \<noteq> [] \<and> \<not> endRequest c then
        (case u_set_data (hd (writeParameters c)) evs c of
           (Inl e, evs', c') \<Rightarrow> (Inl e, evs', c')
         | (Inr r, evs', c') \<Rightarrow> drain evs' (c'\<lparr>writeParameters := tl (writeParameters c')\<rparr>))
      else (Inr (), evs, c))"
  by pat_completeness auto
termination
  by (relation "measure (\<lambda>(evs, c). length evs)") (auto dest: u_set_data_shorter [OF sym])

declare drain.simps [simp del]

text \<open>The \<open>try\<close> block of \<open>__dial\<close>.\<close>

definition dial_try :: "event list \<Rightarrow> client \<Rightarrow> (error + unit) \<times> event list \<times> client" where
  "dial_try evs c =
     (case u_get_data ''INF'' [''''] evs c of
        (Inl e, evs1, c1) \<Rightarrow> (Inl e, evs1, c1)
      | (Inr r1, evs1, c1) \<Rightarrow>
     (case u_get_data ''DAT'' [''0''] evs1 (c1\<lparr>info := Some r1\<rparr>) of
        (Inl e, evs2, c2) \<Rightarrow> (Inl e, evs2, c2)
      | (Inr r2, evs2, c2) \<Rightarrow>
     (case u_get_data ''DAT'' [''2''] evs2 (c2\<lparr>data := Some r2\<rparr>) of
        (Inl e, evs3, c3) \<Rightarrow> (Inl e, evs3, c3)
      | (Inr r3, evs3, c3) \<Rightarrow>
     (case drain evs3 (c3\<lparr>data2 := Some r3\<rparr>) of
        (Inl e, evs4, c4) \<Rightarrow> (Inl e, evs4, c4)
      | (Inr u, evs4, c4) \<Rightarrow>
          (let c5 = c4\<lparr>writeRequest := False\<rparr>
           in (Inr (), evs4,
               if \<not> endRequest c5 then c5\<lparr>loopTimeout := Some 1000\<rparr> else c5))))))"

text \<open>\<open>__dial\<close>: the guard, the \<open>try\<close> block and the \<open>catch\<close> block.\<close>

definition uu_dial :: "event list \<Rightarrow> client \<Rightarrow> client" where
  "uu_dial evs c =
     (if \<not> isConnected c \<or> endRequest c then c
      else
        (case dial_try evs c of
           (Inr u, rest, c') \<Rightarrow> c'
         | (Inl e, rest, c') \<Rightarrow>
             (let c'' = c'\<lparr>isConnected := False\<rparr>
              in if \<not> endRequest c'' then c''\<lparr>loopTimeout := Some 5000\<rparr> else c'')))"

text \<open>
  What \<open>this._socket.connect\<close> does inside the \<open>try\<close> of \<open>__connect\<close>: it returns, or it
  throws (the flag is \<open>error.code === 'EISCONN'\<close>).
\<close>

datatype connect_outcome = ConnectPending | ConnectThrows bool

text \<open>\<open>__connect\<close>\<close>

definition uu_connect :: "connect_outcome \<Rightarrow> client \<Rightarrow> client" where
  "uu_connect outcome c =
     (let c1 = c\<lparr>connectHandlers := connectHandlers c + 1, trace := trace c @ [SockConnect]\<rparr>
      in case outcome of
           ConnectPending \<Rightarrow> c1
         | ConnectThrows eisconn \<Rightarrow>
             (if eisconn then c1\<lparr>isConnected := True, loopTimeout := Some 1000\<rparr>
              else c1\<lparr>isConnected := False, loopTimeout := Some 5000\<rparr>))"

text \<open>\<open>loop\<close>\<close>

definition loop :: "connect_outcome \<Rightarrow> event list \<Rightarrow> client \<Rightarrow> client" where
  "loop outcome evs c =
     (let c1 = (if loopTimeout c \<noteq> None then c\<lparr>loopTimeout := None\<rparr> else c)
      in if endRequest c1 then c1
         else if isConnected c1 then uu_dial evs c1
         else uu_connect outcome c1)"

text \<open>\<open>start\<close>\<close>

definition start :: "connect_outcome \<Rightarrow> event list \<Rightarrow> client \<Rightarrow> client" where
  "start outcome evs c = loop outcome evs (c\<lparr>endRequest := False\<rparr>)"

text \<open>The state the constructor leaves.\<close>

definition new_client :: client where
  "new_client =
     \<lparr>info = None, data = None, data2 = None, writeRequest = False, writeParameters = [],
      isConnected = False, endRequest = False, responseBuffer = [], trace = [],
      loopTimeout = None, connectHandlers = 0\<rparr>"

text \<open>
  What reaches the client between cycles: calls of its public methods, the pending loop
  timer, and the socket's \<open>'error'\<close>, \<open>'close'\<close> and \<open>'end'\<close>. A cycle runs to its end
  within the input that starts it, with the events that arrive during its exchanges. The
  socket's \<open>'connect'\<close> is not among these inputs: it runs every \<open>connectHandler\<close> still
  registered, each of which calls \<open>loop\<close>, so that it can start several cycles that
  advance together; the section on cycles in flight follows the client one event at a
  time and covers it.
\<close>

datatype input =
    Start connect_outcome "event list"
  | Stop
  | SendCommand "string list"
  | TimerFires connect_outcome "event list"
  | ErrorEvent
  | CloseEvent

fun step :: "input \<Rightarrow> client \<Rightarrow> client" where
  "step (Start outcome evs) c = start outcome evs c"
| "step Stop c = stop c"
| "step (SendCommand p) c = sendCommand p c"
| "step (TimerFires outcome evs) c = (if loopTimeout c = None then c else loop outcome evs c)"
| "step ErrorEvent c = c\<lparr>isConnected := False\<rparr>"
| "step CloseEvent c = c\<lparr>isConnected := False\<rparr>"

definition run :: "input list \<Rightarrow> client \<Rightarrow> client" where
  "run inputs c = foldl (\<lambda>s i. step i s) c inputs"


section \<open>\<open>client.ts\<close>: cycles in flight\<close>

text \<open>
  \<open>__dial\<close> is an \<open>async\<close> function: it runs until its next \<open>await\<close> and continues when the
  promise of the exchange settles. Nothing in \<open>client.ts\<close> records that a cycle is
  waiting, so a call of \<open>loop\<close> made meanwhile starts another one on the same socket, buffer
  and queue. Here the client advances one event at a time. A cycle in flight is the
  \<open>await\<close> it is suspended at; its exchange holds one \<open>'data'\<close> listener, one \<open>'error'\<close>
  listener and one 60000 ms timer.
\<close>

datatype phase =
    AwaitInfo      \<comment> \<open>\<open>this._info = await this._get_data('INF', [''])\<close>\<close>
  | AwaitData      \<comment> \<open>\<open>this._data = await this._get_data('DAT', ['0'])\<close>\<close>
  | AwaitData2     \<comment> \<open>\<open>this._data2 = await this._get_data('DAT', ['2'])\<close>\<close>
  | AwaitWrite     \<comment> \<open>\<open>await this._set_data(param)\<close>\<close>

text \<open>
  \<open>cycles\<close> lists the cycles in flight in the order in which their current exchanges added
  their listeners to the socket. \<open>loopTimers\<close> lists the delays of the pending
  \<open>setTimeout(() => this.loop(), ms)\<close>, oldest first; \<open>_loopTimeout\<close> holds the handle of
  the one set last, so when \<open>loopTimeout\<close> is not \<open>None\<close> it stands for the last of
  \<open>loopTimers\<close>.
\<close>

record session = client +
  cycles :: "phase list"
  loopTimers :: "nat list"

text \<open>
  The executor of the promise in \<open>_sendRequestAndWaitForResponse\<close>: the listeners are
  added, the request is written, the timer is set; the caller is then suspended.
\<close>

definition begin_exchange :: "int list \<Rightarrow> phase \<Rightarrow> session \<Rightarrow> session" where
  "begin_exchange request ph s =
     s\<lparr>trace := trace s @ [SockWrite request, ResponseTimer 60000], cycles := cycles s @ [ph]\<rparr>"

text \<open>\<open>this._loopTimeout = setTimeout(() => this.loop(), ms)\<close>\<close>

definition set_loop_timer :: "nat \<Rightarrow> session \<Rightarrow> session" where
  "set_loop_timer ms s = s\<lparr>loopTimeout := Some ms, loopTimers := loopTimers s @ [ms]\<rparr>"

text \<open>\<open>if (this._loopTimeout) { clearTimeout(this._loopTimeout); this._loopTimeout = null; }\<close>\<close>

definition clear_loop_timer :: "session \<Rightarrow> session" where
  "clear_loop_timer s =
     (if loopTimeout s \<noteq> None
      then s\<lparr>loopTimeout := None, loopTimers := butlast (loopTimers s)\<rparr>
      else s)"

text \<open>
  The head of the \<open>while\<close> loop of \<open>__dial\<close> and, when its condition is false, the rest of
  the \<open>try\<close> block.
\<close>

definition drain_next :: "session \<Rightarrow> session" where
  "drain_next s =
     (if writeParameters s \<noteq> [] \<and> \<not> endRequest s
      then begin_exchange (getRequest ''DAT'' ''W'' (hd (writeParameters s))) AwaitWrite s
      else (let s1 = s\<lparr>writeRequest := False\<rparr>
            in if \<not> endRequest s1 then set_loop_timer 1000 s1 else s1))"

text \<open>
  A cycle continues after its exchange resolved with \<open>r\<close>: up to the next \<open>await\<close> or to the
  end of the \<open>try\<close> block. After a write exchange the continuation is
  \<open>this._writeParameters.shift()\<close>, which removes whatever is first in the queue then.
\<close>

fun resume :: "phase \<Rightarrow> string list \<Rightarrow> session \<Rightarrow> session" where
  "resume AwaitInfo r s =
     begin_exchange (getRequest ''DAT'' ''R'' [''0'']) AwaitData (s\<lparr>info := Some r\<rparr>)"
| "resume AwaitData r s =
     begin_exchange (getRequest ''DAT'' ''R'' [''2'']) AwaitData2 (s\<lparr>data := Some r\<rparr>)"
| "resume AwaitData2 r s = drain_next (s\<lparr>data2 := Some r\<rparr>)"
| "resume AwaitWrite r s = drain_next (s\<lparr>writeParameters := tl (writeParameters s)\<rparr>)"

text \<open>A cycle continues after its exchange was rejected: the \<open>catch\<close> block of \<open>__dial\<close>.\<close>

definition fail_cycle :: "session \<Rightarrow> session" where
  "fail_cycle s =
     (let s1 = s\<lparr>isConnected := False\<rparr>
      in if \<not> endRequest s1 then set_loop_timer 5000 s1 else s1)"

text \<open>\<open>__dial\<close> up to its first \<open>await\<close>\<close>

definition uu_dial_async :: "session \<Rightarrow> session" where
  "uu_dial_async s =
     (if \<not> isConnected s \<or> endRequest s then s
      else begin_exchange (getRequest ''INF'' ''R'' ['''']) AwaitInfo s)"

text \<open>\<open>__connect\<close>\<close>

definition uu_connect_async :: "connect_outcome \<Rightarrow> session \<Rightarrow> session" where
  "uu_connect_async outcome s =
     (let s1 = s\<lparr>connectHandlers := connectHandlers s + 1, trace := trace s @ [SockConnect]\<rparr>
      in case outcome of
           ConnectPending \<Rightarrow> s1
         | ConnectThrows eisconn \<Rightarrow>
             (if eisconn then set_loop_timer 1000 (s1\<lparr>isConnected := True\<rparr>)
              else set_loop_timer 5000 (s1\<lparr>isConnected := False\<rparr>)))"

text \<open>\<open>loop\<close>\<close>

definition loop_async :: "connect_outcome \<Rightarrow> session \<Rightarrow> session" where
  "loop_async outcome s =
     (let s1 = clear_loop_timer s
      in if endRequest s1 then s1
         else if isConnected s1 then uu_dial_async s1
         else uu_connect_async outcome s1)"

text \<open>\<open>start\<close> and \<open>stop\<close>\<close>

definition start_async :: "connect_outcome \<Rightarrow> session \<Rightarrow> session" where
  "start_async outcome s = loop_async outcome (s\<lparr>endRequest := False\<rparr>)"

definition stop_async :: "session \<Rightarrow> session" where
  "stop_async s = uu_disconnect (clear_loop_timer (s\<lparr>endRequest := True\<rparr>))"

text \<open>
  The socket emits \<open>'data'\<close>: the \<open>onData\<close> listeners of the exchanges in flight run in the
  order in which they were added, all on the same chunk and the same buffer. The result
  lists the exchanges that resolved, with their values, then the cycles still waiting.
\<close>

fun on_data ::
  "string \<Rightarrow> phase list \<Rightarrow> session \<Rightarrow> (phase \<times> string list) list \<times> phase list \<times> session" where
  "on_data chunk [] s = ([], [], s)"
| "on_data chunk (ph # phs) s =
     (case onData chunk s of
        (Some r, s1) \<Rightarrow>
          (case on_data chunk phs s1 of (resolved, waiting, s2) \<Rightarrow> ((ph, r) # resolved, waiting, s2))
      | (None, s1) \<Rightarrow>
          (case on_data chunk phs s1 of (resolved, waiting, s2) \<Rightarrow> (resolved, ph # waiting, s2)))"

text \<open>The cycles whose exchange resolved continue once the listeners have run, in that order.\<close>

definition resume_all :: "(phase \<times> string list) list \<Rightarrow> session \<Rightarrow> session" where
  "resume_all resolved s = foldl (\<lambda>s (ph, r). resume ph r s) s resolved"

text \<open>
  A loop timer fires, the one at position \<open>i\<close> of \<open>loopTimers\<close>. When it is the one whose
  handle \<open>_loopTimeout\<close> holds, the \<open>clearTimeout\<close> of \<open>loop\<close> cancels nothing.
\<close>

definition expire :: "nat \<Rightarrow> session \<Rightarrow> session" where
  "expire i s =
     (let s1 = s\<lparr>loopTimers := take i (loopTimers s) @ drop (Suc i) (loopTimers s)\<rparr>
      in if loopTimeout s \<noteq> None \<and> Suc i = length (loopTimers s)
         then s1\<lparr>loopTimeout := None\<rparr> else s1)"

text \<open>
  What happens to the client: calls of its public methods, a loop timer, the events the
  socket emits, and the timer of the exchange at position \<open>i\<close> of \<open>cycles\<close>. On
  \<open>'connect'\<close> every registered \<open>connectHandler\<close> runs. On \<open>'error'\<close> the persistent handler
  runs, then the \<open>onError\<close> of every exchange in flight rejects it.
\<close>

datatype occurrence =
    DoStart connect_outcome
  | DoStop
  | DoSendCommand "string list"
  | OnLoopTimer nat connect_outcome
  | OnConnect connect_outcome
  | OnData string
  | OnError
  | OnClose
  | OnResponseTimer nat

fun react :: "occurrence \<Rightarrow> session \<Rightarrow> session" where
  "react (DoStart outcome) s = start_async outcome s"
| "react DoStop s = stop_async s"
| "react (DoSendCommand p) s = sendCommand p s"
| "react (OnLoopTimer i outcome) s =
     (if i < length (loopTimers s) then loop_async outcome (expire i s) else s)"
| "react (OnConnect outcome) s =
     ((\<lambda>s. loop_async outcome (s\<lparr>isConnected := True\<rparr>)) ^^ connectHandlers s)
       (s\<lparr>connectHandlers := 0\<rparr>)"
| "react (OnData chunk) s =
     (case on_data chunk (cycles s) s of
        (resolved, waiting, s1) \<Rightarrow> resume_all resolved (s1\<lparr>cycles := waiting\<rparr>))"
| "react OnError s = (fail_cycle ^^ length (cycles s)) (s\<lparr>isConnected := False, cycles := []\<rparr>)"
| "react OnClose s = s\<lparr>isConnected := False\<rparr>"
| "react (OnResponseTimer i) s =
     (if i < length (cycles s)
      then fail_cycle (s\<lparr>cycles := take i (cycles s) @ drop (Suc i) (cycles s)\<rparr>)
      else s)"

definition run_async :: "occurrence list \<Rightarrow> session \<Rightarrow> session" where
  "run_async occs s = foldl (\<lambda>s occ. react occ s) s occs"

text \<open>
  The events of the cycle-at-a-time model as occurrences, for a cycle that is the only one
  in flight: its exchange is the one at position 0.
\<close>

fun occ_of :: "event \<Rightarrow> occurrence" where
  "occ_of (Data chunk) = OnData chunk"
| "occ_of SocketError = OnError"
| "occ_of SocketClose = OnClose"
| "occ_of Timeout = OnResponseTimer 0"
| "occ_of (CallSendCommand p) = DoSendCommand p"
| "occ_of CallStop = DoStop"

definition new_session :: session where
  "new_session =
     \<lparr>info = None, data = None, data2 = None, writeRequest = False, writeParameters = [],
      isConnected = False, endRequest = False, responseBuffer = [], trace = [],
      loopTimeout = None, connectHandlers = 0, cycles = [], loopTimers = []\<rparr>"

section \<open>The second client file\<close>

text \<open>
  The repository holds a second file with the class \<open>HottohRemoteClient\<close> (no
  \<open>_loopTimeout\<close>, no persistent socket handlers, no \<open>dispose\<close>). Its functions carry the
  suffix \<open>0\<close> here. Its timers are anonymous, so several can be pending at once: \<open>timers\<close>
  lists the delays of the pending \<open>setTimeout(() => this.loop(), ms)\<close>, oldest first.
  \<open>errorListeners\<close> counts the \<open>'error'\<close> listeners that \<open>__connect\<close> has added to the
  socket, \<open>connectListeners\<close> the pending callbacks passed to \<open>this._socket.connect\<close>.
\<close>

record client0 = client_base +
  timers :: "nat list"
  errorListeners :: nat
  connectListeners :: nat

text \<open>\<open>stop\<close>\<close>

definition stop0 :: "client0 \<Rightarrow> client0" where
  "stop0 c = c\<lparr>endRequest := True, trace := trace c @ [SockEnd]\<rparr>"

text \<open>Every \<open>'error'\<close> listener added by \<open>__connect\<close> runs: it clears the flag and sets a timer.\<close>

definition on_error0 :: "client0 \<Rightarrow> client0" where
  "on_error0 c =
     (if errorListeners c = 0 then c
      else c\<lparr>isConnected := False, timers := timers c @ replicate (errorListeners c) 5000\<rparr>)"

fun await_response0 ::
  "event list \<Rightarrow> client0 \<Rightarrow> (error + string list) \<times> event list \<times> client0" where
  "await_response0 [] c = (Inl SocketTimeout, [], c)"
| "await_response0 (Data chunk # es) c =
     (case onData chunk c of
        (Some r, c') \<Rightarrow> (Inr r, es, c')
      | (None, c') \<Rightarrow> await_response0 es c')"
| "await_response0 (SocketError # es) c = (Inl SocketFailure, es, on_error0 c)"
| "await_response0 (SocketClose # es) c = await_response0 es c"
| "await_response0 (Timeout # es) c = (Inl SocketTimeout, es, c)"
| "await_response0 (CallSendCommand p # es) c = await_response0 es (sendCommand p c)"
| "await_response0 (CallStop # es) c = await_response0 es (stop0 c)"

definition u_sendRequestAndWaitForResponse0 ::
  "int list \<Rightarrow> event list \<Rightarrow> client0 \<Rightarrow> (error + string list) \<times> event list \<times> client0" where
  "u_sendRequestAndWaitForResponse0 request evs c =
     await_response0 evs (c\<lparr>trace := trace c @ [SockWrite request, ResponseTimer 60000]\<rparr>)"

definition u_get_data0 ::
  "string \<Rightarrow> string list \<Rightarrow> event list \<Rightarrow> client0
    \<Rightarrow> (error + string list) \<times> event list \<times> client0" where
  "u_get_data0 command parameters =
     u_sendRequestAndWaitForResponse0 (getRequest command ''R'' parameters)"

definition u_set_data0 ::
  "string list \<Rightarrow> event list \<Rightarrow> client0 \<Rightarrow> (error + string list) \<times> event list \<times> client0" where
  "u_set_data0 parameters =
     u_sendRequestAndWaitForResponse0 (getRequest ''DAT'' ''W'' parameters)"

lemma await_response0_shorter:
  "await_response0 evs c = (Inr r, evs', c') \<Longrightarrow> length evs' < length evs"
proof (induction evs c rule: await_response0.induct)
  case (2 chunk es c)
  then show ?case
    by (cases "onData chunk c") (auto split: option.splits)
qed auto

lemma u_set_data0_shorter:
  "u_set_data0 p evs c = (Inr r, evs', c') \<Longrightarrow> length evs' < length evs"
  unfolding u_set_data0_def u_sendRequestAndWaitForResponse0_def
  by (rule await_response0_shorter)

text \<open>The \<open>while\<close> loop of this file's \<open>__dial\<close>: it does not look at the stop flag.\<close>

function drain0 :: "event list \<Rightarrow> client0 \<Rightarrow> (error + unit) \<times> event list \<times> client0" where
  "drain0 evs c =
     (if writeParameters c \<noteq> [] then
        (case u_set_data0 (hd (writeParameters c)) evs c of
           (Inl e, evs', c') \<Rightarrow> (Inl e, evs', c')
         | (Inr r, evs', c') \<Rightarrow> drain0 evs' (c'\<lparr>writeParameters := tl (writeParameters c')\<rparr>))
      else (Inr (), evs, c))"
  by pat_completeness auto
termination
  by (relation "measure (\<lambda>(evs, c). length evs)") (auto dest: u_set_data0_shorter [OF sym])

declare drain0.simps [simp del]

definition dial_try0 :: "event list \<Rightarrow> client0 \<Rightarrow> (error + unit) \<times> event list \<times> client0" where
  "dial_try0 evs c =
     (case u_get_data0 ''INF'' [''''] evs c of
        (Inl e, evs1, c1) \<Rightarrow> (Inl e, evs1, c1)
      | (Inr r1, evs1, c1) \<Rightarrow>
     (case u_get_data0 ''DAT'' [''0''] evs1 (c1\<lparr>info := Some r1\<rparr>) of
        (Inl e, evs2, c2) \<Rightarrow> (Inl e, evs2, c2)
      | (Inr r2, evs2, c2) \<Rightarrow>
     (case u_get_data0 ''DAT'' [''2''] evs2 (c2\<lparr>data := Some r2\<rparr>) of
        (Inl e, evs3, c3) \<Rightarrow> (Inl e, evs3, c3)
      | (Inr r3, evs3, c3) \<Rightarrow>
     (case drain0 evs3 (c3\<lparr>data2 := Some r3\<rparr>) of
        (Inl e, evs4, c4) \<Rightarrow> (Inl e, evs4, c4)
      | (Inr u, evs4, c4) \<Rightarrow>
          (Inr (), evs4,
           c4\<lparr>writeParameters := [], writeRequest := False, timers := timers c4 @ [1000]\<rparr>)))))"

definition uu_dial0 :: "event list \<Rightarrow> client0 \<Rightarrow> client0" where
  "uu_dial0 evs c =
     (if \<not> isConnected c then c
      else
        (case dial_try0 evs c of
           (Inr u, rest, c') \<Rightarrow> c'
         | (Inl e, rest, c') \<Rightarrow> c'\<lparr>isConnected := False, timers := timers c' @ [5000]\<rparr>))"

text \<open>
  \<open>__connect\<close>: the \<open>catch\<close> block sets one timer, or two when the code is \<open>EISCONN\<close>; the
  \<open>'error'\<close> listener is added after the \<open>try\<close> statement in every case.
\<close>

definition uu_connect0 :: "connect_outcome \<Rightarrow> client0 \<Rightarrow> client0" where
  "uu_connect0 outcome c =
     (let c1 = c\<lparr>trace := trace c @ [SockConnect]\<rparr>;
          c2 = (case outcome of
                  ConnectPending \<Rightarrow> c1\<lparr>connectListeners := connectListeners c1 + 1\<rparr>
                | ConnectThrows eisconn \<Rightarrow>
                    c1\<lparr>isConnected := False,
                       timers := timers c1 @ (if eisconn then [5000, 5000] else [5000])\<rparr>)
      in c2\<lparr>errorListeners := errorListeners c2 + 1\<rparr>)"

text \<open>\<open>loop\<close>: no look at the stop flag.\<close>

definition loop0 :: "connect_outcome \<Rightarrow> event list \<Rightarrow> client0 \<Rightarrow> client0" where
  "loop0 outcome evs c = (if isConnected c then uu_dial0 evs c else uu_connect0 outcome c)"

text \<open>\<open>start\<close>\<close>

definition start0 :: "connect_outcome \<Rightarrow> event list \<Rightarrow> client0 \<Rightarrow> client0" where
  "start0 outcome evs c = (if \<not> endRequest c then loop0 outcome evs c else c)"

definition new_client0 :: client0 where
  "new_client0 =
     \<lparr>info = None, data = None, data2 = None, writeRequest = False, writeParameters = [],
      isConnected = False, endRequest = False, responseBuffer = [], trace = [],
      timers = [], errorListeners = 0, connectListeners = 0\<rparr>"

text \<open>
  The inputs between cycles; \<open>TimerFires\<close> is the oldest pending timer. As in
  \<open>client.ts\<close>, the socket's \<open>'connect'\<close> is not among them: every callback counted by
  \<open>connectListeners\<close> would call \<open>loop\<close> and start a cycle of its own.
\<close>

fun step0 :: "input \<Rightarrow> client0 \<Rightarrow> client0" where
  "step0 (Start outcome evs) c = start0 outcome evs c"
| "step0 Stop c = stop0 c"
| "step0 (SendCommand p) c = sendCommand p c"
| "step0 (TimerFires outcome evs) c =
     (case timers c of [] \<Rightarrow> c | t # ts \<Rightarrow> loop0 outcome evs (c\<lparr>timers := ts\<rparr>))"
| "step0 ErrorEvent c = on_error0 c"
| "step0 CloseEvent c = c"

definition run0 :: "input list \<Rightarrow> client0 \<Rightarrow> client0" where
  "run0 inputs c = foldl (\<lambda>s i. step0 i s) c inputs"

subsection \<open>Cycles in flight\<close>

text \<open>
  The second file one event at a time, as for \<open>client.ts\<close>. \<open>cycles0\<close> lists the cycles in
  flight in the order in which their current exchanges added their listeners.
\<close>

record session0 = client0 +
  cycles0 :: "phase list"

definition begin_exchange0 :: "int list \<Rightarrow> phase \<Rightarrow> session0 \<Rightarrow> session0" where
  "begin_exchange0 request ph s =
     s\<lparr>trace := trace s @ [SockWrite request, ResponseTimer 60000], cycles0 := cycles0 s @ [ph]\<rparr>"

text \<open>The head of the \<open>while\<close> loop and, when the queue is empty, the rest of the \<open>try\<close> block.\<close>

definition drain_next0 :: "session0 \<Rightarrow> session0" where
  "drain_next0 s =
     (if writeParameters s \<noteq> []
      then begin_exchange0 (getRequest ''DAT'' ''W'' (hd (writeParameters s))) AwaitWrite s
      else s\<lparr>writeParameters := [], writeRequest := False, timers := timers s @ [1000]\<rparr>)"

fun resume0 :: "phase \<Rightarrow> string list \<Rightarrow> session0 \<Rightarrow> session0" where
  "resume0 AwaitInfo r s =
     begin_exchange0 (getRequest ''DAT'' ''R'' [''0'']) AwaitData (s\<lparr>info := Some r\<rparr>)"
| "resume0 AwaitData r s =
     begin_exchange0 (getRequest ''DAT'' ''R'' [''2'']) AwaitData2 (s\<lparr>data := Some r\<rparr>)"
| "resume0 AwaitData2 r s = drain_next0 (s\<lparr>data2 := Some r\<rparr>)"
| "resume0 AwaitWrite r s = drain_next0 (s\<lparr>writeParameters := tl (writeParameters s)\<rparr>)"

text \<open>The \<open>catch\<close> block of \<open>__dial\<close>\<close>

definition fail_cycle0 :: "session0 \<Rightarrow> session0" where
  "fail_cycle0 s = s\<lparr>isConnected := False, timers := timers s @ [5000]\<rparr>"

text \<open>\<open>__dial\<close> up to its first \<open>await\<close>\<close>

definition uu_dial_async0 :: "session0 \<Rightarrow> session0" where
  "uu_dial_async0 s =
     (if \<not> isConnected s then s
      else begin_exchange0 (getRequest ''INF'' ''R'' ['''']) AwaitInfo s)"

text \<open>\<open>__connect\<close>\<close>

definition uu_connect_async0 :: "connect_outcome \<Rightarrow> session0 \<Rightarrow> session0" where
  "uu_connect_async0 outcome s =
     (let s1 = s\<lparr>trace := trace s @ [SockConnect]\<rparr>;
          s2 = (case outcome of
                  ConnectPending \<Rightarrow> s1\<lparr>connectListeners := connectListeners s1 + 1\<rparr>
                | ConnectThrows eisconn \<Rightarrow>
                    s1\<lparr>isConnected := False,
                       timers := timers s1 @ (if eisconn then [5000, 5000] else [5000])\<rparr>)
      in s2\<lparr>errorListeners := errorListeners s2 + 1\<rparr>)"

text \<open>\<open>loop\<close>, \<open>start\<close> and \<open>stop\<close>\<close>

definition loop_async0 :: "connect_outcome \<Rightarrow> session0 \<Rightarrow> session0" where
  "loop_async0 outcome s =
     (if isConnected s then uu_dial_async0 s else uu_connect_async0 outcome s)"

definition start_async0 :: "connect_outcome \<Rightarrow> session0 \<Rightarrow> session0" where
  "start_async0 outcome s = (if \<not> endRequest s then loop_async0 outcome s else s)"

definition stop_async0 :: "session0 \<Rightarrow> session0" where
  "stop_async0 s = s\<lparr>endRequest := True, trace := trace s @ [SockEnd]\<rparr>"

text \<open>The \<open>onData\<close> listeners of the exchanges in flight, in the order in which they were added.\<close>

fun on_data0 ::
  "string \<Rightarrow> phase list \<Rightarrow> session0 \<Rightarrow> (phase \<times> string list) list \<times> phase list \<times> session0" where
  "on_data0 chunk [] s = ([], [], s)"
| "on_data0 chunk (ph # phs) s =
     (case onData chunk s of
        (Some r, s1) \<Rightarrow>
          (case on_data0 chunk phs s1 of (resolved, waiting, s2) \<Rightarrow> ((ph, r) # resolved, waiting, s2))
      | (None, s1) \<Rightarrow>
          (case on_data0 chunk phs s1 of (resolved, waiting, s2) \<Rightarrow> (resolved, ph # waiting, s2)))"

definition resume_all0 :: "(phase \<times> string list) list \<Rightarrow> session0 \<Rightarrow> session0" where
  "resume_all0 resolved s = foldl (\<lambda>s (ph, r). resume0 ph r s) s resolved"

text \<open>
  On \<open>'connect'\<close> every pending callback passed to \<open>this._socket.connect\<close> runs. On
  \<open>'error'\<close> every listener added by \<open>__connect\<close> sets a timer and the \<open>onError\<close> of every
  exchange in flight rejects it; the rejected cycles continue in their \<open>catch\<close> block once
  the listeners have run. \<open>OnLoopTimer i\<close> is the pending timer at position \<open>i\<close>.
\<close>

fun react0 :: "occurrence \<Rightarrow> session0 \<Rightarrow> session0" where
  "react0 (DoStart outcome) s = start_async0 outcome s"
| "react0 DoStop s = stop_async0 s"
| "react0 (DoSendCommand p) s = sendCommand p s"
| "react0 (OnLoopTimer i outcome) s =
     (if i < length (timers s)
      then loop_async0 outcome (s\<lparr>timers := take i (timers s) @ drop (Suc i) (timers s)\<rparr>)
      else s)"
| "react0 (OnConnect outcome) s =
     ((\<lambda>s. loop_async0 outcome (s\<lparr>isConnected := True\<rparr>)) ^^ connectListeners s)
       (s\<lparr>connectListeners := 0\<rparr>)"
| "react0 (OnData chunk) s =
     (case on_data0 chunk (cycles0 s) s of
        (resolved, waiting, s1) \<Rightarrow> resume_all0 resolved (s1\<lparr>cycles0 := waiting\<rparr>))"
| "react0 OnError s =
     (if errorListeners s = 0 \<and> cycles0 s = [] then s
      else (fail_cycle0 ^^ length (cycles0 s))
             (s\<lparr>isConnected := False, timers := timers s @ replicate (errorListeners s) 5000,
                cycles0 := []\<rparr>))"
| "react0 OnClose s = s"
| "react0 (OnResponseTimer i) s =
     (if i < length (cycles0 s)
      then fail_cycle0 (s\<lparr>cycles0 := take i (cycles0 s) @ drop (Suc i) (cycles0 s)\<rparr>)
      else s)"

definition run_async0 :: "occurrence list \<Rightarrow> session0 \<Rightarrow> session0" where
  "run_async0 occs s = foldl (\<lambda>s occ. react0 occ s) s occs"

definition new_session0 :: session0 where
  "new_session0 =
     \<lparr>info = None, data = None, data2 = None, writeRequest = False, writeParameters = [],
      isConnected = False, endRequest = False, responseBuffer = [], trace = [],
      timers = [], errorListeners = 0, connectListeners = 0, cycles0 = []\<rparr>"

section \<open>\<open>hottoht.ts\<close>: the accessors of \<open>Hottoh\<close>\<close>

text \<open>
  What an accessor of type \<open>string | null\<close> can return: \<open>null\<close>, a string, or
  \<open>undefined\<close> when the array has no element at the index.
\<close>

datatype jsval = Null | Undefined | Str string

text \<open>
  A number produced by \<open>parseInt\<close>: \<open>NaN\<close> or an integer. The rounding of integers
  beyond \<open>2 ^ 53\<close> to a double is not modelled.
\<close>

datatype jsnum = NaN | Num int

text \<open>Reading an element of \<open>null\<close> throws.\<close>

datatype exn = TypeError

text \<open>
  \<open>const.ts\<close> is not among the source files, so its enums are parameters:
  \<open>StoveRegisters K ''INDEX_FW''\<close> stands for \<open>StoveRegisters.INDEX_FW\<close>, and likewise for
  \<open>StoveState\<close> and \<open>StoveManufacturer\<close>.
\<close>

record constants =
  StoveRegisters :: "string \<Rightarrow> nat"
  StoveState :: "string \<Rightarrow> int"
  StoveManufacturer :: "string \<Rightarrow> int"

text \<open>\<open>snapshot[i]\<close>\<close>

definition element :: "string list option \<Rightarrow> nat \<Rightarrow> exn + jsval" where
  "element snapshot i =
     (case snapshot of
        None \<Rightarrow> Inl TypeError
      | Some xs \<Rightarrow> Inr (if i < length xs then Str (xs ! i) else Undefined))"

text \<open>The rest of a function body after a read that may have thrown.\<close>

definition returning :: "exn + 'a \<Rightarrow> ('a \<Rightarrow> 'b) \<Rightarrow> exn + 'b" where
  "returning r f = (case r of Inl e \<Rightarrow> Inl e | Inr v \<Rightarrow> Inr (f v))"

text \<open>
  \<open>parseInt\<close> without a radix: leading white space, an optional sign, an optional
  \<open>0x\<close> prefix, then the longest run of digits; \<open>NaN\<close> when there is none.
\<close>

definition isWhiteSpace :: "char \<Rightarrow> bool" where
  "isWhiteSpace ch = (of_char ch \<in> {9, 10, 11, 12, 13, 32, 160 :: nat})"

definition digitValue :: "char \<Rightarrow> nat" where
  "digitValue ch =
     (let n = (of_char ch :: nat) in
      if 48 \<le> n \<and> n \<le> 57 then n - 48
      else if 97 \<le> n \<and> n \<le> 122 then n - 87
      else if 65 \<le> n \<and> n \<le> 90 then n - 55
      else 36)"

definition parseInt :: "jsval \<Rightarrow> jsnum" where
  "parseInt v =
     (case v of
        Str s \<Rightarrow>
          (let s1 = dropWhile isWhiteSpace s;
               negative = (take 1 s1 = ''-'');
               s2 = (if take 1 s1 = ''-'' \<or> take 1 s1 = ''+'' then drop 1 s1 else s1);
               hex = (take 2 s2 = ''0x'' \<or> take 2 s2 = ''0X'');
               radix = (if hex then 16 else 10);
               s3 = (if hex then drop 2 s2 else s2);
               digits = takeWhile (\<lambda>ch. digitValue ch < radix) s3
           in if digits = [] then NaN
              else Num ((if negative then - 1 else 1)
                        * int (foldl (\<lambda>a ch. a * radix + digitValue ch) 0 digits)))
      | Null \<Rightarrow> NaN
      | Undefined \<Rightarrow> NaN)"

definition decimalDigit :: "nat \<Rightarrow> char" where
  "decimalDigit d = ''0123456789'' ! d"

text \<open>\<open>n.toString()\<close> for a non-negative integer.\<close>

fun toStringDecimal :: "nat \<Rightarrow> string" where
  "toStringDecimal n =
     (if n < 10 then [decimalDigit n]
      else toStringDecimal (n div 10) @ [decimalDigit (n mod 10)])"

declare toStringDecimal.simps [simp del]

text \<open>
  \<open>(x / 10).toString()\<close> for the result \<open>x\<close> of \<open>parseInt\<close>: the shortest decimal of the
  quotient, which for an integer of fewer than sixteen digits has at most one digit after the point.
\<close>

definition toStringTenths :: "jsnum \<Rightarrow> string" where
  "toStringTenths x =
     (case x of
        NaN \<Rightarrow> ''NaN''
      | Num n \<Rightarrow>
          (if n < 0 then ''-'' else [])
          @ toStringDecimal (nat \<bar>n\<bar> div 10)
          @ (if nat \<bar>n\<bar> mod 10 = 0 then [] else ''.'' @ [decimalDigit (nat \<bar>n\<bar> mod 10)]))"

text \<open>\<open>x || ""\<close>\<close>

definition orEmpty :: "jsval \<Rightarrow> string" where
  "orEmpty v = (case v of Str s \<Rightarrow> s | Null \<Rightarrow> [] | Undefined \<Rightarrow> [])"

text \<open>\<open>"Stove " + m\<close>\<close>

definition concatString :: "string \<Rightarrow> jsval \<Rightarrow> string" where
  "concatString s v =
     s @ (case v of Str t \<Rightarrow> t | Null \<Rightarrow> ''null'' | Undefined \<Rightarrow> ''undefined'')"

text \<open>\<open>ToInt32\<close>, applied by \<open>>>\<close> to its left operand.\<close>

definition toInt32 :: "int \<Rightarrow> int" where
  "toInt32 n = (let m = n mod 2 ^ 32 in if 2 ^ 31 \<le> m then m - 2 ^ 32 else m)"

text \<open>\<open>((type >> i) & 1) === 1\<close>; \<open>NaN >> i\<close> is 0.\<close>

definition bitSet :: "jsnum \<Rightarrow> nat \<Rightarrow> bool" where
  "bitSet type i = (case type of NaN \<Rightarrow> False | Num n \<Rightarrow> toInt32 n div 2 ^ i mod 2 = 1)"

text \<open>
  The accessors, in the order of the file. Each takes the constants and the client whose
  snapshots it reads.
\<close>

definition u_getFirmwareVersion :: "constants \<Rightarrow> 'a client_base_scheme \<Rightarrow> exn + jsval" where
  "u_getFirmwareVersion K c =
     (if info c = None then Inr Null
      else element (info c) (StoveRegisters K ''INDEX_FW''))"

definition u_getWifiSignal :: "constants \<Rightarrow> 'a client_base_scheme \<Rightarrow> exn + jsval" where
  "u_getWifiSignal K c =
     (if info c = None then Inr Null
      else element (info c) (StoveRegisters K ''INDEX_WIFI''))"

definition u_getPageIndex :: "constants \<Rightarrow> 'a client_base_scheme \<Rightarrow> exn + jsval" where
  "u_getPageIndex K c =
     (if data c = None then Inr Null
      else element (data c) (StoveRegisters K ''INDEX_PAGE''))"

definition u_getManufacturer :: "constants \<Rightarrow> 'a client_base_scheme \<Rightarrow> exn + jsval" where
  "u_getManufacturer K c =
     (if data c = None then Inr Null
      else returning (element (data c) (StoveRegisters K ''INDEX_MANUFACTURER''))
             (\<lambda>v. if parseInt v = Num (StoveManufacturer K ''STOVE_MANUFACTURER_CMG'')
                  then Str ''CMG''
                  else if parseInt v = Num (StoveManufacturer K ''STOVE_MANUFACTURER_EDILKAMIN'')
                  then Str ''EdilKamin''
                  else v))"

definition u_getIsBitmapVisible :: "constants \<Rightarrow> 'a client_base_scheme \<Rightarrow> exn + jsval" where
  "u_getIsBitmapVisible K c =
     (if data c = None then Inr Null
      else element (data c) (StoveRegisters K ''INDEX_BITMAP_VISIBLE''))"

definition u_getIsValid :: "constants \<Rightarrow> 'a client_base_scheme \<Rightarrow> exn + jsval" where
  "u_getIsValid K c =
     (if data c = None then Inr Null
      else element (data c) (StoveRegisters K ''INDEX_VALID''))"

definition u_getStoveType :: "constants \<Rightarrow> 'a client_base_scheme \<Rightarrow> exn + jsnum option" where
  "u_getStoveType K c =
     (if data c = None then Inr None
      else returning (element (data c) (StoveRegisters K ''INDEX_STOVE_TYPE''))
             (\<lambda>v. Some (parseInt v)))"

text \<open>The \<open>case\<close> labels of the \<open>switch\<close> in \<open>_getStoveState\<close> with their results, in order.\<close>

definition stoveStateCases :: "(string \<times> string) list" where
  "stoveStateCases =
     [(''STATUS_OFF'', ''switched_off''),
      (''STATUS_STARTING_1'', ''starting_1_check''),
      (''STATUS_STARTING_2'', ''starting_2_clean_all''),
      (''STATUS_STARTING_3'', ''starting_3_loading''),
      (''STATUS_STARTING_4'', ''starting_4_waiting''),
      (''STATUS_STARTING_5'', ''starting_5_waiting''),
      (''STATUS_STARTING_6'', ''starting_6_ignition''),
      (''STATUS_STARTING_7'', ''starting_7_stabilization''),
      (''STATUS_POWER'', ''power''),
      (''STATUS_STOPPING_1'', ''stopping_1_wait_standby''),
      (''STATUS_STOPPING_2'', ''stopping_2_wait_standby''),
      (''STATUS_ECO_STOP_1'', ''eco_stop_1_standby''),
      (''STATUS_ECO_STOP_2'', ''eco_stop_2''),
      (''STATUS_ECO_STOP_3'', ''eco_stop_3''),
      (''STATUS_LOW_PELLET'', ''low_pellet''),
      (''STATUS_END_PELLET'', ''end_pellet''),
      (''STATUS_BLACK_OUT'', ''black_out''),
      (''STATUS_INGNITION_FAILED'', ''error_ignition_failed''),
      (''STATUS_ANTI_FREEZE'', ''anti_freeze''),
      (''STATUS_COVER_OPEN'', ''error_cover_open''),
      (''STATUS_NO_PELLET'', ''error_no_pellet'')]"

text \<open>The \<open>switch\<close>: the first label strictly equal to \<open>state\<close> wins; \<open>NaN\<close> equals none.\<close>

definition u_getStoveState :: "constants \<Rightarrow> 'a client_base_scheme \<Rightarrow> exn + jsval" where
  "u_getStoveState K c =
     (if data c = None then Inr (Str ''not_connected'')
      else
        (case element (data c) (StoveRegisters K ''INDEX_STOVE_STATE'') of
           Inl e \<Rightarrow> Inl e
         | Inr v \<Rightarrow>
             (let state = parseInt v in
              case find (\<lambda>(label, name). state = Num (StoveState K label)) stoveStateCases of
                Some (label, name) \<Rightarrow> Inr (Str name)
              | None \<Rightarrow> element (data c) (StoveRegisters K ''INDEX_STOVE_STATE''))))"

definition u_getStoveIsOn :: "constants \<Rightarrow> 'a client_base_scheme \<Rightarrow> exn + jsval" where
  "u_getStoveIsOn K c =
     (if data c = None then Inr Null
      else returning (element (data c) (StoveRegisters K ''INDEX_STOVE_ON''))
             (\<lambda>v. Str (if v = Str ''1'' then ''on'' else ''off'')))"

definition u_getEcoMode :: "constants \<Rightarrow> 'a client_base_scheme \<Rightarrow> exn + jsval" where
  "u_getEcoMode K c =
     (if data c = None then Inr Null
      else returning (element (data c) (StoveRegisters K ''INDEX_ECO_MODE''))
             (\<lambda>v. Str (if v = Str ''1'' then ''on'' else ''off'')))"

definition u_getChronoMode :: "constants \<Rightarrow> 'a client_base_scheme \<Rightarrow> exn + jsval" where
  "u_getChronoMode K c =
     (if data c = None then Inr Null
      else returning (element (data c) (StoveRegisters K ''INDEX_TIMER_ON''))
             (\<lambda>v. Str (if v = Str ''1'' then ''on'' else ''off'')))"

definition u_getTemperatureRoom1 :: "constants \<Rightarrow> 'a client_base_scheme \<Rightarrow> exn + jsval" where
  "u_getTemperatureRoom1 K c =
     (if data c = None then Inr Null
      else returning (element (data c) (StoveRegisters K ''INDEX_AMBIENT_T1''))
             (\<lambda>v. Str (toStringTenths (parseInt v))))"

definition u_getSetTemperatureRoom1 :: "constants \<Rightarrow> 'a client_base_scheme \<Rightarrow> exn + jsval" where
  "u_getSetTemperatureRoom1 K c =
     (if data c = None then Inr Null
      else returning (element (data c) (StoveRegisters K ''INDEX_AMBIENT_T1_SET''))
             (\<lambda>v. Str (toStringTenths (parseInt v))))"

definition u_getSetMaxTemperatureRoom1 :: "constants \<Rightarrow> 'a client_base_scheme \<Rightarrow> exn + jsval" where
  "u_getSetMaxTemperatureRoom1 K c =
     (if data c = None then Inr Null
      else returning (element (data c) (StoveRegisters K ''INDEX_AMBIENT_T1_SET_MAX''))
             (\<lambda>v. Str (toStringTenths (parseInt v))))"

definition u_getSetMinTemperatureRoom1 :: "constants \<Rightarrow> 'a client_base_scheme \<Rightarrow> exn + jsval" where
  "u_getSetMinTemperatureRoom1 K c =
     (if data c = None then Inr Null
      else returning (element (data c) (StoveRegisters K ''INDEX_AMBIENT_T1_SET_MIN''))
             (\<lambda>v. Str (toStringTenths (parseInt v))))"

definition u_getTemperatureRoom2 :: "constants \<Rightarrow> 'a client_base_scheme \<Rightarrow> exn + jsval" where
  "u_getTemperatureRoom2 K c =
     (if data c = None then Inr Null
      else returning (element (data c) (StoveRegisters K ''INDEX_AMBIENT_T2''))
             (\<lambda>v. Str (toStringTenths (parseInt v))))"

definition u_getSetTemperatureRoom2 :: "constants \<Rightarrow> 'a client_base_scheme \<Rightarrow> exn + jsval" where
  "u_getSetTemperatureRoom2 K c =
     (if data c = None then Inr Null
      else returning (element (data c) (StoveRegisters K ''INDEX_AMBIENT_T2_SET''))
             (\<lambda>v. Str (toStringTenths (parseInt v))))"

definition u_getSetMaxTemperatureRoom2 :: "constants \<Rightarrow> 'a client_base_scheme \<Rightarrow> exn + jsval" where
  "u_getSetMaxTemperatureRoom2 K c =
     (if data c = None then Inr Null
      else returning (element (data c) (StoveRegisters K ''INDEX_AMBIENT_T2_SET_MAX''))
             (\<lambda>v. Str (toStringTenths (parseInt v))))"

definition u_getSetMinTemperatureRoom2 :: "constants \<Rightarrow> 'a client_base_scheme \<Rightarrow> exn + jsval" where
  "u_getSetMinTemperatureRoom2 K c =
     (if data c = None then Inr Null
      else returning (element (data c) (StoveRegisters K ''INDEX_AMBIENT_T2_SET_MIN''))
             (\<lambda>v. Str (toStringTenths (parseInt v))))"

definition u_getTemperatureRoom3 :: "constants \<Rightarrow> 'a client_base_scheme \<Rightarrow> exn + jsval" where
  "u_getTemperatureRoom3 K c =
     (if data2 c = None then Inr Null
      else returning (element (data2 c) (StoveRegisters K ''INDEX_ROOM_TEMP_3''))
             (\<lambda>v. Str (toStringTenths (parseInt v))))"

definition u_getSetTemperatureRoom3 :: "constants \<Rightarrow> 'a client_base_scheme \<Rightarrow> exn + jsval" where
  "u_getSetTemperatureRoom3 K c =
     (if data2 c = None then Inr Null
      else returning (element (data2 c) (StoveRegisters K ''INDEX_ROOM_TEMP_3_SET''))
             (\<lambda>v. Str (toStringTenths (parseInt v))))"

definition u_getSetMaxTemperatureRoom3 :: "constants \<Rightarrow> 'a client_base_scheme \<Rightarrow> exn + jsval" where
  "u_getSetMaxTemperatureRoom3 K c =
     (if data2 c = None then Inr Null
      else returning (element (data2 c) (StoveRegisters K ''INDEX_ROOM_TEMP_3_SET_MAX''))
             (\<lambda>v. Str (toStringTenths (parseInt v))))"

definition u_getSetMinTemperatureRoom3 :: "constants \<Rightarrow> 'a client_base_scheme \<Rightarrow> exn + jsval" where
  "u_getSetMinTemperatureRoom3 K c =
     (if data2 c = None then Inr Null
      else returning (element (data2 c) (StoveRegisters K ''INDEX_ROOM_TEMP_3_SET_MIN''))
             (\<lambda>v. Str (toStringTenths (parseInt v))))"

definition u_getTemperatureWater :: "constants \<Rightarrow> 'a client_base_scheme \<Rightarrow> exn + jsval" where
  "u_getTemperatureWater K c =
     (if data c = None then Inr Null
      else returning (element (data c) (StoveRegisters K ''INDEX_WATER''))
             (\<lambda>v. Str (toStringTenths (parseInt v))))"

definition u_getSetTemperatureWater :: "constants \<Rightarrow> 'a client_base_scheme \<Rightarrow> exn + jsval" where
  "u_getSetTemperatureWater K c =
     (if data c = None then Inr Null
      else returning (element (data c) (StoveRegisters K ''INDEX_WATER_SET''))
             (\<lambda>v. Str (toStringTenths (parseInt v))))"

definition u_getSetMaxTemperatureWater :: "constants \<Rightarrow> 'a client_base_scheme \<Rightarrow> exn + jsval" where
  "u_getSetMaxTemperatureWater K c =
     (if data c = None then Inr Null
      else returning (element (data c) (StoveRegisters K ''INDEX_WATER_SET_MAX''))
             (\<lambda>v. Str (toStringTenths (parseInt v))))"

definition u_getSetMinTemperatureWater :: "constants \<Rightarrow> 'a client_base_scheme \<Rightarrow> exn + jsval" where
  "u_getSetMinTemperatureWater K c =
     (if data c = None then Inr Null
      else returning (element (data c) (StoveRegisters K ''INDEX_WATER_SET_MIN''))
             (\<lambda>v. Str (toStringTenths (parseInt v))))"

definition u_getSmokeTemperature :: "constants \<Rightarrow> 'a client_base_scheme \<Rightarrow> exn + jsval" where
  "u_getSmokeTemperature K c =
     (if data c = None then Inr Null
      else returning (element (data c) (StoveRegisters K ''INDEX_SMOKE_T''))
             (\<lambda>v. Str (toStringTenths (parseInt v))))"

definition u_getPowerLevel :: "constants \<Rightarrow> 'a client_base_scheme \<Rightarrow> exn + jsval" where
  "u_getPowerLevel K c =
     (if data c = None then Inr Null
      else element (data c) (StoveRegisters K ''INDEX_POWER_LEVEL''))"

definition u_getSetPowerLevel :: "constants \<Rightarrow> 'a client_base_scheme \<Rightarrow> exn + jsval" where
  "u_getSetPowerLevel K c =
     (if data c = None then Inr Null
      else element (data c) (StoveRegisters K ''INDEX_POWER_SET''))"

definition u_getSetMaxPowerLevel :: "constants \<Rightarrow> 'a client_base_scheme \<Rightarrow> exn + jsval" where
  "u_getSetMaxPowerLevel K c =
     (if data c = None then Inr Null
      else element (data c) (StoveRegisters K ''INDEX_POWER_MAX''))"

definition u_getSetMinPowerLevel :: "constants \<Rightarrow> 'a client_base_scheme \<Rightarrow> exn + jsval" where
  "u_getSetMinPowerLevel K c =
     (if data c = None then Inr Null
      else element (data c) (StoveRegisters K ''INDEX_POWER_MIN''))"

definition u_getSpeedFanSmoke :: "constants \<Rightarrow> 'a client_base_scheme \<Rightarrow> exn + jsval" where
  "u_getSpeedFanSmoke K c =
     (if data c = None then Inr Null
      else element (data c) (StoveRegisters K ''INDEX_FAN_SMOKE''))"

definition u_getSpeedFan1 :: "constants \<Rightarrow> 'a client_base_scheme \<Rightarrow> exn + jsval" where
  "u_getSpeedFan1 K c =
     (if data c = None then Inr Null
      else element (data c) (StoveRegisters K ''INDEX_FAN_1''))"

definition u_getSetSpeedFan1 :: "constants \<Rightarrow> 'a client_base_scheme \<Rightarrow> exn + jsval" where
  "u_getSetSpeedFan1 K c =
     (if data c = None then Inr Null
      else element (data c) (StoveRegisters K ''INDEX_FAN_1_SET''))"

definition u_getSetMaxSpeedFan1 :: "constants \<Rightarrow> 'a client_base_scheme \<Rightarrow> exn + jsval" where
  "u_getSetMaxSpeedFan1 K c =
     (if data c = None then Inr Null
      else element (data c) (StoveRegisters K ''INDEX_FAN_1_SET_MAX''))"

definition u_getSpeedFan2 :: "constants \<Rightarrow> 'a client_base_scheme \<Rightarrow> exn + jsval" where
  "u_getSpeedFan2 K c =
     (if data c = None then Inr Null
      else element (data c) (StoveRegisters K ''INDEX_FAN_2''))"

definition u_getSetSpeedFan2 :: "constants \<Rightarrow> 'a client_base_scheme \<Rightarrow> exn + jsval" where
  "u_getSetSpeedFan2 K c =
     (if data c = None then Inr Null
      else element (data c) (StoveRegisters K ''INDEX_FAN_2_SET''))"

definition u_getSetMaxSpeedFan2 :: "constants \<Rightarrow> 'a client_base_scheme \<Rightarrow> exn + jsval" where
  "u_getSetMaxSpeedFan2 K c =
     (if data c = None then Inr Null
      else element (data c) (StoveRegisters K ''INDEX_FAN_2_SET_MAX''))"

definition u_getSpeedFan3 :: "constants \<Rightarrow> 'a client_base_scheme \<Rightarrow> exn + jsval" where
  "u_getSpeedFan3 K c =
     (if data c = None then Inr Null
      else element (data c) (StoveRegisters K ''INDEX_FAN_3''))"

definition u_getSetSpeedFan3 :: "constants \<Rightarrow> 'a client_base_scheme \<Rightarrow> exn + jsval" where
  "u_getSetSpeedFan3 K c =
     (if data c = None then Inr Null
      else element (data c) (StoveRegisters K ''INDEX_FAN_3_SET''))"

definition u_getSetMaxSpeedFan3 :: "constants \<Rightarrow> 'a client_base_scheme \<Rightarrow> exn + jsval" where
  "u_getSetMaxSpeedFan3 K c =
     (if data c = None then Inr Null
      else element (data c) (StoveRegisters K ''INDEX_FAN_3_SET_MAX''))"

definition u_getFlowSwitch :: "constants \<Rightarrow> 'a client_base_scheme \<Rightarrow> exn + jsval" where
  "u_getFlowSwitch K c =
     (if data2 c = None then Inr Null
      else element (data2 c) (StoveRegisters K ''INDEX_FLOW_SWITCH''))"

definition u_getGenericPump :: "constants \<Rightarrow> 'a client_base_scheme \<Rightarrow> exn + jsval" where
  "u_getGenericPump K c =
     (if data2 c = None then Inr Null
      else element (data2 c) (StoveRegisters K ''INDEX_GENERIC_PUMP''))"

definition u_getAirEx1 :: "constants \<Rightarrow> 'a client_base_scheme \<Rightarrow> exn + jsval" where
  "u_getAirEx1 K c =
     (if data2 c = None then Inr Null
      else element (data2 c) (StoveRegisters K ''INDEX_AIREX_1''))"

definition u_getAirEx2 :: "constants \<Rightarrow> 'a client_base_scheme \<Rightarrow> exn + jsval" where
  "u_getAirEx2 K c =
     (if data2 c = None then Inr Null
      else element (data2 c) (StoveRegisters K ''INDEX_AIREX_2''))"

definition u_getAirEx3 :: "constants \<Rightarrow> 'a client_base_scheme \<Rightarrow> exn + jsval" where
  "u_getAirEx3 K c =
     (if data2 c = None then Inr Null
      else element (data2 c) (StoveRegisters K ''INDEX_AIREX_3''))"

definition u_getPuffer :: "constants \<Rightarrow> 'a client_base_scheme \<Rightarrow> exn + jsval" where
  "u_getPuffer K c =
     (if data2 c = None then Inr Null
      else element (data2 c) (StoveRegisters K ''INDEX_PUFFER''))"

definition u_getSetPuffer :: "constants \<Rightarrow> 'a client_base_scheme \<Rightarrow> exn + jsval" where
  "u_getSetPuffer K c =
     (if data2 c = None then Inr Null
      else element (data2 c) (StoveRegisters K ''INDEX_PUFFER_SET''))"

definition u_getSetMinPuffer :: "constants \<Rightarrow> 'a client_base_scheme \<Rightarrow> exn + jsval" where
  "u_getSetMinPuffer K c =
     (if data2 c = None then Inr Null
      else element (data2 c) (StoveRegisters K ''INDEX_PUFFER_SET_MIN''))"

definition u_getSetMaxPuffer :: "constants \<Rightarrow> 'a client_base_scheme \<Rightarrow> exn + jsval" where
  "u_getSetMaxPuffer K c =
     (if data2 c = None then Inr Null
      else element (data2 c) (StoveRegisters K ''INDEX_PUFFER_SET_MAX''))"

definition u_getBoiler :: "constants \<Rightarrow> 'a client_base_scheme \<Rightarrow> exn + jsval" where
  "u_getBoiler K c =
     (if data2 c = None then Inr Null
      else element (data2 c) (StoveRegisters K ''INDEX_BOILER''))"

definition u_getSetBoiler :: "constants \<Rightarrow> 'a client_base_scheme \<Rightarrow> exn + jsval" where
  "u_getSetBoiler K c =
     (if data2 c = None then Inr Null
      else element (data2 c) (StoveRegisters K ''INDEX_BOILER_SET''))"

definition u_getSetMinBoiler :: "constants \<Rightarrow> 'a client_base_scheme \<Rightarrow> exn + jsval" where
  "u_getSetMinBoiler K c =
     (if data2 c = None then Inr Null
      else element (data2 c) (StoveRegisters K ''INDEX_BOILER_SET_MIN''))"

definition u_getSetMaxBoiler :: "constants \<Rightarrow> 'a client_base_scheme \<Rightarrow> exn + jsval" where
  "u_getSetMaxBoiler K c =
     (if data2 c = None then Inr Null
      else element (data2 c) (StoveRegisters K ''INDEX_BOILER_SET_MAX''))"

definition u_getDhw :: "constants \<Rightarrow> 'a client_base_scheme \<Rightarrow> exn + jsval" where
  "u_getDhw K c =
     (if data2 c = None then Inr Null
      else element (data2 c) (StoveRegisters K ''INDEX_DHW''))"

definition u_getSetDhw :: "constants \<Rightarrow> 'a client_base_scheme \<Rightarrow> exn + jsval" where
  "u_getSetDhw K c =
     (if data2 c = None then Inr Null
      else element (data2 c) (StoveRegisters K ''INDEX_DHW_SET''))"

definition u_getSetMinDhw :: "constants \<Rightarrow> 'a client_base_scheme \<Rightarrow> exn + jsval" where
  "u_getSetMinDhw K c =
     (if data2 c = None then Inr Null
      else element (data2 c) (StoveRegisters K ''INDEX_DHW_SET_MIN''))"

definition u_getSetMaxDhw :: "constants \<Rightarrow> 'a client_base_scheme \<Rightarrow> exn + jsval" where
  "u_getSetMaxDhw K c =
     (if data2 c = None then Inr Null
      else element (data2 c) (StoveRegisters K ''INDEX_DHW_SET_MAX''))"

definition getSmokeTemperature :: "(jsval \<Rightarrow> 'n) \<Rightarrow> constants \<Rightarrow> 'a client_base_scheme \<Rightarrow> exn + 'n option" where
  "getSmokeTemperature parseFloat K c =
     returning (u_getSmokeTemperature K c) (\<lambda>v. if v \<noteq> Null then Some (parseFloat v) else None)"

definition getWaterTemperature :: "(jsval \<Rightarrow> 'n) \<Rightarrow> constants \<Rightarrow> 'a client_base_scheme \<Rightarrow> exn + 'n option" where
  "getWaterTemperature parseFloat K c =
     returning (u_getTemperatureWater K c) (\<lambda>v. if v \<noteq> Null then Some (parseFloat v) else None)"

definition getSetWaterTemperature :: "(jsval \<Rightarrow> 'n) \<Rightarrow> constants \<Rightarrow> 'a client_base_scheme \<Rightarrow> exn + 'n option" where
  "getSetWaterTemperature parseFloat K c =
     returning (u_getSetTemperatureWater K c) (\<lambda>v. if v \<noteq> Null then Some (parseFloat v) else None)"

definition getSetMinWaterTemperature :: "(jsval \<Rightarrow> 'n) \<Rightarrow> constants \<Rightarrow> 'a client_base_scheme \<Rightarrow> exn + 'n option" where
  "getSetMinWaterTemperature parseFloat K c =
     returning (u_getSetMinTemperatureWater K c) (\<lambda>v. if v \<noteq> Null then Some (parseFloat v) else None)"

definition getSetMaxWaterTemperature :: "(jsval \<Rightarrow> 'n) \<Rightarrow> constants \<Rightarrow> 'a client_base_scheme \<Rightarrow> exn + 'n option" where
  "getSetMaxWaterTemperature parseFloat K c =
     returning (u_getSetMaxTemperatureWater K c) (\<lambda>v. if v \<noteq> Null then Some (parseFloat v) else None)"

definition getSpeedFanSmoke :: "(jsval \<Rightarrow> 'n) \<Rightarrow> constants \<Rightarrow> 'a client_base_scheme \<Rightarrow> exn + 'n option" where
  "getSpeedFanSmoke parseFloat K c =
     returning (u_getSpeedFanSmoke K c) (\<lambda>v. if v \<noteq> Null then Some (parseFloat v) else None)"

definition getTemperatureRoom1 :: "(jsval \<Rightarrow> 'n) \<Rightarrow> constants \<Rightarrow> 'a client_base_scheme \<Rightarrow> exn + 'n option" where
  "getTemperatureRoom1 parseFloat K c =
     returning (u_getTemperatureRoom1 K c) (\<lambda>v. if v \<noteq> Null then Some (parseFloat v) else None)"

definition getSetTemperatureRoom1 :: "(jsval \<Rightarrow> 'n) \<Rightarrow> constants \<Rightarrow> 'a client_base_scheme \<Rightarrow> exn + 'n option" where
  "getSetTemperatureRoom1 parseFloat K c =
     returning (u_getSetTemperatureRoom1 K c) (\<lambda>v. if v \<noteq> Null then Some (parseFloat v) else None)"

definition getSetMinTemperatureRoom1 :: "(jsval \<Rightarrow> 'n) \<Rightarrow> constants \<Rightarrow> 'a client_base_scheme \<Rightarrow> exn + 'n option" where
  "getSetMinTemperatureRoom1 parseFloat K c =
     returning (u_getSetMinTemperatureRoom1 K c) (\<lambda>v. if v \<noteq> Null then Some (parseFloat v) else None)"

definition getSetMaxTemperatureRoom1 :: "(jsval \<Rightarrow> 'n) \<Rightarrow> constants \<Rightarrow> 'a client_base_scheme \<Rightarrow> exn + 'n option" where
  "getSetMaxTemperatureRoom1 parseFloat K c =
     returning (u_getSetMaxTemperatureRoom1 K c) (\<lambda>v. if v \<noteq> Null then Some (parseFloat v) else None)"

definition getTemperatureRoom2 :: "(jsval \<Rightarrow> 'n) \<Rightarrow> constants \<Rightarrow> 'a client_base_scheme \<Rightarrow> exn + 'n option" where
  "getTemperatureRoom2 parseFloat K c =
     returning (u_getTemperatureRoom2 K c) (\<lambda>v. if v \<noteq> Null then Some (parseFloat v) else None)"

definition getSetTemperatureRoom2 :: "(jsval \<Rightarrow> 'n) \<Rightarrow> constants \<Rightarrow> 'a client_base_scheme \<Rightarrow> exn + 'n option" where
  "getSetTemperatureRoom2 parseFloat K c =
     returning (u_getSetTemperatureRoom2 K c) (\<lambda>v. if v \<noteq> Null then Some (parseFloat v) else None)"

definition getSetMinTemperatureRoom2 :: "(jsval \<Rightarrow> 'n) \<Rightarrow> constants \<Rightarrow> 'a client_base_scheme \<Rightarrow> exn + 'n option" where
  "getSetMinTemperatureRoom2 parseFloat K c =
     returning (u_getSetMinTemperatureRoom2 K c) (\<lambda>v. if v \<noteq> Null then Some (parseFloat v) else None)"

definition getSetMaxTemperatureRoom2 :: "(jsval \<Rightarrow> 'n) \<Rightarrow> constants \<Rightarrow> 'a client_base_scheme \<Rightarrow> exn + 'n option" where
  "getSetMaxTemperatureRoom2 parseFloat K c =
     returning (u_getSetMaxTemperatureRoom2 K c) (\<lambda>v. if v \<noteq> Null then Some (parseFloat v) else None)"

definition getTemperatureRoom3 :: "(jsval \<Rightarrow> 'n) \<Rightarrow> constants \<Rightarrow> 'a client_base_scheme \<Rightarrow> exn + 'n option" where
  "getTemperatureRoom3 parseFloat K c =
     returning (u_getTemperatureRoom3 K c) (\<lambda>v. if v \<noteq> Null then Some (parseFloat v) else None)"

definition getSetTemperatureRoom3 :: "(jsval \<Rightarrow> 'n) \<Rightarrow> constants \<Rightarrow> 'a client_base_scheme \<Rightarrow> exn + 'n option" where
  "getSetTemperatureRoom3 parseFloat K c =
     returning (u_getSetTemperatureRoom3 K c) (\<lambda>v. if v \<noteq> Null then Some (parseFloat v) else None)"

definition getSetMinTemperatureRoom3 :: "(jsval \<Rightarrow> 'n) \<Rightarrow> constants \<Rightarrow> 'a client_base_scheme \<Rightarrow> exn + 'n option" where
  "getSetMinTemperatureRoom3 parseFloat K c =
     returning (u_getSetMinTemperatureRoom3 K c) (\<lambda>v. if v \<noteq> Null then Some (parseFloat v) else None)"

definition getSetMaxTemperatureRoom3 :: "(jsval \<Rightarrow> 'n) \<Rightarrow> constants \<Rightarrow> 'a client_base_scheme \<Rightarrow> exn + 'n option" where
  "getSetMaxTemperatureRoom3 parseFloat K c =
     returning (u_getSetMaxTemperatureRoom3 K c) (\<lambda>v. if v \<noteq> Null then Some (parseFloat v) else None)"

definition getSpeedFan1 :: "constants \<Rightarrow> 'a client_base_scheme \<Rightarrow> exn + jsnum option" where
  "getSpeedFan1 K c =
     returning (u_getSpeedFan1 K c) (\<lambda>v. if v \<noteq> Null then Some (parseInt v) else None)"

definition getSetSpeedFan1 :: "constants \<Rightarrow> 'a client_base_scheme \<Rightarrow> exn + jsnum option" where
  "getSetSpeedFan1 K c =
     returning (u_getSetSpeedFan1 K c) (\<lambda>v. if v \<noteq> Null then Some (parseInt v) else None)"

definition getSetMaxSpeedFan1 :: "constants \<Rightarrow> 'a client_base_scheme \<Rightarrow> exn + jsnum option" where
  "getSetMaxSpeedFan1 K c =
     returning (u_getSetMaxSpeedFan1 K c) (\<lambda>v. if v \<noteq> Null then Some (parseInt v) else None)"

definition getSpeedFan2 :: "(jsval \<Rightarrow> 'n) \<Rightarrow> constants \<Rightarrow> 'a client_base_scheme \<Rightarrow> exn + 'n option" where
  "getSpeedFan2 parseFloat K c =
     returning (u_getSpeedFan2 K c) (\<lambda>v. if v \<noteq> Null then Some (parseFloat v) else None)"

definition getSetSpeedFan2 :: "(jsval \<Rightarrow> 'n) \<Rightarrow> constants \<Rightarrow> 'a client_base_scheme \<Rightarrow> exn + 'n option" where
  "getSetSpeedFan2 parseFloat K c =
     returning (u_getSetSpeedFan2 K c) (\<lambda>v. if v \<noteq> Null then Some (parseFloat v) else None)"

definition getSetMaxSpeedFan2 :: "(jsval \<Rightarrow> 'n) \<Rightarrow> constants \<Rightarrow> 'a client_base_scheme \<Rightarrow> exn + 'n option" where
  "getSetMaxSpeedFan2 parseFloat K c =
     returning (u_getSetMaxSpeedFan2 K c) (\<lambda>v. if v \<noteq> Null then Some (parseFloat v) else None)"

definition getSpeedFan3 :: "(jsval \<Rightarrow> 'n) \<Rightarrow> constants \<Rightarrow> 'a client_base_scheme \<Rightarrow> exn + 'n option" where
  "getSpeedFan3 parseFloat K c =
     returning (u_getSpeedFan3 K c) (\<lambda>v. if v \<noteq> Null then Some (parseFloat v) else None)"

definition getSetSpeedFan3 :: "(jsval \<Rightarrow> 'n) \<Rightarrow> constants \<Rightarrow> 'a client_base_scheme \<Rightarrow> exn + 'n option" where
  "getSetSpeedFan3 parseFloat K c =
     returning (u_getSetSpeedFan3 K c) (\<lambda>v. if v \<noteq> Null then Some (parseFloat v) else None)"

definition getSetMaxSpeedFan3 :: "(jsval \<Rightarrow> 'n) \<Rightarrow> constants \<Rightarrow> 'a client_base_scheme \<Rightarrow> exn + 'n option" where
  "getSetMaxSpeedFan3 parseFloat K c =
     returning (u_getSetMaxSpeedFan3 K c) (\<lambda>v. if v \<noteq> Null then Some (parseFloat v) else None)"

definition getPowerLevel :: "(jsval \<Rightarrow> 'n) \<Rightarrow> constants \<Rightarrow> 'a client_base_scheme \<Rightarrow> exn + 'n option" where
  "getPowerLevel parseFloat K c =
     returning (u_getPowerLevel K c) (\<lambda>v. if v \<noteq> Null then Some (parseFloat v) else None)"

definition getSetPowerLevel :: "(jsval \<Rightarrow> 'n) \<Rightarrow> constants \<Rightarrow> 'a client_base_scheme \<Rightarrow> exn + 'n option" where
  "getSetPowerLevel parseFloat K c =
     returning (u_getSetPowerLevel K c) (\<lambda>v. if v \<noteq> Null then Some (parseFloat v) else None)"

definition getSetMinPowerLevel :: "(jsval \<Rightarrow> 'n) \<Rightarrow> constants \<Rightarrow> 'a client_base_scheme \<Rightarrow> exn + 'n option" where
  "getSetMinPowerLevel parseFloat K c =
     returning (u_getSetMinPowerLevel K c) (\<lambda>v. if v \<noteq> Null then Some (parseFloat v) else None)"

definition getSetMaxPowerLevel :: "(jsval \<Rightarrow> 'n) \<Rightarrow> constants \<Rightarrow> 'a client_base_scheme \<Rightarrow> exn + 'n option" where
  "getSetMaxPowerLevel parseFloat K c =
     returning (u_getSetMaxPowerLevel K c) (\<lambda>v. if v \<noteq> Null then Some (parseFloat v) else None)"

definition getAirEx1 :: "(jsval \<Rightarrow> 'n) \<Rightarrow> constants \<Rightarrow> 'a client_base_scheme \<Rightarrow> exn + 'n option" where
  "getAirEx1 parseFloat K c =
     returning (u_getAirEx1 K c) (\<lambda>v. if v \<noteq> Null then Some (parseFloat v) else None)"

definition getAirEx2 :: "(jsval \<Rightarrow> 'n) \<Rightarrow> constants \<Rightarrow> 'a client_base_scheme \<Rightarrow> exn + 'n option" where
  "getAirEx2 parseFloat K c =
     returning (u_getAirEx2 K c) (\<lambda>v. if v \<noteq> Null then Some (parseFloat v) else None)"

definition getAirEx3 :: "(jsval \<Rightarrow> 'n) \<Rightarrow> constants \<Rightarrow> 'a client_base_scheme \<Rightarrow> exn + 'n option" where
  "getAirEx3 parseFloat K c =
     returning (u_getAirEx3 K c) (\<lambda>v. if v \<noteq> Null then Some (parseFloat v) else None)"

definition getAction :: "constants \<Rightarrow> 'a client_base_scheme \<Rightarrow> exn + jsval" where
  "getAction K c =
     returning (u_getStoveState K c)
       (\<lambda>state.
          if orEmpty state \<in> set [''switched_off'', ''black_out'', ''eco_stop_2'', ''eco_stop_3'']
          then Str ''off''
          else if orEmpty state \<in> set [''starting_1_check''] then Str ''check''
          else if orEmpty state \<in> set [''starting_2_clean_all''] then Str ''clean_all''
          else if orEmpty state \<in> set [''starting_3_loading''] then Str ''loading''
          else if orEmpty state \<in> set [''starting_4_waiting'', ''starting_5_waiting'']
          then Str ''waiting''
          else if orEmpty state \<in> set [''starting_6_ignition''] then Str ''ignition''
          else if orEmpty state \<in> set [''starting_7_stabilization''] then Str ''stabilization''
          else if orEmpty state \<in> set [''power''] then Str ''heating''
          else if orEmpty state \<in> set [''stopping_1_wait_standby'', ''stopping_2_wait_standby'']
          then Str ''stopping''
          else if orEmpty state \<in> set [''eco_stop_1_standby'', ''standby''] then Str ''idle''
          else state)"

definition getIsOn :: "constants \<Rightarrow> 'a client_base_scheme \<Rightarrow> exn + bool" where
  "getIsOn K c = returning (u_getStoveIsOn K c) (\<lambda>v. v = Str ''on'')"

definition getEcoMode :: "constants \<Rightarrow> 'a client_base_scheme \<Rightarrow> exn + bool" where
  "getEcoMode K c = returning (u_getEcoMode K c) (\<lambda>v. v = Str ''on'')"

definition getChronoMode :: "constants \<Rightarrow> 'a client_base_scheme \<Rightarrow> exn + bool" where
  "getChronoMode K c = returning (u_getChronoMode K c) (\<lambda>v. v = Str ''on'')"

definition getMode :: "constants \<Rightarrow> 'a client_base_scheme \<Rightarrow> exn + jsval" where
  "getMode K c = u_getStoveIsOn K c"

definition getName :: "constants \<Rightarrow> 'a client_base_scheme \<Rightarrow> exn + jsval" where
  "getName K c =
     returning (u_getManufacturer K c)
       (\<lambda>m. if m = Null then Null else Str (concatString ''Stove '' m))"

definition getFirmware :: "constants \<Rightarrow> 'a client_base_scheme \<Rightarrow> exn + jsval" where
  "getFirmware K c = u_getFirmwareVersion K c"

definition getWifi :: "constants \<Rightarrow> 'a client_base_scheme \<Rightarrow> exn + jsval" where
  "getWifi K c = u_getWifiSignal K c"

definition getManufacturer :: "constants \<Rightarrow> 'a client_base_scheme \<Rightarrow> exn + jsval" where
  "getManufacturer K c = u_getManufacturer K c"

definition getWaterPump :: "constants \<Rightarrow> 'a client_base_scheme \<Rightarrow> exn + bool option" where
  "getWaterPump K c =
     returning (u_getGenericPump K c)
       (\<lambda>v. if v = Null then None else Some (parseInt v \<noteq> Num 0))"

text \<open>\<open>_getStoveTypeBitArray\<close>: sixteen flags, the one of bit 15 first.\<close>

definition u_getStoveTypeBitArray :: "constants \<Rightarrow> 'a client_base_scheme \<Rightarrow> exn + bool list" where
  "u_getStoveTypeBitArray K c =
     returning (u_getStoveType K c)
       (\<lambda>type. case type of
                 None \<Rightarrow> replicate 16 False
               | Some t \<Rightarrow> map (bitSet t) (rev [0..<16]))"

definition isBoilerEnabled :: "constants \<Rightarrow> 'a client_base_scheme \<Rightarrow> exn + bool" where
  "isBoilerEnabled K c = returning (u_getStoveTypeBitArray K c) (\<lambda>bits. bits ! 6)"

definition isDomesticHotWaterEnabled :: "constants \<Rightarrow> 'a client_base_scheme \<Rightarrow> exn + bool" where
  "isDomesticHotWaterEnabled K c = returning (u_getStoveTypeBitArray K c) (\<lambda>bits. bits ! 5)"

definition getFanNumber :: "constants \<Rightarrow> 'a client_base_scheme \<Rightarrow> exn + nat" where
  "getFanNumber K c =
     returning (u_getStoveTypeBitArray K c)
       (\<lambda>bits. (if bits ! 2 then 2 else 0) + (if bits ! 3 then 1 else 0))"

definition isTempRoom1Enabled :: "constants \<Rightarrow> 'a client_base_scheme \<Rightarrow> exn + bool" where
  "isTempRoom1Enabled K c = returning (u_getStoveTypeBitArray K c) (\<lambda>bits. bits ! 0)"

definition isTempRoom2Enabled :: "constants \<Rightarrow> 'a client_base_scheme \<Rightarrow> exn + bool" where
  "isTempRoom2Enabled K c = returning (u_getStoveTypeBitArray K c) (\<lambda>bits. bits ! 7)"

definition isTempRoom3Enabled :: "constants \<Rightarrow> 'a client_base_scheme \<Rightarrow> exn + bool" where
  "isTempRoom3Enabled K c = returning (u_getStoveTypeBitArray K c) (\<lambda>bits. bits ! 8)"

definition isTempWaterEnabled :: "constants \<Rightarrow> 'a client_base_scheme \<Rightarrow> exn + bool" where
  "isTempWaterEnabled K c = returning (u_getStoveTypeBitArray K c) (\<lambda>bits. bits ! 1)"

definition isPumpEnabled :: "constants \<Rightarrow> 'a client_base_scheme \<Rightarrow> exn + bool" where
  "isPumpEnabled K c = returning (u_getStoveTypeBitArray K c) (\<lambda>bits. bits ! 11)"

definition isFlowSwitchEnabled :: "constants \<Rightarrow> 'a client_base_scheme \<Rightarrow> exn + bool" where
  "isFlowSwitchEnabled K c = returning (u_getStoveTypeBitArray K c) (\<lambda>bits. bits ! 10)"

definition isPufferEnabled :: "constants \<Rightarrow> 'a client_base_scheme \<Rightarrow> exn + bool" where
  "isPufferEnabled K c = returning (u_getStoveTypeBitArray K c) (\<lambda>bits. bits ! 9)"

definition isBoilerTempEnabled :: "constants \<Rightarrow> 'a client_base_scheme \<Rightarrow> exn + bool" where
  "isBoilerTempEnabled K c = returning (u_getStoveTypeBitArray K c) (\<lambda>bits. bits ! 4)"

definition isDhwEnabled :: "constants \<Rightarrow> 'a client_base_scheme \<Rightarrow> exn + bool" where
  "isDhwEnabled K c = returning (u_getStoveTypeBitArray K c) (\<lambda>bits. bits ! 3)"

definition isAirEx1Enabled :: "constants \<Rightarrow> 'a client_base_scheme \<Rightarrow> exn + bool" where
  "isAirEx1Enabled K c = returning (u_getStoveTypeBitArray K c) (\<lambda>bits. bits ! 12)"

definition isAirEx2Enabled :: "constants \<Rightarrow> 'a client_base_scheme \<Rightarrow> exn + bool" where
  "isAirEx2Enabled K c = returning (u_getStoveTypeBitArray K c) (\<lambda>bits. bits ! 13)"

definition isAirEx3Enabled :: "constants \<Rightarrow> 'a client_base_scheme \<Rightarrow> exn + bool" where
  "isAirEx3Enabled K c = returning (u_getStoveTypeBitArray K c) (\<lambda>bits. bits ! 14)"

definition isGenericPumpEnabled :: "constants \<Rightarrow> 'a client_base_scheme \<Rightarrow> exn + bool" where
  "isGenericPumpEnabled K c = returning (u_getStoveTypeBitArray K c) (\<lambda>bits. bits ! 15)"

text \<open>
  The accessors by the snapshot they read and the type they return; \<open>_getStoveState\<close>,
  \<open>getAction\<close>, \<open>_getStoveType\<close> and the feature queries are apart.
\<close>

definition infoStrings :: "constants \<Rightarrow> ('a client_base_scheme \<Rightarrow> exn + jsval) list" where
  "infoStrings K =
     [u_getFirmwareVersion K, u_getWifiSignal K, getFirmware K, getWifi K]"

definition dataStrings :: "constants \<Rightarrow> ('a client_base_scheme \<Rightarrow> exn + jsval) list" where
  "dataStrings K =
     [u_getPageIndex K, u_getIsBitmapVisible K, u_getIsValid K, u_getStoveIsOn K,
      u_getEcoMode K, u_getChronoMode K, u_getTemperatureRoom1 K, u_getSetTemperatureRoom1 K,
      u_getSetMaxTemperatureRoom1 K, u_getSetMinTemperatureRoom1 K, u_getTemperatureRoom2 K,
      u_getSetTemperatureRoom2 K, u_getSetMaxTemperatureRoom2 K, u_getSetMinTemperatureRoom2 K,
      u_getTemperatureWater K, u_getSetTemperatureWater K, u_getSetMaxTemperatureWater K,
      u_getSetMinTemperatureWater K, u_getSmokeTemperature K, u_getPowerLevel K,
      u_getSetPowerLevel K, u_getSetMaxPowerLevel K, u_getSetMinPowerLevel K,
      u_getSpeedFanSmoke K, u_getSpeedFan1 K, u_getSetSpeedFan1 K, u_getSetMaxSpeedFan1 K,
      u_getSpeedFan2 K, u_getSetSpeedFan2 K, u_getSetMaxSpeedFan2 K, u_getSpeedFan3 K,
      u_getSetSpeedFan3 K, u_getSetMaxSpeedFan3 K, u_getManufacturer K, getManufacturer K,
      getName K, getMode K]"

definition data2Strings :: "constants \<Rightarrow> ('a client_base_scheme \<Rightarrow> exn + jsval) list" where
  "data2Strings K =
     [u_getTemperatureRoom3 K, u_getSetTemperatureRoom3 K, u_getSetMaxTemperatureRoom3 K,
      u_getSetMinTemperatureRoom3 K, u_getFlowSwitch K, u_getGenericPump K, u_getAirEx1 K,
      u_getAirEx2 K, u_getAirEx3 K, u_getPuffer K, u_getSetPuffer K, u_getSetMinPuffer K,
      u_getSetMaxPuffer K, u_getBoiler K, u_getSetBoiler K, u_getSetMinBoiler K,
      u_getSetMaxBoiler K, u_getDhw K, u_getSetDhw K, u_getSetMinDhw K, u_getSetMaxDhw K]"

definition dataFloats :: "(jsval \<Rightarrow> 'n) \<Rightarrow> constants \<Rightarrow> ('a client_base_scheme \<Rightarrow> exn + 'n option) list" where
  "dataFloats parseFloat K =
     [getSmokeTemperature parseFloat K, getWaterTemperature parseFloat K,
      getSetWaterTemperature parseFloat K, getSetMinWaterTemperature parseFloat K,
      getSetMaxWaterTemperature parseFloat K, getSpeedFanSmoke parseFloat K,
      getTemperatureRoom1 parseFloat K, getSetTemperatureRoom1 parseFloat K,
      getSetMinTemperatureRoom1 parseFloat K, getSetMaxTemperatureRoom1 parseFloat K,
      getTemperatureRoom2 parseFloat K, getSetTemperatureRoom2 parseFloat K,
      getSetMinTemperatureRoom2 parseFloat K, getSetMaxTemperatureRoom2 parseFloat K,
      getSpeedFan2 parseFloat K, getSetSpeedFan2 parseFloat K, getSetMaxSpeedFan2 parseFloat K,
      getSpeedFan3 parseFloat K, getSetSpeedFan3 parseFloat K, getSetMaxSpeedFan3 parseFloat K,
      getPowerLevel parseFloat K, getSetPowerLevel parseFloat K,
      getSetMinPowerLevel parseFloat K, getSetMaxPowerLevel parseFloat K]"

definition data2Floats :: "(jsval \<Rightarrow> 'n) \<Rightarrow> constants \<Rightarrow> ('a client_base_scheme \<Rightarrow> exn + 'n option) list" where
  "data2Floats parseFloat K =
     [getTemperatureRoom3 parseFloat K, getSetTemperatureRoom3 parseFloat K,
      getSetMinTemperatureRoom3 parseFloat K, getSetMaxTemperatureRoom3 parseFloat K,
      getAirEx1 parseFloat K, getAirEx2 parseFloat K, getAirEx3 parseFloat K]"

definition dataInts :: "constants \<Rightarrow> ('a client_base_scheme \<Rightarrow> exn + jsnum option) list" where
  "dataInts K =
     [getSpeedFan1 K, getSetSpeedFan1 K, getSetMaxSpeedFan1 K]"

definition dataBooleans :: "constants \<Rightarrow> ('a client_base_scheme \<Rightarrow> exn + bool) list" where
  "dataBooleans K = [getIsOn K, getEcoMode K, getChronoMode K]"

text \<open>The boolean feature queries, by the index of the bit array they read (0, 1, 3 to 15).\<close>

definition featureFlags :: "constants \<Rightarrow> ('a client_base_scheme \<Rightarrow> exn + bool) list" where
  "featureFlags K =
     [isTempRoom1Enabled K, isTempWaterEnabled K, isDhwEnabled K, isBoilerTempEnabled K,
      isDomesticHotWaterEnabled K, isBoilerEnabled K, isTempRoom2Enabled K,
      isTempRoom3Enabled K, isPufferEnabled K, isFlowSwitchEnabled K, isPumpEnabled K,
      isAirEx1Enabled K, isAirEx2Enabled K, isAirEx3Enabled K, isGenericPumpEnabled K]"

definition featureIndices :: "nat list" where
  "featureIndices = [0, 1, 3, 4, 5, 6, 7, 8, 9, 10, 11, 12, 13, 14, 15]"

text \<open>
  A table of constants for worked examples: the positions are those the example script
  prints for the stove type and the stove state, the state codes number the labels of the
  \<open>switch\<close> from 0.
\<close>

definition sample_constants :: constants where
  "sample_constants =
     \<lparr>StoveRegisters =
        (\<lambda>name. if name = ''INDEX_STOVE_TYPE'' then 4
                else if name = ''INDEX_STOVE_STATE'' then 5
                else if name = ''INDEX_STOVE_ON'' then 6 else 0),
      StoveState =
        (\<lambda>label. case map_of (zip (map fst stoveStateCases) [0 ..< 21]) label of
                   Some k \<Rightarrow> int k | None \<Rightarrow> - 1),
      StoveManufacturer = (\<lambda>name. 9)\<rparr>"

lemmas accessor_defs = u_getFirmwareVersion_def u_getWifiSignal_def u_getPageIndex_def
  u_getManufacturer_def u_getIsBitmapVisible_def u_getIsValid_def u_getStoveType_def
  u_getStoveState_def u_getStoveIsOn_def u_getEcoMode_def u_getChronoMode_def
  u_getTemperatureRoom1_def u_getSetTemperatureRoom1_def u_getSetMaxTemperatureRoom1_def
  u_getSetMinTemperatureRoom1_def u_getTemperatureRoom2_def u_getSetTemperatureRoom2_def
  u_getSetMaxTemperatureRoom2_def u_getSetMinTemperatureRoom2_def u_getTemperatureRoom3_def
  u_getSetTemperatureRoom3_def u_getSetMaxTemperatureRoom3_def u_getSetMinTemperatureRoom3_def
  u_getTemperatureWater_def u_getSetTemperatureWater_def u_getSetMaxTemperatureWater_def
  u_getSetMinTemperatureWater_def u_getSmokeTemperature_def u_getPowerLevel_def
  u_getSetPowerLevel_def u_getSetMaxPowerLevel_def u_getSetMinPowerLevel_def
  u_getSpeedFanSmoke_def u_getSpeedFan1_def u_getSetSpeedFan1_def u_getSetMaxSpeedFan1_def
  u_getSpeedFan2_def u_getSetSpeedFan2_def u_getSetMaxSpeedFan2_def u_getSpeedFan3_def
  u_getSetSpeedFan3_def u_getSetMaxSpeedFan3_def u_getFlowSwitch_def u_getGenericPump_def
  u_getAirEx1_def u_getAirEx2_def u_getAirEx3_def u_getPuffer_def u_getSetPuffer_def
  u_getSetMinPuffer_def u_getSetMaxPuffer_def u_getBoiler_def u_getSetBoiler_def
  u_getSetMinBoiler_def u_getSetMaxBoiler_def u_getDhw_def u_getSetDhw_def u_getSetMinDhw_def
  u_getSetMaxDhw_def getSmokeTemperature_def getWaterTemperature_def getSetWaterTemperature_def
  getSetMinWaterTemperature_def getSetMaxWaterTemperature_def getSpeedFanSmoke_def
  getTemperatureRoom1_def getSetTemperatureRoom1_def getSetMinTemperatureRoom1_def
  getSetMaxTemperatureRoom1_def getTemperatureRoom2_def getSetTemperatureRoom2_def
  getSetMinTemperatureRoom2_def getSetMaxTemperatureRoom2_def getTemperatureRoom3_def
  getSetTemperatureRoom3_def getSetMinTemperatureRoom3_def getSetMaxTemperatureRoom3_def
  getSpeedFan1_def getSetSpeedFan1_def getSetMaxSpeedFan1_def getSpeedFan2_def
  getSetSpeedFan2_def getSetMaxSpeedFan2_def getSpeedFan3_def getSetSpeedFan3_def
  getSetMaxSpeedFan3_def getPowerLevel_def getSetPowerLevel_def getSetMinPowerLevel_def
  getSetMaxPowerLevel_def getAirEx1_def getAirEx2_def getAirEx3_def getAction_def getIsOn_def
  getEcoMode_def getChronoMode_def getMode_def getName_def getFirmware_def getWifi_def
  getManufacturer_def getWaterPump_def u_getStoveTypeBitArray_def isBoilerEnabled_def
  isDomesticHotWaterEnabled_def getFanNumber_def isTempRoom1Enabled_def isTempRoom2Enabled_def
  isTempRoom3Enabled_def isTempWaterEnabled_def isPumpEnabled_def isFlowSwitchEnabled_def
  isPufferEnabled_def isBoilerTempEnabled_def isDhwEnabled_def isAirEx1Enabled_def
  isAirEx2Enabled_def isAirEx3Enabled_def isGenericPumpEnabled_def

section \<open>The polling cycle\<close>

text \<open>The requests written to the socket, in order.\<close>

fun writes :: "action list \<Rightarrow> int list list" where
  "writes [] = []"
| "writes (SockWrite b # tr) = b # writes tr"
| "writes (a # tr) = writes tr"

text \<open>The connection attempts and socket writes of a trace.\<close>

fun attempts :: "action list \<Rightarrow> action list" where
  "attempts [] = []"
| "attempts (SockConnect # tr) = SockConnect # attempts tr"
| "attempts (SockWrite b # tr) = SockWrite b # attempts tr"
| "attempts (a # tr) = attempts tr"

text \<open>The parameter lists submitted by \<open>sendCommand\<close> calls among some events.\<close>

fun pushed :: "event list \<Rightarrow> string list list" where
  "pushed [] = []"
| "pushed (CallSendCommand p # es) = p # pushed es"
| "pushed (e # es) = pushed es"


text \<open>The inputs other than a call of \<open>start\<close>.\<close>

fun is_Start :: "input \<Rightarrow> bool" where
  "is_Start (Start outcome evs) = True"
| "is_Start i = False"

text \<open>The occurrences other than a call of \<open>start\<close>.\<close>

fun is_DoStart :: "occurrence \<Rightarrow> bool" where
  "is_DoStart (DoStart outcome) = True"
| "is_DoStart occ = False"


section \<open>Properties of the request builder\<close>

lemma funpow8: "(f ^^ 8) x = f (f (f (f (f (f (f (f x)))))))"
  by (simp add: numeral_nat)

lemmas crc_eval = crc16ccitt_def crc16_byte_def crc16_shift_def funpow8 utf8_def utf8_char_def

lemma crc16ccitt_check_value: "crc16ccitt (utf8 ''123456789'') = 0x29B1"
  by (simp add: crc_eval)

lemma crc16ccitt_sample_body: "crc16ccitt (utf8 ''00000C---0002DATR0;'') = 0xB6FC"
  by (simp add: crc_eval)

lemma hex_1digit: "n < 16 \<Longrightarrow> toStringHexUpper n = [hexDigit n]"
  by (subst toStringHexUpper.simps) simp

lemma hex_2digit:
  "16 \<le> n \<Longrightarrow> n < 256 \<Longrightarrow> toStringHexUpper n = [hexDigit (n div 16), hexDigit (n mod 16)]"
  by (subst toStringHexUpper.simps) (simp add: hex_1digit)

lemma hex_3digit:
  assumes "256 \<le> n" "n < 4096"
  shows "toStringHexUpper n =
     [hexDigit (n div 256), hexDigit (n div 16 mod 16), hexDigit (n mod 16)]"
proof -
  have a: "n div 16 div 16 = n div 256" by (simp add: div_mult2_eq [symmetric])
  have b: "16 \<le> n div 16" "n div 16 < 256" using assms by simp_all
  show ?thesis
    using assms by (subst toStringHexUpper.simps) (simp add: hex_2digit [OF b] a)
qed

lemma hex_4digit:
  assumes "4096 \<le> n" "n < 65536"
  shows "toStringHexUpper n =
     [hexDigit (n div 4096), hexDigit (n div 256 mod 16), hexDigit (n div 16 mod 16),
      hexDigit (n mod 16)]"
proof -
  have a: "n div 16 div 256 = n div 4096" "n div 16 div 16 = n div 256"
    by (simp_all add: div_mult2_eq [symmetric])
  have b: "256 \<le> n div 16" "n div 16 < 4096" using assms by simp_all
  show ?thesis
    using assms by (subst toStringHexUpper.simps) (simp add: hex_3digit [OF b] a)
qed

lemma hexDigit_0: "hexDigit 0 = CHR ''0''"
  by (simp add: hexDigit_def)

lemma replicate_small:
  "replicate 3 c = [c, c, c]" "replicate 2 c = [c, c]"
  by (simp_all add: numeral_3_eq_3 numeral_2_eq_2)

lemma padStart_hex4:
  assumes "n < 65536"
  shows "padStart 4 CHR ''0'' (toStringHexUpper n) = spec_hex4 n"
proof -
  consider "n < 16" | "16 \<le> n" "n < 256" | "256 \<le> n" "n < 4096" | "4096 \<le> n"
    by linarith
  then show ?thesis
  proof cases
    case 1
    then have "n div 4096 = 0" "n div 256 = 0" "n div 16 = 0" "n mod 16 = n" by simp_all
    with 1 show ?thesis
      by (simp add: hex_1digit padStart_def spec_hex4_def hexDigit_0 replicate_small)
  next
    case 2
    then have "n div 4096 = 0" "n div 256 = 0" "n div 16 mod 16 = n div 16" by simp_all
    with 2 show ?thesis
      by (simp add: hex_2digit padStart_def spec_hex4_def hexDigit_0 replicate_small)
  next
    case 3
    then have "n div 4096 = 0" "n div 256 mod 16 = n div 256" by simp_all
    with 3 show ?thesis
      by (simp add: hex_3digit padStart_def spec_hex4_def hexDigit_0)
  next
    case 4
    with assms have "n div 4096 mod 16 = n div 4096" by simp
    with 4 assms show ?thesis
      by (simp add: hex_4digit padStart_def spec_hex4_def)
  qed
qed

lemma crc16_shift_bound: "0 \<le> crc16_shift c \<and> crc16_shift c < 65536"
  by (simp add: crc16_shift_def XOR_upper [of _ 16, simplified])

lemma crc16_byte_bound: "0 \<le> crc16_byte c b \<and> crc16_byte c b < 65536"
  unfolding crc16_byte_def funpow8 by (rule crc16_shift_bound)

lemma crc16ccitt_bound: "0 \<le> crc16ccitt bs \<and> crc16ccitt bs < 65536"
  unfolding crc16ccitt_def
  by (induction bs rule: rev_induct) (simp_all add: crc16_byte_bound)

lemma u_getCrc_hex4: "u_getCrc message = spec_hex4 (nat (crc16ccitt (utf8 message)))"
proof -
  have "nat (crc16ccitt (utf8 message)) < 65536"
    using crc16ccitt_bound [of "utf8 message"] by linarith
  then show ?thesis
    by (simp add: u_getCrc_def padStart_hex4)
qed

text \<open>
  C1 (amended). For every command, mode and parameter list whose joined text is shorter than
  65536 characters, the request is exactly \<open>#\<close>, \<open>00000\<close>, \<open>C---\<close>, the length of
  the joined text as four uppercase hexadecimal digits, the command, the mode, the parameters
  joined with \<open>;\<close> plus a trailing \<open>;\<close>, the CRC-16/CCITT-FALSE of the UTF-8 bytes of
  everything from \<open>00000\<close> through the joined text as four uppercase hexadecimal digits,
  and a newline.
\<close>

theorem u_buildRawPacket_frame:
  assumes "length (u_getParameters P) < 65536"
  shows "u_buildRawPacket command mode P = spec_frame command mode P"
  using assms
  by (simp add: u_buildRawPacket_def u_getRawData_def u_getCrc_hex4 padStart_hex4 spec_frame_def
      spec_body_def spec_joined_def u_getParameters_def Let_def)

theorem u_buildRawPacket_frame_witness:
  "length (u_getParameters [''0'']) < 65536
   \<and> u_buildRawPacket ''DAT'' ''R'' [''0''] = ''#00000C---0002DATR0;B6FC'' @ [CHR 0x0A]"
proof -
  have h: "length (u_getParameters [''0'']) < 65536"
    by (simp add: u_getParameters_def)
  have body: "spec_body ''DAT'' ''R'' [''0''] = ''00000C---0002DATR0;''"
    by (simp add: spec_body_def spec_joined_def spec_hex4_def hexDigit_def)
  have "spec_frame ''DAT'' ''R'' [''0''] = ''#00000C---0002DATR0;B6FC'' @ [CHR 0x0A]"
    unfolding spec_frame_def body crc16ccitt_sample_body
    by (simp add: spec_hex4_def hexDigit_def)
  with h u_buildRawPacket_frame [OF h, of "''DAT''" "''R''"] show ?thesis
    by simp
qed

text \<open>A number of \<open>16 ^ k\<close> or more has more than \<open>k\<close> hexadecimal digits.\<close>

lemma hex_digits:
  "16 ^ k \<le> n \<Longrightarrow> k < length (toStringHexUpper n)"
proof (induction k arbitrary: n)
  case 0
  show ?case
    by (subst toStringHexUpper.simps) simp
next
  case (Suc k)
  from Suc.prems have le: "16 * 16 ^ k \<le> n"
    by simp
  have "(16::nat) * 1 \<le> 16 * 16 ^ k"
    by (rule mult_le_mono2) simp
  with le have big: "\<not> n < 16"
    by linarith
  from le have "16 ^ k \<le> n div 16"
    by (simp add: less_eq_div_iff_mult_less_eq mult.commute)
  from Suc.IH [OF this] big show ?case
    by (subst toStringHexUpper.simps) simp
qed

text \<open>
  For a joined parameter text of 65536 characters or more, the length field has at least
  five digits.
\<close>

lemma length_field_long:
  assumes "65536 \<le> length (u_getParameters parameters)"
  shows "5 \<le> length (padStart 4 CHR ''0'' (toStringHexUpper (length (u_getParameters parameters))))"
proof -
  have "(16::nat) ^ 4 \<le> length (u_getParameters parameters)"
    using assms by simp
  from hex_digits [OF this] show ?thesis
    by (simp add: padStart_def)
qed

lemma hex_65536: "toStringHexUpper 65536 = ''10000''"
  by (simp add: toStringHexUpper.simps [of 65536] toStringHexUpper.simps [of 4096]
      toStringHexUpper.simps [of 256]  toStringHexUpper.simps [of 16]
      toStringHexUpper.simps [of "Suc 0"] hexDigit_def)

lemma u_buildRawPacket_long:
  "u_buildRawPacket ''DAT'' ''W'' [replicate 65535 CHR ''0''] ! 10 = CHR ''1''
   \<and> spec_frame ''DAT'' ''W'' [replicate 65535 CHR ''0''] ! 10 = CHR ''0''"
  by (simp add: u_buildRawPacket_def u_getRawData_def u_getParameters_def padStart_def hex_65536
      spec_frame_def spec_body_def spec_joined_def spec_hex4_def hexDigit_def Let_def)

text \<open>
  C1 as stated fails for a parameter of 65535 characters: the joined text has 65536
  characters, \<open>padStart\<close> does not truncate, and the length field is the five digits
  \<open>10000\<close>, so the frame is not the one with a four-digit length.
\<close>

theorem u_buildRawPacket_frame_counterexample:
  "u_buildRawPacket ''DAT'' ''W'' [replicate 65535 CHR ''0'']
     \<noteq> spec_frame ''DAT'' ''W'' [replicate 65535 CHR ''0'']"
proof
  assume "u_buildRawPacket ''DAT'' ''W'' [replicate 65535 CHR ''0'']
     = spec_frame ''DAT'' ''W'' [replicate 65535 CHR ''0'']"
  then have "u_buildRawPacket ''DAT'' ''W'' [replicate 65535 CHR ''0''] ! 10
     = spec_frame ''DAT'' ''W'' [replicate 65535 CHR ''0''] ! 10"
    by simp
  moreover have "u_buildRawPacket ''DAT'' ''W'' [replicate 65535 CHR ''0''] ! 10 = CHR ''1''"
    and "spec_frame ''DAT'' ''W'' [replicate 65535 CHR ''0''] ! 10 = CHR ''0''"
    using u_buildRawPacket_long by simp_all
  ultimately show False
    by simp
qed

subsection \<open>Joining and splitting\<close>

lemma split_append_sep:
  "sep \<notin> set s \<Longrightarrow> split sep (s @ sep # t) = s # split sep t"
  by (induction s) auto

lemma split_join_trailing:
  assumes "P \<noteq> []" "\<forall>p \<in> set P. sep \<notin> set p"
  shows "split sep (join [sep] P @ [sep]) = P @ [[]]"
  using assms
proof (induction "[sep]" P rule: join.induct)
  case 1
  then show ?case by simp
next
  case (2 x)
  then show ?case by (simp add: split_append_sep)
next
  case (3 x y ys)
  then show ?case by (simp add: split_append_sep)
qed

text \<open>
  C7 (amended). For every non-empty parameter list whose elements contain no \<open>;\<close>,
  splitting the joined-parameters text of the request on \<open>;\<close>, as the response decoder
  does, yields the parameters followed by one empty string.
\<close>

theorem u_extractData_getParameters:
  assumes "P \<noteq> []" "\<forall>p \<in> set P. CHR '';'' \<notin> set p"
  shows "u_extractData (u_getParameters P) = P @ ['''']"
  using split_join_trailing [OF assms] by (simp add: u_extractData_def u_getParameters_def)

theorem u_extractData_getParameters_witness:
  "u_extractData (u_getParameters [''4'', ''215'']) = [''4'', ''215'', '''']"
  using u_extractData_getParameters [of "[''4'', ''215'']"] by simp

text \<open>
  C7 as stated fails on the default parameter list: the trailing \<open>;\<close> of the joined text
  leaves an empty last field.
\<close>

theorem u_extractData_getParameters_counterexample:
  "u_extractData (u_getParameters [''0'']) \<noteq> [''0'']"
  by (simp add: u_extractData_def u_getParameters_def)

lemma u_extractData_getParameters_empty: "u_extractData (u_getParameters []) = ['''', '''']"
  by (simp add: u_extractData_def u_getParameters_def)


section \<open>The response accumulator\<close>

lemma split_not_Nil: "split sep s \<noteq> []"
  by (induction s) auto

lemma hd_split: "hd (split sep s) = takeWhile (\<lambda>x. x \<noteq> sep) s"
  by (induction s) auto

lemma onData_incomplete:
  "CHR 0x0A \<notin> set (responseBuffer c @ chunk) \<Longrightarrow>
   onData chunk c = (None, c\<lparr>responseBuffer := responseBuffer c @ chunk\<rparr>)"
  by (simp add: onData_def)

lemma onData_complete:
  "CHR 0x0A \<in> set (responseBuffer c @ chunk) \<Longrightarrow>
   onData chunk c =
     (Some (u_extractData (takeWhile (\<lambda>x. x \<noteq> CHR 0x0A) (responseBuffer c @ chunk))),
      c\<lparr>responseBuffer := []\<rparr>)"
  by (simp add: onData_def hd_split)

lemma await_response_line:
  assumes "\<forall>ch \<in> set cs. CHR 0x0A \<notin> set ch"
    and "CHR 0x0A \<notin> set (responseBuffer c)"
    and "CHR 0x0A \<in> set ch"
  shows "await_response (map Data cs @ Data ch # rest) c =
     (Inr (split CHR '';'' (takeWhile (\<lambda>x. x \<noteq> CHR 0x0A) (responseBuffer c @ concat cs @ ch))),
      rest, c\<lparr>responseBuffer := []\<rparr>)"
  using assms
proof (induction cs arbitrary: c)
  case Nil
  then show ?case
    by (simp add: onData_complete u_extractData_def)
next
  case (Cons x cs)
  have nl: "CHR 0x0A \<notin> set (responseBuffer c @ x)"
    using Cons.prems by simp
  have "await_response (map Data (x # cs) @ Data ch # rest) c =
        await_response (map Data cs @ Data ch # rest) (c\<lparr>responseBuffer := responseBuffer c @ x\<rparr>)"
    by (simp add: onData_incomplete [OF nl])
  also have "\<dots> =
     (Inr (split CHR '';'' (takeWhile (\<lambda>x. x \<noteq> CHR 0x0A)
        (responseBuffer (c\<lparr>responseBuffer := responseBuffer c @ x\<rparr>) @ concat cs @ ch))),
      rest, c\<lparr>responseBuffer := responseBuffer c @ x\<rparr>\<lparr>responseBuffer := []\<rparr>)"
    using Cons.prems nl by (intro Cons.IH) simp_all
  finally show ?case
    by simp
qed

text \<open>
  C5 (amended). For every sequence of chunks received during an exchange, once a chunk
  completes a line the exchange yields that first complete line (everything buffered up to
  the first newline) split on \<open>;\<close>, and the internal buffer is reset to empty: whatever
  followed the newline in that chunk is discarded, not kept for the next call.
\<close>

theorem u_sendRequestAndWaitForResponse_first_line:
  assumes "\<forall>ch \<in> set cs. CHR 0x0A \<notin> set ch"
    and "CHR 0x0A \<notin> set (responseBuffer c)"
    and "CHR 0x0A \<in> set ch"
  shows "u_sendRequestAndWaitForResponse request (map Data cs @ Data ch # rest) c =
     (Inr (split CHR '';'' (takeWhile (\<lambda>x. x \<noteq> CHR 0x0A) (responseBuffer c @ concat cs @ ch))),
      rest,
      c\<lparr>responseBuffer := [], trace := trace c @ [SockWrite request, ResponseTimer 60000]\<rparr>)"
  unfolding u_sendRequestAndWaitForResponse_def
  using assms by (subst await_response_line) simp_all

theorem u_sendRequestAndWaitForResponse_first_line_witness:
  "u_sendRequestAndWaitForResponse [35] [Data ''1;2'', Data ('';3'' @ [CHR 0x0A] @ ''4;5'')] new_client =
     (Inr [''1'', ''2'', ''3''], [],
      new_client\<lparr>responseBuffer := [], trace := [SockWrite [35], ResponseTimer 60000]\<rparr>)"
  using u_sendRequestAndWaitForResponse_first_line
    [of "[''1;2'']" new_client "'';3'' @ [CHR 0x0A] @ ''4;5''" "[35]" "[]"]
  by (simp add: new_client_def)

text \<open>
  C5 as stated fails when two responses arrive in one chunk: the first is yielded and the
  buffer is empty afterwards, so the second is lost and the next exchange starts from
  nothing.
\<close>

theorem onData_remainder_counterexample:
  "onData (''a;b'' @ [CHR 0x0A] @ ''c;d'' @ [CHR 0x0A]) new_client = (Some [''a'', ''b''], new_client)
   \<and> responseBuffer new_client \<noteq> ''c;d'' @ [CHR 0x0A]
   \<and> await_response [] new_client = (Inl SocketTimeout, [], new_client)"
  by (simp add: onData_def new_client_def u_extractData_def)

lemma await_response_buffer:
  "CHR 0x0A \<notin> set (responseBuffer c) \<Longrightarrow>
   CHR 0x0A \<notin> set (responseBuffer (snd (snd (await_response evs c))))"
proof (induction evs c rule: await_response.induct)
  case (2 chunk es c)
  then show ?case
    by (cases "CHR 0x0A \<in> set (responseBuffer c @ chunk)")
       (simp_all add: onData_complete onData_incomplete)
qed (simp_all add: sendCommand_def stop_def uu_disconnect_def Let_def)


section \<open>Properties of the polling cycle\<close>

lemma writes_append: "writes (xs @ ys) = writes xs @ writes ys"
  by (induction xs rule: writes.induct) auto

lemma attempts_append: "attempts (xs @ ys) = attempts xs @ attempts ys"
  by (induction xs rule: attempts.induct) auto

lemma pushed_append: "pushed (xs @ ys) = pushed xs @ pushed ys"
  by (induction xs rule: pushed.induct) auto

lemma onData_cases:
  obtains r where "onData chunk c = (Some r, c\<lparr>responseBuffer := []\<rparr>)"
  | "onData chunk c = (None, c\<lparr>responseBuffer := responseBuffer c @ chunk\<rparr>)"
proof (cases "CHR 0x0A \<in> set (responseBuffer c @ chunk)")
  case True
  then have "onData chunk c =
      (Some (u_extractData (hd (split CHR 0x0A (responseBuffer c @ chunk)))),
       c\<lparr>responseBuffer := []\<rparr>)"
    by (simp add: onData_def)
  then show ?thesis by (rule that(1))
next
  case False
  then have "onData chunk c = (None, c\<lparr>responseBuffer := responseBuffer c @ chunk\<rparr>)"
    by (simp add: onData_def)
  then show ?thesis by (rule that(2))
qed

text \<open>An exchange's wait leaves the three snapshots alone.\<close>

lemma await_response_slots:
  "await_response evs c = (res, evs', c') \<Longrightarrow>
   info c' = info c \<and> data c' = data c \<and> data2 c' = data2 c"
proof (induction evs c rule: await_response.induct)
  case (2 chunk es c)
  then show ?case
    by (cases chunk c rule: onData_cases) auto
qed (auto simp: sendCommand_def stop_def uu_disconnect_def Let_def)

text \<open>It writes nothing and starts no connection: the trace grows by \<open>SockEnd\<close> only.\<close>

lemma await_response_trace:
  "await_response evs c = (res, evs', c') \<Longrightarrow>
   writes (trace c') = writes (trace c) \<and> attempts (trace c') = attempts (trace c)"
proof (induction evs c rule: await_response.induct)
  case (2 chunk es c)
  then show ?case
    by (cases chunk c rule: onData_cases) auto
qed (auto simp: sendCommand_def stop_def uu_disconnect_def Let_def writes_append attempts_append)

text \<open>It consumes a prefix of the events; the queue grows by what was submitted meanwhile.\<close>

lemma await_response_queue:
  "await_response evs c = (res, evs', c') \<Longrightarrow>
   \<exists>used. evs = used @ evs' \<and> writeParameters c' = writeParameters c @ pushed used"
proof (induction evs c arbitrary: res evs' c' rule: await_response.induct)
  case (1 c)
  then show ?case by auto
next
  case (2 chunk es c)
  show ?case
  proof (cases chunk c rule: onData_cases)
    case (1 r)
    with 2 have "Data chunk # es = [Data chunk] @ evs'"
      and "writeParameters c' = writeParameters c @ pushed [Data chunk]"
      by auto
    then show ?thesis by blast
  next
    case 2
    with "2.prems" have "await_response es (c\<lparr>responseBuffer := responseBuffer c @ chunk\<rparr>) = (res, evs', c')"
      by simp
    from "2.IH" [OF 2 [symmetric] refl this]
    obtain used where "es = used @ evs'" "writeParameters c' = writeParameters c @ pushed used"
      by auto
    then have "Data chunk # es = (Data chunk # used) @ evs'"
      and "writeParameters c' = writeParameters c @ pushed (Data chunk # used)"
      by auto
    then show ?thesis by blast
  qed
next
  case (3 es c)
  then have "SocketError # es = [SocketError] @ evs'"
    and "writeParameters c' = writeParameters c @ pushed [SocketError]"
    by auto
  then show ?case by blast
next
  case (4 es c)
  from "4.IH" [OF "4.prems" [simplified]]
  obtain used where "es = used @ evs'" "writeParameters c' = writeParameters c @ pushed used"
    by auto
  then have "SocketClose # es = (SocketClose # used) @ evs'"
    and "writeParameters c' = writeParameters c @ pushed (SocketClose # used)"
    by auto
  then show ?case by blast
next
  case (5 es c)
  then have "Timeout # es = [Timeout] @ evs'"
    and "writeParameters c' = writeParameters c @ pushed [Timeout]"
    by auto
  then show ?case by blast
next
  case (6 p es c)
  from "6.IH" [OF "6.prems" [simplified]]
  obtain used where "es = used @ evs'"
    "writeParameters c' = writeParameters (sendCommand p c) @ pushed used"
    by auto
  then have "CallSendCommand p # es = (CallSendCommand p # used) @ evs'"
    and "writeParameters c' = writeParameters c @ pushed (CallSendCommand p # used)"
    by (auto simp: sendCommand_def)
  then show ?case by blast
next
  case (7 es c)
  from "7.IH" [OF "7.prems" [simplified]]
  obtain used where "es = used @ evs'"
    "writeParameters c' = writeParameters (stop c) @ pushed used"
    by auto
  then have "CallStop # es = (CallStop # used) @ evs'"
    and "writeParameters c' = writeParameters c @ pushed (CallStop # used)"
    by (auto simp: stop_def uu_disconnect_def Let_def)
  then show ?case by blast
qed

text \<open>Once \<open>stop\<close> has been called the flag stays set through the wait.\<close>

lemma await_response_endRequest:
  "await_response evs c = (res, evs', c') \<Longrightarrow> endRequest c \<Longrightarrow> endRequest c'"
proof (induction evs c rule: await_response.induct)
  case (2 chunk es c)
  then show ?case
    by (cases chunk c rule: onData_cases) auto
qed (auto simp: sendCommand_def stop_def uu_disconnect_def Let_def)

text \<open>One exchange: the request is written once, then the wait.\<close>

lemma exchange_slots:
  "u_sendRequestAndWaitForResponse request evs c = (res, evs', c') \<Longrightarrow>
   info c' = info c \<and> data c' = data c \<and> data2 c' = data2 c"
  unfolding u_sendRequestAndWaitForResponse_def
  by (drule await_response_slots) simp

lemma exchange_writes:
  "u_sendRequestAndWaitForResponse request evs c = (res, evs', c') \<Longrightarrow>
   writes (trace c') = writes (trace c) @ [request]"
  unfolding u_sendRequestAndWaitForResponse_def
  by (drule await_response_trace) (simp add: writes_append)

lemma exchange_queue:
  "u_sendRequestAndWaitForResponse request evs c = (res, evs', c') \<Longrightarrow>
   \<exists>used. evs = used @ evs' \<and> writeParameters c' = writeParameters c @ pushed used"
  unfolding u_sendRequestAndWaitForResponse_def
  by (drule await_response_queue) simp

lemma exchange_endRequest:
  "u_sendRequestAndWaitForResponse request evs c = (res, evs', c') \<Longrightarrow>
   endRequest c \<Longrightarrow> endRequest c'"
  unfolding u_sendRequestAndWaitForResponse_def
  by (drule await_response_endRequest) simp_all

text \<open>
  One cycle on its own drains the queue in submission order, one write exchange (command
  \<open>DAT\<close>, mode \<open>W\<close>) per entry. With \<open>q\<close> the entries queued at the start followed by
  those submitted while the loop runs: the requests written are those of the first entries
  of \<open>q\<close>, in order and once each; the \<open>k\<close> entries whose exchange completed are the ones
  removed; when an exchange fails, its entry was attempted once and it and everything
  behind it stay queued; when the loop ends without a failure, the queue is empty or
  \<open>stop\<close> has been called.
\<close>

lemma drain_fifo:
  assumes "drain evs c = (res, evs', c')"
  shows "\<exists>k used. evs = used @ evs'
      \<and> k \<le> length (writeParameters c @ pushed used)
      \<and> writeParameters c' = drop k (writeParameters c @ pushed used)
      \<and> writes (trace c') = writes (trace c)
            @ map (getRequest ''DAT'' ''W'')
                (take (if isl res then Suc k else k) (writeParameters c @ pushed used))
      \<and> (isl res \<longrightarrow> k < length (writeParameters c @ pushed used))
      \<and> (\<not> isl res \<longrightarrow> writeParameters c' = [] \<or> endRequest c')"
  using assms
proof (induction evs c arbitrary: res evs' c' rule: drain.induct)
  case (1 evs c)
  show ?case
  proof (cases "writeParameters c \<noteq> [] \<and> \<not> endRequest c")
    case False
    with "1.prems" have "res = Inr ()" "evs' = evs" "c' = c"
      by (simp_all add: drain.simps [of evs c])
    then have "evs = [] @ evs'
      \<and> 0 \<le> length (writeParameters c @ pushed [])
      \<and> writeParameters c' = drop 0 (writeParameters c @ pushed [])
      \<and> writes (trace c') = writes (trace c)
            @ map (getRequest ''DAT'' ''W'')
                (take (if isl res then Suc 0 else 0) (writeParameters c @ pushed []))
      \<and> (isl res \<longrightarrow> 0 < length (writeParameters c @ pushed []))
      \<and> (\<not> isl res \<longrightarrow> writeParameters c' = [] \<or> endRequest c')"
      using False by simp
    then show ?thesis by blast
  next
    case True
    obtain r evs1 c1 where ex: "u_set_data (hd (writeParameters c)) evs c = (r, evs1, c1)"
      by (cases "u_set_data (hd (writeParameters c)) evs c") auto
    from ex obtain used1 where used1: "evs = used1 @ evs1"
      "writeParameters c1 = writeParameters c @ pushed used1"
      unfolding u_set_data_def by (auto dest: exchange_queue)
    from ex have w1: "writes (trace c1) =
        writes (trace c) @ [getRequest ''DAT'' ''W'' (hd (writeParameters c))]"
      unfolding u_set_data_def by (rule exchange_writes)
    from True obtain p ps where q: "writeParameters c = p # ps"
      by (cases "writeParameters c") auto
    show ?thesis
    proof (cases r)
      case (Inl e)
      with "1.prems" True ex have "res = Inl e" "evs' = evs1" "c' = c1"
        by (simp_all add: drain.simps [of evs c])
      with used1 w1 q have "evs = used1 @ evs'
        \<and> 0 \<le> length (writeParameters c @ pushed used1)
        \<and> writeParameters c' = drop 0 (writeParameters c @ pushed used1)
        \<and> writes (trace c') = writes (trace c)
              @ map (getRequest ''DAT'' ''W'')
                  (take (if isl res then Suc 0 else 0) (writeParameters c @ pushed used1))
        \<and> (isl res \<longrightarrow> 0 < length (writeParameters c @ pushed used1))
        \<and> (\<not> isl res \<longrightarrow> writeParameters c' = [] \<or> endRequest c')"
        by simp
      then show ?thesis by blast
    next
      case (Inr b)
      let ?c2 = "c1\<lparr>writeParameters := tl (writeParameters c1)\<rparr>"
      from "1.prems" True ex Inr have rec: "drain evs1 ?c2 = (res, evs', c')"
        by (simp add: drain.simps [of evs c])
      from "1.IH" [OF True ex [symmetric, unfolded Inr] refl refl rec]
      obtain k used2 where ih: "evs1 = used2 @ evs'"
        "k \<le> length (writeParameters ?c2 @ pushed used2)"
        "writeParameters c' = drop k (writeParameters ?c2 @ pushed used2)"
        "writes (trace c') = writes (trace ?c2)
            @ map (getRequest ''DAT'' ''W'')
                (take (if isl res then Suc k else k) (writeParameters ?c2 @ pushed used2))"
        "isl res \<longrightarrow> k < length (writeParameters ?c2 @ pushed used2)"
        "\<not> isl res \<longrightarrow> writeParameters c' = [] \<or> endRequest c'"
        by blast
      have q2: "writeParameters c @ pushed (used1 @ used2)
          = p # (writeParameters ?c2 @ pushed used2)"
        using used1 q by (simp add: pushed_append)
      have "evs = (used1 @ used2) @ evs'
        \<and> Suc k \<le> length (writeParameters c @ pushed (used1 @ used2))
        \<and> writeParameters c' = drop (Suc k) (writeParameters c @ pushed (used1 @ used2))
        \<and> writes (trace c') = writes (trace c)
              @ map (getRequest ''DAT'' ''W'')
                  (take (if isl res then Suc (Suc k) else Suc k)
                     (writeParameters c @ pushed (used1 @ used2)))
        \<and> (isl res \<longrightarrow> Suc k < length (writeParameters c @ pushed (used1 @ used2)))
        \<and> (\<not> isl res \<longrightarrow> writeParameters c' = [] \<or> endRequest c')"
        unfolding q2 using ih used1 w1 q by simp
      then show ?thesis by blast
    qed
  qed
qed

lemma u_get_data_slots:
  "u_get_data command ps evs c = (res, evs', c') \<Longrightarrow>
   info c' = info c \<and> data c' = data c \<and> data2 c' = data2 c"
  unfolding u_get_data_def by (rule exchange_slots)

lemma u_get_data_writes:
  "u_get_data command ps evs c = (res, evs', c') \<Longrightarrow>
   writes (trace c') = writes (trace c) @ [getRequest command ''R'' ps]"
  unfolding u_get_data_def by (rule exchange_writes)

lemma drain_slots:
  "drain evs c = (res, evs', c') \<Longrightarrow>
   info c' = info c \<and> data c' = data c \<and> data2 c' = data2 c"
proof (induction evs c arbitrary: res evs' c' rule: drain.induct)
  case (1 evs c)
  show ?case
  proof (cases "writeParameters c \<noteq> [] \<and> \<not> endRequest c")
    case False
    with "1.prems" show ?thesis
      by (simp add: drain.simps [of evs c])
  next
    case True
    obtain r evs1 c1 where ex: "u_set_data (hd (writeParameters c)) evs c = (r, evs1, c1)"
      by (cases "u_set_data (hd (writeParameters c)) evs c") auto
    then have s1: "info c1 = info c \<and> data c1 = data c \<and> data2 c1 = data2 c"
      unfolding u_set_data_def by (rule exchange_slots)
    show ?thesis
    proof (cases r)
      case (Inl e)
      with "1.prems" True ex s1 show ?thesis
        by (simp add: drain.simps [of evs c])
    next
      case (Inr b)
      with "1.prems" True ex
      have "drain evs1 (c1\<lparr>writeParameters := tl (writeParameters c1)\<rparr>) = (res, evs', c')"
        by (simp add: drain.simps [of evs c])
      from "1.IH" [OF True ex [symmetric, unfolded Inr] refl refl this] s1
      show ?thesis by simp
    qed
  qed
qed

text \<open>The loop writes requests of mode \<open>W\<close> only.\<close>

lemma drain_writes:
  "drain evs c = (res, evs', c') \<Longrightarrow>
   \<exists>ps. writes (trace c') = writes (trace c) @ map (getRequest ''DAT'' ''W'') ps"
proof (induction evs c arbitrary: res evs' c' rule: drain.induct)
  case (1 evs c)
  show ?case
  proof (cases "writeParameters c \<noteq> [] \<and> \<not> endRequest c")
    case False
    with "1.prems" have "writes (trace c') = writes (trace c) @ map (getRequest ''DAT'' ''W'') []"
      by (simp add: drain.simps [of evs c])
    then show ?thesis by blast
  next
    case True
    obtain r evs1 c1 where ex: "u_set_data (hd (writeParameters c)) evs c = (r, evs1, c1)"
      by (cases "u_set_data (hd (writeParameters c)) evs c") auto
    then have w1: "writes (trace c1) =
        writes (trace c) @ [getRequest ''DAT'' ''W'' (hd (writeParameters c))]"
      unfolding u_set_data_def by (rule exchange_writes)
    show ?thesis
    proof (cases r)
      case (Inl e)
      with "1.prems" True ex w1
      have "writes (trace c') =
          writes (trace c) @ map (getRequest ''DAT'' ''W'') [hd (writeParameters c)]"
        by (simp add: drain.simps [of evs c])
      then show ?thesis by blast
    next
      case (Inr b)
      with "1.prems" True ex
      have "drain evs1 (c1\<lparr>writeParameters := tl (writeParameters c1)\<rparr>) = (res, evs', c')"
        by (simp add: drain.simps [of evs c])
      from "1.IH" [OF True ex [symmetric, unfolded Inr] refl refl this]
      obtain ps where "writes (trace c') =
          writes (trace (c1\<lparr>writeParameters := tl (writeParameters c1)\<rparr>))
            @ map (getRequest ''DAT'' ''W'') ps"
        by blast
      with w1 have "writes (trace c') =
          writes (trace c) @ map (getRequest ''DAT'' ''W'') (hd (writeParameters c) # ps)"
        by simp
      then show ?thesis by blast
    qed
  qed
qed

text \<open>A cycle whose three fetches and queue drain succeed, with no \<open>stop\<close> meanwhile.\<close>

lemma uu_dial_completes:
  assumes "isConnected c" "\<not> endRequest c"
    and e1: "u_get_data ''INF'' [''''] evs c = (Inr r1, evs1, c1)"
    and e2: "u_get_data ''DAT'' [''0''] evs1 (c1\<lparr>info := Some r1\<rparr>) = (Inr r2, evs2, c2)"
    and e3: "u_get_data ''DAT'' [''2''] evs2 (c2\<lparr>data := Some r2\<rparr>) = (Inr r3, evs3, c3)"
    and d: "drain evs3 (c3\<lparr>data2 := Some r3\<rparr>) = (Inr u, evs4, c4)"
    and "\<not> endRequest c4"
  shows "(\<exists>ps. writes (trace (uu_dial evs c)) = writes (trace c)
            @ [getRequest ''INF'' ''R'' [''''], getRequest ''DAT'' ''R'' [''0''],
               getRequest ''DAT'' ''R'' [''2'']]
            @ map (getRequest ''DAT'' ''W'') ps)
     \<and> info c1 = info c \<and> data c2 = data c \<and> data2 c3 = data2 c
     \<and> info (uu_dial evs c) = Some r1
     \<and> data (uu_dial evs c) = Some r2
     \<and> data2 (uu_dial evs c) = Some r3
     \<and> loopTimeout (uu_dial evs c) = Some 1000"
proof -
  have result: "uu_dial evs c = c4\<lparr>writeRequest := False, loopTimeout := Some 1000\<rparr>"
    using assms by (simp add: uu_dial_def dial_try_def)
  note s1 = u_get_data_slots [OF e1] and s2 = u_get_data_slots [OF e2]
    and s3 = u_get_data_slots [OF e3] and s4 = drain_slots [OF d]
  note w1 = u_get_data_writes [OF e1] and w2 = u_get_data_writes [OF e2]
    and w3 = u_get_data_writes [OF e3]
  from drain_writes [OF d] obtain ps where
    "writes (trace c4) = writes (trace (c3\<lparr>data2 := Some r3\<rparr>)) @ map (getRequest ''DAT'' ''W'') ps"
    by blast
  with w1 w2 w3 have "writes (trace (uu_dial evs c)) = writes (trace c)
            @ [getRequest ''INF'' ''R'' [''''], getRequest ''DAT'' ''R'' [''0''],
               getRequest ''DAT'' ''R'' [''2'']]
            @ map (getRequest ''DAT'' ''W'') ps"
    by (simp add: result)
  then have "\<exists>ps. writes (trace (uu_dial evs c)) = writes (trace c)
            @ [getRequest ''INF'' ''R'' [''''], getRequest ''DAT'' ''R'' [''0''],
               getRequest ''DAT'' ''R'' [''2'']]
            @ map (getRequest ''DAT'' ''W'') ps"
    by blast
  moreover have "info c1 = info c" "data c2 = data c" "data2 c3 = data2 c"
    using s1 s2 s3 by simp_all
  moreover have "info (uu_dial evs c) = Some r1" "data (uu_dial evs c) = Some r2"
    "data2 (uu_dial evs c) = Some r3" "loopTimeout (uu_dial evs c) = Some 1000"
    using s2 s3 s4 by (simp_all add: result)
  ultimately show ?thesis
    by blast
qed

text \<open>The \<open>catch\<close> block: what \<open>__dial\<close> leaves when its \<open>try\<close> block throws.\<close>

lemma uu_dial_catch:
  assumes "isConnected c" "\<not> endRequest c" "dial_try evs c = (Inl e, evs', c')"
  shows "uu_dial evs c =
     (if endRequest c' then c'\<lparr>isConnected := False\<rparr>
      else c'\<lparr>isConnected := False, loopTimeout := Some 5000\<rparr>)"
  using assms by (simp add: uu_dial_def)

lemma abort_at_info:
  assumes "isConnected c" "\<not> endRequest c"
    and e1: "u_get_data ''INF'' [''''] evs c = (Inl e, evs1, c1)"
  shows "\<not> isConnected (uu_dial evs c)
     \<and> (\<not> endRequest (uu_dial evs c) \<longrightarrow> loopTimeout (uu_dial evs c) = Some 5000)
     \<and> writes (trace (uu_dial evs c)) = writes (trace c) @ [getRequest ''INF'' ''R'' ['''']]
     \<and> info (uu_dial evs c) = info c \<and> data (uu_dial evs c) = data c
     \<and> data2 (uu_dial evs c) = data2 c"
proof -
  have "dial_try evs c = (Inl e, evs1, c1)"
    using e1 by (simp add: dial_try_def)
  from uu_dial_catch [OF assms(1,2) this] u_get_data_slots [OF e1] u_get_data_writes [OF e1]
  show ?thesis by simp
qed

lemma abort_at_data:
  assumes "isConnected c" "\<not> endRequest c"
    and e1: "u_get_data ''INF'' [''''] evs c = (Inr r1, evs1, c1)"
    and e2: "u_get_data ''DAT'' [''0''] evs1 (c1\<lparr>info := Some r1\<rparr>) = (Inl e, evs2, c2)"
  shows "\<not> isConnected (uu_dial evs c)
     \<and> (\<not> endRequest (uu_dial evs c) \<longrightarrow> loopTimeout (uu_dial evs c) = Some 5000)
     \<and> writes (trace (uu_dial evs c)) = writes (trace c)
          @ [getRequest ''INF'' ''R'' [''''], getRequest ''DAT'' ''R'' [''0'']]
     \<and> info (uu_dial evs c) = Some r1 \<and> data (uu_dial evs c) = data c
     \<and> data2 (uu_dial evs c) = data2 c"
proof -
  have "dial_try evs c = (Inl e, evs2, c2)"
    using e1 e2 by (simp add: dial_try_def)
  from uu_dial_catch [OF assms(1,2) this] u_get_data_slots [OF e1] u_get_data_writes [OF e1]
    u_get_data_slots [OF e2] u_get_data_writes [OF e2]
  show ?thesis by simp
qed

lemma abort_at_data2:
  assumes "isConnected c" "\<not> endRequest c"
    and e1: "u_get_data ''INF'' [''''] evs c = (Inr r1, evs1, c1)"
    and e2: "u_get_data ''DAT'' [''0''] evs1 (c1\<lparr>info := Some r1\<rparr>) = (Inr r2, evs2, c2)"
    and e3: "u_get_data ''DAT'' [''2''] evs2 (c2\<lparr>data := Some r2\<rparr>) = (Inl e, evs3, c3)"
  shows "\<not> isConnected (uu_dial evs c)
     \<and> (\<not> endRequest (uu_dial evs c) \<longrightarrow> loopTimeout (uu_dial evs c) = Some 5000)
     \<and> writes (trace (uu_dial evs c)) = writes (trace c)
          @ [getRequest ''INF'' ''R'' [''''], getRequest ''DAT'' ''R'' [''0''],
             getRequest ''DAT'' ''R'' [''2'']]
     \<and> info (uu_dial evs c) = Some r1 \<and> data (uu_dial evs c) = Some r2
     \<and> data2 (uu_dial evs c) = data2 c"
proof -
  have "dial_try evs c = (Inl e, evs3, c3)"
    using e1 e2 e3 by (simp add: dial_try_def)
  from uu_dial_catch [OF assms(1,2) this] u_get_data_slots [OF e1] u_get_data_writes [OF e1]
    u_get_data_slots [OF e2] u_get_data_writes [OF e2]
    u_get_data_slots [OF e3] u_get_data_writes [OF e3]
  show ?thesis by simp
qed

lemma abort_at_drain:
  assumes "isConnected c" "\<not> endRequest c"
    and e1: "u_get_data ''INF'' [''''] evs c = (Inr r1, evs1, c1)"
    and e2: "u_get_data ''DAT'' [''0''] evs1 (c1\<lparr>info := Some r1\<rparr>) = (Inr r2, evs2, c2)"
    and e3: "u_get_data ''DAT'' [''2''] evs2 (c2\<lparr>data := Some r2\<rparr>) = (Inr r3, evs3, c3)"
    and d: "drain evs3 (c3\<lparr>data2 := Some r3\<rparr>) = (Inl e, evs4, c4)"
  shows "\<not> isConnected (uu_dial evs c)
     \<and> (\<not> endRequest (uu_dial evs c) \<longrightarrow> loopTimeout (uu_dial evs c) = Some 5000)
     \<and> (\<exists>ps. writes (trace (uu_dial evs c)) = writes (trace c)
          @ [getRequest ''INF'' ''R'' [''''], getRequest ''DAT'' ''R'' [''0''],
             getRequest ''DAT'' ''R'' [''2'']]
          @ map (getRequest ''DAT'' ''W'') ps)
     \<and> info (uu_dial evs c) = Some r1 \<and> data (uu_dial evs c) = Some r2
     \<and> data2 (uu_dial evs c) = Some r3"
proof -
  have "dial_try evs c = (Inl e, evs4, c4)"
    using e1 e2 e3 d by (simp add: dial_try_def)
  note r = uu_dial_catch [OF assms(1,2) this]
  from drain_writes [OF d] obtain ps where
    "writes (trace c4) = writes (trace (c3\<lparr>data2 := Some r3\<rparr>)) @ map (getRequest ''DAT'' ''W'') ps"
    by blast
  with r u_get_data_writes [OF e1] u_get_data_writes [OF e2] u_get_data_writes [OF e3]
  have "writes (trace (uu_dial evs c)) = writes (trace c)
          @ [getRequest ''INF'' ''R'' [''''], getRequest ''DAT'' ''R'' [''0''],
             getRequest ''DAT'' ''R'' [''2'']]
          @ map (getRequest ''DAT'' ''W'') ps"
    by simp
  then have "\<exists>ps. writes (trace (uu_dial evs c)) = writes (trace c)
          @ [getRequest ''INF'' ''R'' [''''], getRequest ''DAT'' ''R'' [''0''],
             getRequest ''DAT'' ''R'' [''2'']]
          @ map (getRequest ''DAT'' ''W'') ps"
    by blast
  moreover from r u_get_data_slots [OF e2] u_get_data_slots [OF e3] drain_slots [OF d]
  have "\<not> isConnected (uu_dial evs c)"
    "\<not> endRequest (uu_dial evs c) \<longrightarrow> loopTimeout (uu_dial evs c) = Some 5000"
    "info (uu_dial evs c) = Some r1" "data (uu_dial evs c) = Some r2"
    "data2 (uu_dial evs c) = Some r3"
    by simp_all
  ultimately show ?thesis
    by blast
qed

text \<open>
  In every cycle that starts connected and not stopped, the read requests come in the order
  \<open>INF\<close>, \<open>DAT 0\<close>, \<open>DAT 2\<close> and stop at the first failure; requests of mode \<open>W\<close> follow
  only after all three.
\<close>

lemma uu_dial_reads:
  assumes "isConnected c" "\<not> endRequest c"
  shows "\<exists>n ps. 1 \<le> n \<and> n \<le> 3
      \<and> writes (trace (uu_dial evs c)) = writes (trace c)
           @ take n [getRequest ''INF'' ''R'' [''''], getRequest ''DAT'' ''R'' [''0''],
                     getRequest ''DAT'' ''R'' [''2'']]
           @ map (getRequest ''DAT'' ''W'') ps
      \<and> (n < 3 \<longrightarrow> ps = [])"
    (is "\<exists>n ps. ?P n ps")
proof -
  obtain x1 evs1 c1 where e1: "u_get_data ''INF'' [''''] evs c = (x1, evs1, c1)"
    by (cases "u_get_data ''INF'' [''''] evs c") auto
  show ?thesis
  proof (cases x1)
    case (Inl e)
    from abort_at_info [OF assms e1 [unfolded Inl]] have "?P 1 []"
      by simp
    then show ?thesis by blast
  next
    case r1: (Inr r1)
    obtain x2 evs2 c2 where
      e2: "u_get_data ''DAT'' [''0''] evs1 (c1\<lparr>info := Some r1\<rparr>) = (x2, evs2, c2)"
      by (cases "u_get_data ''DAT'' [''0''] evs1 (c1\<lparr>info := Some r1\<rparr>)") auto
    show ?thesis
    proof (cases x2)
      case (Inl e)
      from abort_at_data [OF assms e1 [unfolded r1] e2 [unfolded Inl]] have "?P 2 []"
        by simp
      then show ?thesis by blast
    next
      case r2: (Inr r2)
      obtain x3 evs3 c3 where
        e3: "u_get_data ''DAT'' [''2''] evs2 (c2\<lparr>data := Some r2\<rparr>) = (x3, evs3, c3)"
        by (cases "u_get_data ''DAT'' [''2''] evs2 (c2\<lparr>data := Some r2\<rparr>)") auto
      show ?thesis
      proof (cases x3)
        case (Inl e)
        from abort_at_data2 [OF assms e1 [unfolded r1] e2 [unfolded r2] e3 [unfolded Inl]]
        have "?P 3 []"
          by simp
        then show ?thesis by blast
      next
        case r3: (Inr r3)
        obtain x4 evs4 c4 where d: "drain evs3 (c3\<lparr>data2 := Some r3\<rparr>) = (x4, evs4, c4)"
          by (cases "drain evs3 (c3\<lparr>data2 := Some r3\<rparr>)") auto
        show ?thesis
        proof (cases x4)
          case (Inl e)
          from abort_at_drain [OF assms e1 [unfolded r1] e2 [unfolded r2] e3 [unfolded r3]
              d [unfolded Inl]]
          obtain ps where "?P 3 ps"
            by auto
          then show ?thesis by blast
        next
          case (Inr u)
          from drain_writes [OF d] obtain ps where
            "writes (trace c4) = writes (trace (c3\<lparr>data2 := Some r3\<rparr>))
                @ map (getRequest ''DAT'' ''W'') ps"
            by blast
          with u_get_data_writes [OF e1] u_get_data_writes [OF e2] u_get_data_writes [OF e3]
          have w: "writes (trace c4) = writes (trace c)
              @ [getRequest ''INF'' ''R'' [''''], getRequest ''DAT'' ''R'' [''0''],
                 getRequest ''DAT'' ''R'' [''2'']]
              @ map (getRequest ''DAT'' ''W'') ps"
            by simp
          have "trace (uu_dial evs c) = trace c4"
            using assms e1 e2 e3 d r1 r2 r3 Inr by (simp add: uu_dial_def dial_try_def Let_def)
          with w have "?P 3 ps"
            by simp
          then show ?thesis by blast
        qed
      qed
    qed
  qed
qed

text \<open>
  C2. In a cycle that starts connected and not stopped, the read requests are written in
  the fixed order \<open>INF\<close> with the empty parameter, \<open>DAT\<close> with \<open>0\<close>, \<open>DAT\<close> with \<open>2\<close>,
  never more than these three, and requests of mode \<open>W\<close> follow only after all three.
  When the three fetches and the queue drain succeed and \<open>stop\<close> has not been called, the
  reads are exactly these three, each snapshot still holds its old value when its exchange
  resolves and holds the whole response afterwards, and the next cycle is scheduled with a
  delay of 1000 ms.
\<close>

theorem uu_dial_cycle:
  assumes "isConnected c" "\<not> endRequest c"
  shows "(\<exists>n ps. 1 \<le> n \<and> n \<le> 3
      \<and> writes (trace (uu_dial evs c)) = writes (trace c)
           @ take n [getRequest ''INF'' ''R'' [''''], getRequest ''DAT'' ''R'' [''0''],
                     getRequest ''DAT'' ''R'' [''2'']]
           @ map (getRequest ''DAT'' ''W'') ps
      \<and> (n < 3 \<longrightarrow> ps = []))
   \<and> (u_get_data ''INF'' [''''] evs c = (Inr r1, evs1, c1)
      \<and> u_get_data ''DAT'' [''0''] evs1 (c1\<lparr>info := Some r1\<rparr>) = (Inr r2, evs2, c2)
      \<and> u_get_data ''DAT'' [''2''] evs2 (c2\<lparr>data := Some r2\<rparr>) = (Inr r3, evs3, c3)
      \<and> drain evs3 (c3\<lparr>data2 := Some r3\<rparr>) = (Inr u, evs4, c4)
      \<and> \<not> endRequest c4 \<longrightarrow>
        (\<exists>ps. writes (trace (uu_dial evs c)) = writes (trace c)
            @ [getRequest ''INF'' ''R'' [''''], getRequest ''DAT'' ''R'' [''0''],
               getRequest ''DAT'' ''R'' [''2'']]
            @ map (getRequest ''DAT'' ''W'') ps)
        \<and> info c1 = info c \<and> data c2 = data c \<and> data2 c3 = data2 c
        \<and> info (uu_dial evs c) = Some r1
        \<and> data (uu_dial evs c) = Some r2
        \<and> data2 (uu_dial evs c) = Some r3
        \<and> loopTimeout (uu_dial evs c) = Some 1000)"
    (is "?reads \<and> ?complete")
proof
  show ?reads
    by (rule uu_dial_reads [OF assms])
  show ?complete
    using uu_dial_completes [OF assms, of evs r1 evs1 c1 r2 evs2 c2 r3 evs3 c3 u evs4 c4]
    by blast
qed






text \<open>
  The \<open>catch\<close> block tests the stop flag: a cycle during which \<open>stop\<close> is called leaves no
  timer behind.
\<close>

lemma stop_during_cycle:
  "\<not> isConnected (uu_dial [CallStop, Timeout] (new_client\<lparr>isConnected := True\<rparr>))
   \<and> endRequest (uu_dial [CallStop, Timeout] (new_client\<lparr>isConnected := True\<rparr>))
   \<and> loopTimeout (uu_dial [CallStop, Timeout] (new_client\<lparr>isConnected := True\<rparr>)) = None"
  by (simp add: uu_dial_def dial_try_def u_get_data_def u_sendRequestAndWaitForResponse_def
      stop_def uu_disconnect_def new_client_def Let_def)

text \<open>When the 5000 ms timer of an aborted cycle fires, the client asks the socket to connect.\<close>

lemma retry_after_abort:
  assumes "\<not> isConnected s" "\<not> endRequest s" "loopTimeout s = Some 5000"
  shows "trace (step (TimerFires outcome es) s) = trace s @ [SockConnect]"
  using assms by (simp add: loop_def uu_connect_def Let_def split: connect_outcome.splits)

section \<open>The same properties in the second client file\<close>

text \<open>
  The accumulator and the drain loop of the second file, one cycle at a time. Its loop
  does not test the stop flag; otherwise the statements and proofs are those above.
\<close>

lemma await_response0_trace:
  "await_response0 evs c = (res, evs', c') \<Longrightarrow>
   writes (trace c') = writes (trace c) \<and> attempts (trace c') = attempts (trace c)"
proof (induction evs c rule: await_response0.induct)
  case (2 chunk es c)
  then show ?case
    by (cases chunk c rule: onData_cases) auto
qed (auto simp: sendCommand_def stop0_def on_error0_def Let_def writes_append attempts_append)

lemma await_response0_queue:
  "await_response0 evs c = (res, evs', c') \<Longrightarrow>
   \<exists>used. evs = used @ evs' \<and> writeParameters c' = writeParameters c @ pushed used"
proof (induction evs c arbitrary: res evs' c' rule: await_response0.induct)
  case (1 c)
  then show ?case by auto
next
  case (2 chunk es c)
  show ?case
  proof (cases chunk c rule: onData_cases)
    case (1 r)
    with 2 have "Data chunk # es = [Data chunk] @ evs'"
      and "writeParameters c' = writeParameters c @ pushed [Data chunk]"
      by auto
    then show ?thesis by blast
  next
    case 2
    with "2.prems" have "await_response0 es (c\<lparr>responseBuffer := responseBuffer c @ chunk\<rparr>) = (res, evs', c')"
      by simp
    from "2.IH" [OF 2 [symmetric] refl this]
    obtain used where "es = used @ evs'" "writeParameters c' = writeParameters c @ pushed used"
      by auto
    then have "Data chunk # es = (Data chunk # used) @ evs'"
      and "writeParameters c' = writeParameters c @ pushed (Data chunk # used)"
      by auto
    then show ?thesis by blast
  qed
next
  case (3 es c)
  then have "SocketError # es = [SocketError] @ evs'"
    and "writeParameters c' = writeParameters c @ pushed [SocketError]"
    by (auto simp: on_error0_def)
  then show ?case by blast
next
  case (4 es c)
  from "4.IH" [OF "4.prems" [simplified]]
  obtain used where "es = used @ evs'" "writeParameters c' = writeParameters c @ pushed used"
    by auto
  then have "SocketClose # es = (SocketClose # used) @ evs'"
    and "writeParameters c' = writeParameters c @ pushed (SocketClose # used)"
    by auto
  then show ?case by blast
next
  case (5 es c)
  then have "Timeout # es = [Timeout] @ evs'"
    and "writeParameters c' = writeParameters c @ pushed [Timeout]"
    by auto
  then show ?case by blast
next
  case (6 p es c)
  from "6.IH" [OF "6.prems" [simplified]]
  obtain used where "es = used @ evs'"
    "writeParameters c' = writeParameters (sendCommand p c) @ pushed used"
    by auto
  then have "CallSendCommand p # es = (CallSendCommand p # used) @ evs'"
    and "writeParameters c' = writeParameters c @ pushed (CallSendCommand p # used)"
    by (auto simp: sendCommand_def)
  then show ?case by blast
next
  case (7 es c)
  from "7.IH" [OF "7.prems" [simplified]]
  obtain used where "es = used @ evs'"
    "writeParameters c' = writeParameters (stop0 c) @ pushed used"
    by auto
  then have "CallStop # es = (CallStop # used) @ evs'"
    and "writeParameters c' = writeParameters c @ pushed (CallStop # used)"
    by (auto simp: stop0_def on_error0_def Let_def)
  then show ?case by blast
qed

lemma exchange0_writes:
  "u_sendRequestAndWaitForResponse0 request evs c = (res, evs', c') \<Longrightarrow>
   writes (trace c') = writes (trace c) @ [request]"
  unfolding u_sendRequestAndWaitForResponse0_def
  by (drule await_response0_trace) (simp add: writes_append)

lemma exchange0_queue:
  "u_sendRequestAndWaitForResponse0 request evs c = (res, evs', c') \<Longrightarrow>
   \<exists>used. evs = used @ evs' \<and> writeParameters c' = writeParameters c @ pushed used"
  unfolding u_sendRequestAndWaitForResponse0_def
  by (drule await_response0_queue) simp

lemma drain0_fifo:
  assumes "drain0 evs c = (res, evs', c')"
  shows "\<exists>k used. evs = used @ evs'
      \<and> k \<le> length (writeParameters c @ pushed used)
      \<and> writeParameters c' = drop k (writeParameters c @ pushed used)
      \<and> writes (trace c') = writes (trace c)
            @ map (getRequest ''DAT'' ''W'')
                (take (if isl res then Suc k else k) (writeParameters c @ pushed used))
      \<and> (isl res \<longrightarrow> k < length (writeParameters c @ pushed used))
      \<and> (\<not> isl res \<longrightarrow> writeParameters c' = [])"
  using assms
proof (induction evs c arbitrary: res evs' c' rule: drain0.induct)
  case (1 evs c)
  show ?case
  proof (cases "writeParameters c \<noteq> []")
    case False
    with "1.prems" have "res = Inr ()" "evs' = evs" "c' = c"
      by (simp_all add: drain0.simps [of evs c])
    then have "evs = [] @ evs'
      \<and> 0 \<le> length (writeParameters c @ pushed [])
      \<and> writeParameters c' = drop 0 (writeParameters c @ pushed [])
      \<and> writes (trace c') = writes (trace c)
            @ map (getRequest ''DAT'' ''W'')
                (take (if isl res then Suc 0 else 0) (writeParameters c @ pushed []))
      \<and> (isl res \<longrightarrow> 0 < length (writeParameters c @ pushed []))
      \<and> (\<not> isl res \<longrightarrow> writeParameters c' = [])"
      using False by simp
    then show ?thesis by blast
  next
    case True
    obtain r evs1 c1 where ex: "u_set_data0 (hd (writeParameters c)) evs c = (r, evs1, c1)"
      by (cases "u_set_data0 (hd (writeParameters c)) evs c") auto
    from ex obtain used1 where used1: "evs = used1 @ evs1"
      "writeParameters c1 = writeParameters c @ pushed used1"
      unfolding u_set_data0_def by (auto dest: exchange0_queue)
    from ex have w1: "writes (trace c1) =
        writes (trace c) @ [getRequest ''DAT'' ''W'' (hd (writeParameters c))]"
      unfolding u_set_data0_def by (rule exchange0_writes)
    from True obtain p ps where q: "writeParameters c = p # ps"
      by (cases "writeParameters c") auto
    show ?thesis
    proof (cases r)
      case (Inl e)
      with "1.prems" True ex have "res = Inl e" "evs' = evs1" "c' = c1"
        by (simp_all add: drain0.simps [of evs c])
      with used1 w1 q have "evs = used1 @ evs'
        \<and> 0 \<le> length (writeParameters c @ pushed used1)
        \<and> writeParameters c' = drop 0 (writeParameters c @ pushed used1)
        \<and> writes (trace c') = writes (trace c)
              @ map (getRequest ''DAT'' ''W'')
                  (take (if isl res then Suc 0 else 0) (writeParameters c @ pushed used1))
        \<and> (isl res \<longrightarrow> 0 < length (writeParameters c @ pushed used1))
        \<and> (\<not> isl res \<longrightarrow> writeParameters c' = [])"
        by simp
      then show ?thesis by blast
    next
      case (Inr b)
      let ?c2 = "c1\<lparr>writeParameters := tl (writeParameters c1)\<rparr>"
      from "1.prems" True ex Inr have rec: "drain0 evs1 ?c2 = (res, evs', c')"
        by (simp add: drain0.simps [of evs c])
      from "1.IH" [OF True ex [symmetric, unfolded Inr] refl refl rec]
      obtain k used2 where ih: "evs1 = used2 @ evs'"
        "k \<le> length (writeParameters ?c2 @ pushed used2)"
        "writeParameters c' = drop k (writeParameters ?c2 @ pushed used2)"
        "writes (trace c') = writes (trace ?c2)
            @ map (getRequest ''DAT'' ''W'')
                (take (if isl res then Suc k else k) (writeParameters ?c2 @ pushed used2))"
        "isl res \<longrightarrow> k < length (writeParameters ?c2 @ pushed used2)"
        "\<not> isl res \<longrightarrow> writeParameters c' = []"
        by blast
      have q2: "writeParameters c @ pushed (used1 @ used2)
          = p # (writeParameters ?c2 @ pushed used2)"
        using used1 q by (simp add: pushed_append)
      have "evs = (used1 @ used2) @ evs'
        \<and> Suc k \<le> length (writeParameters c @ pushed (used1 @ used2))
        \<and> writeParameters c' = drop (Suc k) (writeParameters c @ pushed (used1 @ used2))
        \<and> writes (trace c') = writes (trace c)
              @ map (getRequest ''DAT'' ''W'')
                  (take (if isl res then Suc (Suc k) else Suc k)
                     (writeParameters c @ pushed (used1 @ used2)))
        \<and> (isl res \<longrightarrow> Suc k < length (writeParameters c @ pushed (used1 @ used2)))
        \<and> (\<not> isl res \<longrightarrow> writeParameters c' = [])"
        unfolding q2 using ih used1 w1 q by simp
      then show ?thesis by blast
    qed
  qed
qed

lemma await_response0_line:
  assumes "\<forall>ch \<in> set cs. CHR 0x0A \<notin> set ch"
    and "CHR 0x0A \<notin> set (responseBuffer c)"
    and "CHR 0x0A \<in> set ch"
  shows "await_response0 (map Data cs @ Data ch # rest) c =
     (Inr (split CHR '';'' (takeWhile (\<lambda>x. x \<noteq> CHR 0x0A) (responseBuffer c @ concat cs @ ch))),
      rest, c\<lparr>responseBuffer := []\<rparr>)"
  using assms
proof (induction cs arbitrary: c)
  case Nil
  then show ?case
    by (simp add: onData_complete u_extractData_def)
next
  case (Cons x cs)
  have nl: "CHR 0x0A \<notin> set (responseBuffer c @ x)"
    using Cons.prems by simp
  have "await_response0 (map Data (x # cs) @ Data ch # rest) c =
        await_response0 (map Data cs @ Data ch # rest) (c\<lparr>responseBuffer := responseBuffer c @ x\<rparr>)"
    by (simp add: onData_incomplete [OF nl])
  also have "\<dots> =
     (Inr (split CHR '';'' (takeWhile (\<lambda>x. x \<noteq> CHR 0x0A)
        (responseBuffer (c\<lparr>responseBuffer := responseBuffer c @ x\<rparr>) @ concat cs @ ch))),
      rest, c\<lparr>responseBuffer := responseBuffer c @ x\<rparr>\<lparr>responseBuffer := []\<rparr>)"
    using Cons.prems nl by (intro Cons.IH) simp_all
  finally show ?case
    by simp
qed

section \<open>Worked cycles\<close>

text \<open>One chunk that holds a whole line answers an exchange.\<close>

lemma exchange_line:
  assumes "CHR 0x0A \<notin> set (responseBuffer c)" "CHR 0x0A \<in> set ch"
  shows "u_sendRequestAndWaitForResponse request (Data ch # rest) c =
     (Inr (split CHR '';'' (takeWhile (\<lambda>x. x \<noteq> CHR 0x0A) (responseBuffer c @ ch))), rest,
      c\<lparr>responseBuffer := [], trace := trace c @ [SockWrite request, ResponseTimer 60000]\<rparr>)"
  unfolding u_sendRequestAndWaitForResponse_def
  using await_response_line [of "[]" "c\<lparr>trace := trace c @ [SockWrite request, ResponseTimer 60000]\<rparr>" ch rest]
    assms
  by simp

lemma exchange_timeout:
  "u_sendRequestAndWaitForResponse request (Timeout # rest) c =
     (Inl SocketTimeout, rest,
      c\<lparr>trace := trace c @ [SockWrite request, ResponseTimer 60000]\<rparr>)"
  by (simp add: u_sendRequestAndWaitForResponse_def)


lemma exchange_sendCommand:
  "u_sendRequestAndWaitForResponse request (CallSendCommand p # rest) c =
     u_sendRequestAndWaitForResponse request rest (sendCommand p c)"
  by (cases c) (simp add: u_sendRequestAndWaitForResponse_def sendCommand_def)

theorem uu_dial_cycle_witness:
  "(\<exists>ps. writes (trace (uu_dial
        [Data ''A;1\<newline>'', Data ''B;2\<newline>'', Data ''C;3\<newline>'']
        (new_client\<lparr>isConnected := True\<rparr>))) =
      [getRequest ''INF'' ''R'' [''''], getRequest ''DAT'' ''R'' [''0''],
       getRequest ''DAT'' ''R'' [''2'']] @ map (getRequest ''DAT'' ''W'') ps)
   \<and> info (uu_dial
        [Data ''A;1\<newline>'', Data ''B;2\<newline>'', Data ''C;3\<newline>'']
        (new_client\<lparr>isConnected := True\<rparr>)) = Some [''A'', ''1'']
   \<and> data (uu_dial
        [Data ''A;1\<newline>'', Data ''B;2\<newline>'', Data ''C;3\<newline>'']
        (new_client\<lparr>isConnected := True\<rparr>)) = Some [''B'', ''2'']
   \<and> data2 (uu_dial
        [Data ''A;1\<newline>'', Data ''B;2\<newline>'', Data ''C;3\<newline>'']
        (new_client\<lparr>isConnected := True\<rparr>)) = Some [''C'', ''3'']
   \<and> loopTimeout (uu_dial
        [Data ''A;1\<newline>'', Data ''B;2\<newline>'', Data ''C;3\<newline>'']
        (new_client\<lparr>isConnected := True\<rparr>)) = Some 1000"
proof -
  let ?evs = "[Data ''A;1\<newline>'', Data ''B;2\<newline>'', Data ''C;3\<newline>'']"
  let ?c = "new_client\<lparr>isConnected := True\<rparr>"
  define c1 where "c1 = snd (snd (u_get_data ''INF'' [''''] ?evs ?c))"
  define c2 where "c2 = snd (snd (u_get_data ''DAT'' [''0''] (tl ?evs) (c1\<lparr>info := Some [''A'', ''1'']\<rparr>)))"
  define c3 where "c3 = snd (snd (u_get_data ''DAT'' [''2''] (tl (tl ?evs)) (c2\<lparr>data := Some [''B'', ''2'']\<rparr>)))"
  have e1: "u_get_data ''INF'' [''''] ?evs ?c = (Inr [''A'', ''1''], tl ?evs, c1)"
    by (simp add: c1_def u_get_data_def exchange_line new_client_def)
  have b1: "responseBuffer c1 = []" "writeParameters c1 = []" "\<not> endRequest c1"
    by (simp_all add: c1_def u_get_data_def exchange_line new_client_def)
  have e2: "u_get_data ''DAT'' [''0''] (tl ?evs) (c1\<lparr>info := Some [''A'', ''1'']\<rparr>)
      = (Inr [''B'', ''2''], tl (tl ?evs), c2)"
    by (simp add: c2_def u_get_data_def exchange_line b1)
  have b2: "responseBuffer c2 = []" "writeParameters c2 = []" "\<not> endRequest c2"
    by (simp_all add: c2_def u_get_data_def exchange_line b1)
  have e3: "u_get_data ''DAT'' [''2''] (tl (tl ?evs)) (c2\<lparr>data := Some [''B'', ''2'']\<rparr>)
      = (Inr [''C'', ''3''], [], c3)"
    by (simp add: c3_def u_get_data_def exchange_line b2)
  have b3: "writeParameters c3 = []" "\<not> endRequest c3"
    by (simp_all add: c3_def u_get_data_def exchange_line b2)
  have d: "drain [] (c3\<lparr>data2 := Some [''C'', ''3'']\<rparr>) = (Inr (), [], c3\<lparr>data2 := Some [''C'', ''3'']\<rparr>)"
    by (simp add: drain.simps [of "[]"] b3)
  have "isConnected ?c" "\<not> endRequest ?c" "\<not> endRequest (c3\<lparr>data2 := Some [''C'', ''3'']\<rparr>)"
    by (simp_all add: new_client_def b3)
  from uu_dial_cycle [OF this(1,2), of ?evs "[''A'', ''1'']" "tl ?evs" c1 "[''B'', ''2'']"
      "tl (tl ?evs)" c2 "[''C'', ''3'']" "[]" c3 "()" "[]" "c3\<lparr>data2 := Some [''C'', ''3'']\<rparr>"]
    e1 e2 e3 d this(3)
  show ?thesis
    by (simp add: new_client_def)
qed

text \<open>
  The loop on a queue of two entries: the first is answered, a third is submitted, the
  exchange of the second times out.
\<close>

lemma drain_worked:
  "fst (drain [Data ''ok\<newline>'', CallSendCommand [''2'', ''3''], Timeout]
          (new_client\<lparr>isConnected := True, writeParameters := [[''4'', ''215''], [''1'', ''1'']]\<rparr>))
     = Inl SocketTimeout
   \<and> writeParameters (snd (snd (drain [Data ''ok\<newline>'', CallSendCommand [''2'', ''3''], Timeout]
          (new_client\<lparr>isConnected := True, writeParameters := [[''4'', ''215''], [''1'', ''1'']]\<rparr>))))
     = [[''1'', ''1''], [''2'', ''3'']]
   \<and> writes (trace (snd (snd (drain [Data ''ok\<newline>'', CallSendCommand [''2'', ''3''], Timeout]
          (new_client\<lparr>isConnected := True, writeParameters := [[''4'', ''215''], [''1'', ''1'']]\<rparr>)))))
     = [getRequest ''DAT'' ''W'' [''4'', ''215''], getRequest ''DAT'' ''W'' [''1'', ''1'']]"
  by (simp add: drain.simps [of "[Data ''ok\<newline>'', CallSendCommand [''2'', ''3''], Timeout]"]
      drain.simps [of "[CallSendCommand [''2'', ''3''], Timeout]"]
      u_set_data_def exchange_line exchange_timeout exchange_sendCommand sendCommand_def
      new_client_def)


section \<open>Cycles in flight\<close>

text \<open>With one cycle in flight, a chunk that completes a line continues that cycle.\<close>

lemma react_data_one_cycle:
  assumes "cycles s = [ph]" "CHR 0x0A \<in> set (responseBuffer s @ chunk)"
  shows "react (OnData chunk) s =
     resume ph (u_extractData (takeWhile (\<lambda>x. x \<noteq> CHR 0x0A) (responseBuffer s @ chunk)))
       (s\<lparr>responseBuffer := [], cycles := []\<rparr>)"
  using assms by (simp add: onData_complete resume_all_def)

text \<open>Once \<open>stop\<close> has been called, \<open>loop\<close> neither connects nor writes.\<close>

lemma loop_async_stopped:
  assumes "endRequest s"
  shows "endRequest (loop_async outcome s) \<and> trace (loop_async outcome s) = trace s
       \<and> cycles (loop_async outcome s) = cycles s"
  using assms by (simp add: loop_async_def clear_loop_timer_def Let_def)

lemma connect_handlers_stopped:
  assumes "endRequest s"
  shows "endRequest (((\<lambda>s. loop_async outcome (s\<lparr>isConnected := True\<rparr>)) ^^ n) s)
       \<and> trace (((\<lambda>s. loop_async outcome (s\<lparr>isConnected := True\<rparr>)) ^^ n) s) = trace s
       \<and> cycles (((\<lambda>s. loop_async outcome (s\<lparr>isConnected := True\<rparr>)) ^^ n) s) = cycles s"
proof (induction n)
  case 0
  show ?case using assms by simp
next
  case (Suc n)
  let ?t = "((\<lambda>s. loop_async outcome (s\<lparr>isConnected := True\<rparr>)) ^^ n) s"
  from Suc have "endRequest (?t\<lparr>isConnected := True\<rparr>)" by simp
  from loop_async_stopped [OF this, of outcome] Suc show ?case by simp
qed

lemma react_stopped:
  assumes "endRequest s" "cycles s = []" "\<not> is_DoStart occ"
  shows "endRequest (react occ s) \<and> cycles (react occ s) = []
       \<and> attempts (trace (react occ s)) = attempts (trace s)"
proof (cases occ)
  case (DoStart outcome)
  with assms(3) show ?thesis by simp
next
  case DoStop
  with assms show ?thesis
    by (simp add: stop_async_def clear_loop_timer_def uu_disconnect_def attempts_append)
next
  case (DoSendCommand p)
  with assms show ?thesis
    by (simp add: sendCommand_def)
next
  case (OnLoopTimer i outcome)
  have "endRequest (expire i s)" "cycles (expire i s) = []" "trace (expire i s) = trace s"
    using assms by (simp_all add: expire_def Let_def)
  with loop_async_stopped [OF this(1), of outcome] OnLoopTimer assms show ?thesis
    by simp
next
  case (OnConnect outcome)
  have "endRequest (s\<lparr>connectHandlers := 0\<rparr>)"
    using assms by simp
  from connect_handlers_stopped [OF this, where outcome = outcome and n = "connectHandlers s"]
    OnConnect assms
  show ?thesis by simp
next
  case (OnData chunk)
  with assms show ?thesis
    by (simp add: resume_all_def)
next
  case OnError
  with assms show ?thesis by simp
next
  case OnClose
  with assms show ?thesis by simp
next
  case (OnResponseTimer i)
  with assms show ?thesis by simp
qed

lemma run_async_stopped:
  assumes "endRequest s" "cycles s = []" "\<forall>occ \<in> set occs. \<not> is_DoStart occ"
  shows "attempts (trace (run_async occs s)) = attempts (trace s)"
  using assms
proof (induction occs arbitrary: s)
  case Nil
  then show ?case by (simp add: run_async_def)
next
  case (Cons occ occs)
  from Cons.prems react_stopped [of s occ]
  have "endRequest (react occ s)" "cycles (react occ s) = []"
    "attempts (trace (react occ s)) = attempts (trace s)"
    by simp_all
  with Cons.IH [of "react occ s"] Cons.prems show ?case
    by (simp add: run_async_def)
qed

text \<open>
  After \<open>stop\<close>, called while no cycle is in flight, and until \<open>start\<close> is called again, no
  timer and no socket event, \<open>'connect'\<close> included, makes the client connect or write.
\<close>

lemma stop_async_quiet:
  assumes "cycles s = []" "\<forall>occ \<in> set occs. \<not> is_DoStart occ"
  shows "attempts (trace (run_async occs (stop_async s))) = attempts (trace s)"
proof -
  have "endRequest (stop_async s)" "cycles (stop_async s) = []"
    "attempts (trace (stop_async s)) = attempts (trace s)"
    using assms(1)
    by (simp_all add: stop_async_def clear_loop_timer_def uu_disconnect_def attempts_append)
  with run_async_stopped [OF this(1,2) assms(2)] show ?thesis
    by simp
qed

subsection \<open>One cycle alone\<close>

text \<open>
  A cycle that is alone in flight goes through the states of \<open>uu_dial\<close>:
  \<open>client.truncate\<close> forgets the cycles in flight and the list of timers.
\<close>

lemma run_async_Cons: "run_async (occ # occs) s = run_async occs (react occ s)"
  by (simp add: run_async_def)

lemma run_async_Nil: "run_async [] s = s"
  by (simp add: run_async_def)

lemma onData_truncate:
  "onData chunk (client.truncate s) = (fst (onData chunk s), client.truncate (snd (onData chunk s)))"
  by (simp add: onData_def client.truncate_def Let_def)

lemma onData_cycles: "cycles (snd (onData chunk s)) = cycles s"
  by (simp add: onData_def Let_def)

lemma stop_truncate: "client.truncate (stop_async s) = stop (client.truncate s)"
  by (simp add: stop_async_def stop_def clear_loop_timer_def uu_disconnect_def client.truncate_def
      Let_def)

lemma await_response_in_flight:
  assumes "await_response evs (client.truncate s) = (res, rest, c')" "rest \<noteq> []" "cycles s = [ph]"
  shows "\<exists>used t. evs = used @ rest \<and> client.truncate t = c' \<and> cycles t = []
      \<and> run_async (map occ_of used) s = (case res of Inr r \<Rightarrow> resume ph r t | Inl e \<Rightarrow> fail_cycle t)"
  using assms
proof (induction evs arbitrary: s)
  case Nil
  then show ?case by simp
next
  case (Cons ev es)
  show ?case
  proof (cases ev)
    case (Data chunk)
    obtain x s1 where od: "onData chunk s = (x, s1)"
      by (cases "onData chunk s") auto
    then have tr: "onData chunk (client.truncate s) = (x, client.truncate s1)"
      by (simp add: onData_truncate)
    from od have cy: "cycles s1 = [ph]"
      using onData_cycles [of chunk s] Cons.prems(3) by simp
    show ?thesis
    proof (cases x)
      case None
      with Cons.prems(1) Data tr
      have "await_response es (client.truncate s1) = (res, rest, c')"
        by simp
      from Cons.IH [OF this Cons.prems(2) cy]
      obtain used t where ih: "es = used @ rest" "client.truncate t = c'" "cycles t = []"
        "run_async (map occ_of used) s1
           = (case res of Inr r \<Rightarrow> resume ph r t | Inl e \<Rightarrow> fail_cycle t)"
        by blast
      have "s1\<lparr>cycles := [ph]\<rparr> = s1"
        using cy by (cases s1) simp
      then have "react (OnData chunk) s = s1"
        using od None Cons.prems(3) by (simp add: resume_all_def)
      with ih Data have "ev # es = (ev # used) @ rest \<and> client.truncate t = c' \<and> cycles t = []
        \<and> run_async (map occ_of (ev # used)) s
            = (case res of Inr r \<Rightarrow> resume ph r t | Inl e \<Rightarrow> fail_cycle t)"
        by (simp add: run_async_Cons)
      then show ?thesis by blast
    next
      case (Some r)
      with Cons.prems(1) Data tr
      have "res = Inr r" "rest = es" "c' = client.truncate s1"
        by simp_all
      moreover have "react (OnData chunk) s = resume ph r (s1\<lparr>cycles := []\<rparr>)"
        using od Some Cons.prems(3) by (simp add: resume_all_def)
      moreover have "client.truncate (s1\<lparr>cycles := []\<rparr>) = client.truncate s1"
        by (simp add: client.truncate_def)
      ultimately have "ev # es = [ev] @ rest
        \<and> client.truncate (s1\<lparr>cycles := []\<rparr>) = c' \<and> cycles (s1\<lparr>cycles := []\<rparr>) = []
        \<and> run_async (map occ_of [ev]) s
            = (case res of Inr r \<Rightarrow> resume ph r (s1\<lparr>cycles := []\<rparr>)
               | Inl e \<Rightarrow> fail_cycle (s1\<lparr>cycles := []\<rparr>))"
        using Data by (simp add: run_async_Cons run_async_Nil)
      then show ?thesis by blast
    qed
  next
    case SocketError
    let ?t = "s\<lparr>isConnected := False, cycles := []\<rparr>"
    from Cons.prems(1) SocketError
    have "res = Inl SocketFailure" "rest = es" "c' = (client.truncate s)\<lparr>isConnected := False\<rparr>"
      by simp_all
    moreover have "react OnError s = fail_cycle ?t"
      using Cons.prems(3) by simp
    moreover have "client.truncate ?t = (client.truncate s)\<lparr>isConnected := False\<rparr>"
      by (simp add: client.truncate_def)
    ultimately have "ev # es = [ev] @ rest \<and> client.truncate ?t = c' \<and> cycles ?t = []
        \<and> run_async (map occ_of [ev]) s
            = (case res of Inr r \<Rightarrow> resume ph r ?t | Inl e \<Rightarrow> fail_cycle ?t)"
      using SocketError by (simp add: run_async_Cons run_async_Nil)
    then show ?thesis by blast
  next
    case SocketClose
    let ?s1 = "s\<lparr>isConnected := False\<rparr>"
    have tr: "client.truncate ?s1 = (client.truncate s)\<lparr>isConnected := False\<rparr>"
      by (simp add: client.truncate_def)
    from Cons.prems(1) SocketClose
    have "await_response es (client.truncate ?s1) = (res, rest, c')"
      by (simp add: tr)
    from Cons.IH [OF this Cons.prems(2)] Cons.prems(3)
    obtain used t where ih: "es = used @ rest" "client.truncate t = c'" "cycles t = []"
      "run_async (map occ_of used) ?s1
         = (case res of Inr r \<Rightarrow> resume ph r t | Inl e \<Rightarrow> fail_cycle t)"
      by auto
    with SocketClose have "ev # es = (ev # used) @ rest \<and> client.truncate t = c' \<and> cycles t = []
        \<and> run_async (map occ_of (ev # used)) s
            = (case res of Inr r \<Rightarrow> resume ph r t | Inl e \<Rightarrow> fail_cycle t)"
      by (simp add: run_async_Cons)
    then show ?thesis by blast
  next
    case Timeout
    let ?t = "s\<lparr>cycles := []\<rparr>"
    from Cons.prems(1) Timeout
    have "res = Inl SocketTimeout" "rest = es" "c' = client.truncate s"
      by simp_all
    moreover have "react (OnResponseTimer 0) s = fail_cycle ?t"
      using Cons.prems(3) by simp
    moreover have "client.truncate ?t = client.truncate s"
      by (simp add: client.truncate_def)
    ultimately have "ev # es = [ev] @ rest \<and> client.truncate ?t = c' \<and> cycles ?t = []
        \<and> run_async (map occ_of [ev]) s
            = (case res of Inr r \<Rightarrow> resume ph r ?t | Inl e \<Rightarrow> fail_cycle ?t)"
      using Timeout by (simp add: run_async_Cons run_async_Nil)
    then show ?thesis by blast
  next
    case (CallSendCommand p)
    let ?s1 = "sendCommand p s"
    have tr: "client.truncate ?s1 = sendCommand p (client.truncate s)"
      by (simp add: client.truncate_def sendCommand_def)
    have cy: "cycles ?s1 = [ph]"
      using Cons.prems(3) by (simp add: sendCommand_def)
    from Cons.prems(1) CallSendCommand
    have "await_response es (client.truncate ?s1) = (res, rest, c')"
      by (simp add: tr)
    from Cons.IH [OF this Cons.prems(2) cy]
    obtain used t where ih: "es = used @ rest" "client.truncate t = c'" "cycles t = []"
      "run_async (map occ_of used) ?s1
         = (case res of Inr r \<Rightarrow> resume ph r t | Inl e \<Rightarrow> fail_cycle t)"
      by blast
    with CallSendCommand have "ev # es = (ev # used) @ rest \<and> client.truncate t = c' \<and> cycles t = []
        \<and> run_async (map occ_of (ev # used)) s
            = (case res of Inr r \<Rightarrow> resume ph r t | Inl e \<Rightarrow> fail_cycle t)"
      by (simp add: run_async_Cons)
    then show ?thesis by blast
  next
    case CallStop
    let ?s1 = "stop_async s"
    have cy: "cycles ?s1 = [ph]"
      using Cons.prems(3) by (simp add: stop_async_def clear_loop_timer_def uu_disconnect_def)
    from Cons.prems(1) CallStop
    have "await_response es (client.truncate ?s1) = (res, rest, c')"
      by (simp add: stop_truncate)
    from Cons.IH [OF this Cons.prems(2) cy]
    obtain used t where ih: "es = used @ rest" "client.truncate t = c'" "cycles t = []"
      "run_async (map occ_of used) ?s1
         = (case res of Inr r \<Rightarrow> resume ph r t | Inl e \<Rightarrow> fail_cycle t)"
      by blast
    with CallStop have "ev # es = (ev # used) @ rest \<and> client.truncate t = c' \<and> cycles t = []
        \<and> run_async (map occ_of (ev # used)) s
            = (case res of Inr r \<Rightarrow> resume ph r t | Inl e \<Rightarrow> fail_cycle t)"
      by (simp add: run_async_Cons)
    then show ?thesis by blast
  qed
qed

lemma exchange_in_flight:
  assumes "u_sendRequestAndWaitForResponse request evs (client.truncate s) = (res, rest, c')"
    and "rest \<noteq> []" "cycles s = []"
  shows "\<exists>used t. evs = used @ rest \<and> client.truncate t = c' \<and> cycles t = []
      \<and> run_async (map occ_of used) (begin_exchange request ph s)
          = (case res of Inr r \<Rightarrow> resume ph r t | Inl e \<Rightarrow> fail_cycle t)"
proof -
  have tr: "client.truncate (begin_exchange request ph s)
      = (client.truncate s)\<lparr>trace := trace (client.truncate s) @ [SockWrite request, ResponseTimer 60000]\<rparr>"
    by (simp add: begin_exchange_def client.truncate_def)
  have cy: "cycles (begin_exchange request ph s) = [ph]"
    using assms(3) by (simp add: begin_exchange_def)
  from assms(1) have "await_response evs (client.truncate (begin_exchange request ph s)) = (res, rest, c')"
    by (simp add: u_sendRequestAndWaitForResponse_def tr)
  from await_response_in_flight [OF this assms(2) cy] show ?thesis .
qed

lemma run_async_append: "run_async (xs @ ys) s = run_async ys (run_async xs s)"
  by (simp add: run_async_def)

lemma fail_cycle_truncate:
  "client.truncate (fail_cycle t) =
     (let c'' = (client.truncate t)\<lparr>isConnected := False\<rparr>
      in if \<not> endRequest c'' then c''\<lparr>loopTimeout := Some 5000\<rparr> else c'')"
  and fail_cycle_cycles: "cycles (fail_cycle t) = cycles t"
  by (simp_all add: fail_cycle_def set_loop_timer_def client.truncate_def Let_def)

lemma drain_next_truncate:
  assumes "writeParameters t = [] \<or> endRequest t"
  shows "client.truncate (drain_next t) =
     (let c5 = (client.truncate t)\<lparr>writeRequest := False\<rparr>
      in if \<not> endRequest c5 then c5\<lparr>loopTimeout := Some 1000\<rparr> else c5)"
    and "cycles (drain_next t) = cycles t"
  using assms by (auto simp: drain_next_def set_loop_timer_def client.truncate_def Let_def)

lemma drain_in_flight:
  assumes "drain evs (client.truncate s) = (res, rest, c')" "rest \<noteq> []" "cycles s = []"
  shows "\<exists>used t. evs = used @ rest \<and> client.truncate t = c' \<and> cycles t = []
      \<and> run_async (map occ_of used) (drain_next s)
          = (case res of Inr u \<Rightarrow> drain_next t | Inl e \<Rightarrow> fail_cycle t)
      \<and> (\<not> isl res \<longrightarrow> writeParameters t = [] \<or> endRequest t)"
  using assms
proof (induction "length evs" arbitrary: evs s rule: less_induct)
  case less
  let ?c = "client.truncate s"
  have fields: "writeParameters ?c = writeParameters s" "endRequest ?c = endRequest s"
    by (simp_all add: client.truncate_def)
  show ?case
  proof (cases "writeParameters s \<noteq> [] \<and> \<not> endRequest s")
    case False
    with less.prems(1) have "res = Inr ()" "rest = evs" "c' = ?c"
      by (simp_all add: drain.simps [of evs ?c] fields)
    with False less.prems(3) have "evs = [] @ rest \<and> client.truncate s = c' \<and> cycles s = []
      \<and> run_async (map occ_of []) (drain_next s)
          = (case res of Inr u \<Rightarrow> drain_next s | Inl e \<Rightarrow> fail_cycle s)
      \<and> (\<not> isl res \<longrightarrow> writeParameters s = [] \<or> endRequest s)"
      by (auto simp: run_async_Nil)
    then show ?thesis by blast
  next
    case True
    let ?p = "hd (writeParameters s)"
    have next1: "drain_next s = begin_exchange (getRequest ''DAT'' ''W'' ?p) AwaitWrite s"
      using True by (simp add: drain_next_def)
    obtain r evs1 c1 where ex: "u_set_data ?p evs ?c = (r, evs1, c1)"
      by (cases "u_set_data ?p evs ?c") auto
    note ex' = ex [unfolded u_set_data_def]
    show ?thesis
    proof (cases r)
      case (Inl e)
      with less.prems(1) True ex have out: "res = Inl e" "rest = evs1" "c' = c1"
        by (simp_all add: drain.simps [of evs ?c] fields)
      from less.prems(2) out have "evs1 \<noteq> []"
        by simp
      from exchange_in_flight [OF ex' this less.prems(3), of AwaitWrite] Inl
      obtain used t where "evs = used @ evs1" "client.truncate t = c1" "cycles t = []"
        "run_async (map occ_of used) (begin_exchange (getRequest ''DAT'' ''W'' ?p) AwaitWrite s)
           = fail_cycle t"
        by auto
      with out next1 have "evs = used @ rest \<and> client.truncate t = c' \<and> cycles t = []
        \<and> run_async (map occ_of used) (drain_next s)
            = (case res of Inr u \<Rightarrow> drain_next t | Inl e \<Rightarrow> fail_cycle t)
        \<and> (\<not> isl res \<longrightarrow> writeParameters t = [] \<or> endRequest t)"
        by simp
      then show ?thesis by blast
    next
      case (Inr x)
      let ?c2 = "c1\<lparr>writeParameters := tl (writeParameters c1)\<rparr>"
      from less.prems(1) True ex Inr have rec: "drain evs1 ?c2 = (res, rest, c')"
        by (simp add: drain.simps [of evs ?c] fields)
      from drain_fifo [OF rec] less.prems(2) have ne: "evs1 \<noteq> []"
        by auto
      from ex Inr have shorter: "length evs1 < length evs"
        by (auto dest: u_set_data_shorter)
      from exchange_in_flight [OF ex' ne less.prems(3), of AwaitWrite] Inr
      obtain used1 t1 where one: "evs = used1 @ evs1" "client.truncate t1 = c1" "cycles t1 = []"
        "run_async (map occ_of used1) (begin_exchange (getRequest ''DAT'' ''W'' ?p) AwaitWrite s)
           = resume AwaitWrite x t1"
        by auto
      let ?t2 = "t1\<lparr>writeParameters := tl (writeParameters t1)\<rparr>"
      have tr2: "client.truncate ?t2 = ?c2"
        using one(2) by (auto simp: client.truncate_def)
      have cy2: "cycles ?t2 = []"
        using one(3) by simp
      from less.hyps [OF shorter rec [folded tr2] less.prems(2) cy2]
      obtain used2 t where two: "evs1 = used2 @ rest" "client.truncate t = c'" "cycles t = []"
        "run_async (map occ_of used2) (drain_next ?t2)
           = (case res of Inr u \<Rightarrow> drain_next t | Inl e \<Rightarrow> fail_cycle t)"
        "\<not> isl res \<longrightarrow> writeParameters t = [] \<or> endRequest t"
        by blast
      from one two next1 have "evs = (used1 @ used2) @ rest \<and> client.truncate t = c' \<and> cycles t = []
        \<and> run_async (map occ_of (used1 @ used2)) (drain_next s)
            = (case res of Inr u \<Rightarrow> drain_next t | Inl e \<Rightarrow> fail_cycle t)
        \<and> (\<not> isl res \<longrightarrow> writeParameters t = [] \<or> endRequest t)"
        by (simp add: run_async_append)
      then show ?thesis by blast
    qed
  qed
qed

text \<open>
  A cycle that starts connected and not stopped, with no other cycle in flight, and that
  ends before the events run out: the client is left as \<open>uu_dial\<close> leaves it.
\<close>

lemma uu_dial_in_flight:
  assumes "isConnected s" "\<not> endRequest s" "cycles s = []"
    and "dial_try evs (client.truncate s) = (res, rest, c')" "rest \<noteq> []"
  shows "\<exists>used. evs = used @ rest
      \<and> client.truncate (run_async (map occ_of used) (uu_dial_async s))
          = uu_dial evs (client.truncate s)
      \<and> cycles (run_async (map occ_of used) (uu_dial_async s)) = []"
proof -
  let ?c = "client.truncate s"
  have con: "isConnected ?c" "\<not> endRequest ?c"
    using assms(1,2) by (simp_all add: client.truncate_def)
  have start: "uu_dial_async s = begin_exchange (getRequest ''INF'' ''R'' ['''']) AwaitInfo s"
    using assms(1,2) by (simp add: uu_dial_async_def)
  obtain x1 evs1 c1 where e1: "u_get_data ''INF'' [''''] evs ?c = (x1, evs1, c1)"
    by (cases "u_get_data ''INF'' [''''] evs ?c") auto
  note e1' = e1 [unfolded u_get_data_def]
  show ?thesis
  proof (cases x1)
    case (Inl e)
    with e1 assms(4) have out: "rest = evs1"
      by (simp add: dial_try_def)
    with assms(5) have ne: "evs1 \<noteq> []"
      by simp
    from exchange_in_flight [OF e1' ne assms(3), of AwaitInfo] Inl
    obtain used t where run: "evs = used @ evs1" "client.truncate t = c1" "cycles t = []"
      "run_async (map occ_of used) (begin_exchange (getRequest ''INF'' ''R'' ['''']) AwaitInfo s)
         = fail_cycle t"
      by auto
    have "uu_dial evs ?c = client.truncate (fail_cycle t)"
      using con e1 Inl run(2) by (simp add: uu_dial_def dial_try_def fail_cycle_truncate)
    with run out start have "evs = used @ rest
      \<and> client.truncate (run_async (map occ_of used) (uu_dial_async s)) = uu_dial evs ?c
      \<and> cycles (run_async (map occ_of used) (uu_dial_async s)) = []"
      by (simp add: fail_cycle_cycles)
    then show ?thesis by blast
  next
    case r1: (Inr r1)
    obtain x2 evs2 c2 where
      e2: "u_get_data ''DAT'' [''0''] evs1 (c1\<lparr>info := Some r1\<rparr>) = (x2, evs2, c2)"
      by (cases "u_get_data ''DAT'' [''0''] evs1 (c1\<lparr>info := Some r1\<rparr>)") auto
    from e2 obtain u2 where s2: "evs1 = u2 @ evs2"
      unfolding u_get_data_def by (auto dest: exchange_queue)
    show ?thesis
    proof (cases x2)
      case (Inl e)
      with e1 r1 e2 assms(4) have out: "rest = evs2"
        by (simp add: dial_try_def)
      with assms(5) s2 have ne: "evs1 \<noteq> []" "evs2 \<noteq> []"
        by simp_all
      from exchange_in_flight [OF e1' ne(1) assms(3), of AwaitInfo] r1
      obtain used1 t1 where run1: "evs = used1 @ evs1" "client.truncate t1 = c1" "cycles t1 = []"
        "run_async (map occ_of used1) (begin_exchange (getRequest ''INF'' ''R'' ['''']) AwaitInfo s)
           = resume AwaitInfo r1 t1"
        by auto
      let ?t1 = "t1\<lparr>info := Some r1\<rparr>"
      have tr1: "client.truncate ?t1 = c1\<lparr>info := Some r1\<rparr>" "cycles ?t1 = []"
        using run1(2,3) by (auto simp: client.truncate_def)
      from exchange_in_flight [OF e2 [unfolded u_get_data_def, folded tr1(1)] ne(2) tr1(2), of AwaitData] Inl
      obtain used2 t2 where run2: "evs1 = used2 @ evs2" "client.truncate t2 = c2" "cycles t2 = []"
        "run_async (map occ_of used2) (begin_exchange (getRequest ''DAT'' ''R'' [''0'']) AwaitData ?t1)
           = fail_cycle t2"
        by auto
      have "uu_dial evs ?c = client.truncate (fail_cycle t2)"
        using con e1 r1 e2 Inl run2(2) by (simp add: uu_dial_def dial_try_def fail_cycle_truncate)
      with run1 run2 out start have "evs = (used1 @ used2) @ rest
        \<and> client.truncate (run_async (map occ_of (used1 @ used2)) (uu_dial_async s)) = uu_dial evs ?c
        \<and> cycles (run_async (map occ_of (used1 @ used2)) (uu_dial_async s)) = []"
        by (simp add: fail_cycle_cycles run_async_append)
      then show ?thesis by blast
    next
      case r2: (Inr r2)
      obtain x3 evs3 c3 where
        e3: "u_get_data ''DAT'' [''2''] evs2 (c2\<lparr>data := Some r2\<rparr>) = (x3, evs3, c3)"
        by (cases "u_get_data ''DAT'' [''2''] evs2 (c2\<lparr>data := Some r2\<rparr>)") auto
      from e3 obtain u3 where s3: "evs2 = u3 @ evs3"
        unfolding u_get_data_def by (auto dest: exchange_queue)
      show ?thesis
      proof (cases x3)
        case (Inl e)
        with e1 r1 e2 r2 e3 assms(4) have out: "rest = evs3"
          by (simp add: dial_try_def)
        with assms(5) s2 s3 have ne: "evs1 \<noteq> []" "evs2 \<noteq> []" "evs3 \<noteq> []"
          by simp_all
        from exchange_in_flight [OF e1' ne(1) assms(3), of AwaitInfo] r1
        obtain used1 t1 where run1: "evs = used1 @ evs1" "client.truncate t1 = c1" "cycles t1 = []"
          "run_async (map occ_of used1) (begin_exchange (getRequest ''INF'' ''R'' ['''']) AwaitInfo s)
             = resume AwaitInfo r1 t1"
          by auto
        let ?t1 = "t1\<lparr>info := Some r1\<rparr>"
        have tr1: "client.truncate ?t1 = c1\<lparr>info := Some r1\<rparr>" "cycles ?t1 = []"
          using run1(2,3) by (auto simp: client.truncate_def)
        from exchange_in_flight [OF e2 [unfolded u_get_data_def, folded tr1(1)] ne(2) tr1(2), of AwaitData] r2
        obtain used2 t2 where run2: "evs1 = used2 @ evs2" "client.truncate t2 = c2" "cycles t2 = []"
          "run_async (map occ_of used2) (begin_exchange (getRequest ''DAT'' ''R'' [''0'']) AwaitData ?t1)
             = resume AwaitData r2 t2"
          by auto
        let ?t2 = "t2\<lparr>data := Some r2\<rparr>"
        have tr2: "client.truncate ?t2 = c2\<lparr>data := Some r2\<rparr>" "cycles ?t2 = []"
          using run2(2,3) by (auto simp: client.truncate_def)
        from exchange_in_flight [OF e3 [unfolded u_get_data_def, folded tr2(1)] ne(3) tr2(2), of AwaitData2] Inl
        obtain used3 t3 where run3: "evs2 = used3 @ evs3" "client.truncate t3 = c3" "cycles t3 = []"
          "run_async (map occ_of used3) (begin_exchange (getRequest ''DAT'' ''R'' [''2'']) AwaitData2 ?t2)
             = fail_cycle t3"
          by auto
        have "uu_dial evs ?c = client.truncate (fail_cycle t3)"
          using con e1 r1 e2 r2 e3 Inl run3(2)
          by (simp add: uu_dial_def dial_try_def fail_cycle_truncate)
        with run1 run2 run3 out start have "evs = (used1 @ used2 @ used3) @ rest
          \<and> client.truncate (run_async (map occ_of (used1 @ used2 @ used3)) (uu_dial_async s))
              = uu_dial evs ?c
          \<and> cycles (run_async (map occ_of (used1 @ used2 @ used3)) (uu_dial_async s)) = []"
          by (simp add: fail_cycle_cycles run_async_append)
        then show ?thesis by blast
      next
        case r3: (Inr r3)
        obtain x4 evs4 c4 where d: "drain evs3 (c3\<lparr>data2 := Some r3\<rparr>) = (x4, evs4, c4)"
          by (cases "drain evs3 (c3\<lparr>data2 := Some r3\<rparr>)") auto
        from drain_fifo [OF d] obtain u4 where s4: "evs3 = u4 @ evs4"
          by auto
        from e1 r1 e2 r2 e3 r3 d assms(4) have out: "rest = evs4"
          by (simp add: dial_try_def Let_def split: sum.splits)
        with assms(5) s2 s3 s4 have ne: "evs1 \<noteq> []" "evs2 \<noteq> []" "evs3 \<noteq> []" "evs4 \<noteq> []"
          by simp_all
        from exchange_in_flight [OF e1' ne(1) assms(3), of AwaitInfo] r1
        obtain used1 t1 where run1: "evs = used1 @ evs1" "client.truncate t1 = c1" "cycles t1 = []"
          "run_async (map occ_of used1) (begin_exchange (getRequest ''INF'' ''R'' ['''']) AwaitInfo s)
             = resume AwaitInfo r1 t1"
          by auto
        let ?t1 = "t1\<lparr>info := Some r1\<rparr>"
        have tr1: "client.truncate ?t1 = c1\<lparr>info := Some r1\<rparr>" "cycles ?t1 = []"
          using run1(2,3) by (auto simp: client.truncate_def)
        from exchange_in_flight [OF e2 [unfolded u_get_data_def, folded tr1(1)] ne(2) tr1(2), of AwaitData] r2
        obtain used2 t2 where run2: "evs1 = used2 @ evs2" "client.truncate t2 = c2" "cycles t2 = []"
          "run_async (map occ_of used2) (begin_exchange (getRequest ''DAT'' ''R'' [''0'']) AwaitData ?t1)
             = resume AwaitData r2 t2"
          by auto
        let ?t2 = "t2\<lparr>data := Some r2\<rparr>"
        have tr2: "client.truncate ?t2 = c2\<lparr>data := Some r2\<rparr>" "cycles ?t2 = []"
          using run2(2,3) by (auto simp: client.truncate_def)
        from exchange_in_flight [OF e3 [unfolded u_get_data_def, folded tr2(1)] ne(3) tr2(2), of AwaitData2] r3
        obtain used3 t3 where run3: "evs2 = used3 @ evs3" "client.truncate t3 = c3" "cycles t3 = []"
          "run_async (map occ_of used3) (begin_exchange (getRequest ''DAT'' ''R'' [''2'']) AwaitData2 ?t2)
             = resume AwaitData2 r3 t3"
          by auto
        let ?t3 = "t3\<lparr>data2 := Some r3\<rparr>"
        have tr3: "client.truncate ?t3 = c3\<lparr>data2 := Some r3\<rparr>" "cycles ?t3 = []"
          using run3(2,3) by (auto simp: client.truncate_def)
        from drain_in_flight [OF d [folded tr3(1)] ne(4) tr3(2)]
        obtain used4 t4 where run4: "evs3 = used4 @ evs4" "client.truncate t4 = c4" "cycles t4 = []"
          "run_async (map occ_of used4) (drain_next ?t3)
             = (case x4 of Inr u \<Rightarrow> drain_next t4 | Inl e \<Rightarrow> fail_cycle t4)"
          "\<not> isl x4 \<longrightarrow> writeParameters t4 = [] \<or> endRequest t4"
          by blast
        have fin: "uu_dial evs ?c
            = client.truncate (case x4 of Inr u \<Rightarrow> drain_next t4 | Inl e \<Rightarrow> fail_cycle t4)
          \<and> cycles (case x4 of Inr u \<Rightarrow> drain_next t4 | Inl e \<Rightarrow> fail_cycle t4) = []"
        proof (cases x4)
          case (Inl e)
          with con e1 r1 e2 r2 e3 r3 d run4(2,3) show ?thesis
            by (simp add: uu_dial_def dial_try_def fail_cycle_truncate fail_cycle_cycles)
        next
          case (Inr u)
          with run4(5) have "writeParameters t4 = [] \<or> endRequest t4"
            by simp
          from drain_next_truncate [OF this] con e1 r1 e2 r2 e3 r3 d Inr run4(2,3) show ?thesis
            by (simp add: uu_dial_def dial_try_def Let_def)
        qed
        with fin run1 run2 run3 run4(1,4) out start have "evs = (used1 @ used2 @ used3 @ used4) @ rest
          \<and> client.truncate (run_async (map occ_of (used1 @ used2 @ used3 @ used4)) (uu_dial_async s))
              = uu_dial evs ?c
          \<and> cycles (run_async (map occ_of (used1 @ used2 @ used3 @ used4)) (uu_dial_async s)) = []"
          by (simp add: run_async_append)
        then show ?thesis by blast
      qed
    qed
  qed
qed

subsection \<open>Worked runs\<close>

text \<open>
  The client connects (\<open>EISCONN\<close>), the 1000 ms timer fires and a cycle starts; three
  lines answer the three reads.
\<close>

lemma one_cycle_in_flight:
  "info (run_async
      [DoStart (ConnectThrows True), OnLoopTimer 0 ConnectPending,
       OnData ''A;1\<newline>'', OnData ''B;2\<newline>'', OnData ''C;3\<newline>''] new_session) = Some [''A'', ''1'']
   \<and> data (run_async
      [DoStart (ConnectThrows True), OnLoopTimer 0 ConnectPending,
       OnData ''A;1\<newline>'', OnData ''B;2\<newline>'', OnData ''C;3\<newline>''] new_session) = Some [''B'', ''2'']
   \<and> data2 (run_async
      [DoStart (ConnectThrows True), OnLoopTimer 0 ConnectPending,
       OnData ''A;1\<newline>'', OnData ''B;2\<newline>'', OnData ''C;3\<newline>''] new_session) = Some [''C'', ''3'']
   \<and> writes (trace (run_async
      [DoStart (ConnectThrows True), OnLoopTimer 0 ConnectPending,
       OnData ''A;1\<newline>'', OnData ''B;2\<newline>'', OnData ''C;3\<newline>''] new_session))
       = [getRequest ''INF'' ''R'' [''''], getRequest ''DAT'' ''R'' [''0''],
          getRequest ''DAT'' ''R'' [''2'']]
   \<and> cycles (run_async
      [DoStart (ConnectThrows True), OnLoopTimer 0 ConnectPending,
       OnData ''A;1\<newline>'', OnData ''B;2\<newline>'', OnData ''C;3\<newline>''] new_session) = []
   \<and> loopTimers (run_async
      [DoStart (ConnectThrows True), OnLoopTimer 0 ConnectPending,
       OnData ''A;1\<newline>'', OnData ''B;2\<newline>'', OnData ''C;3\<newline>''] new_session) = [1000]"
  by (simp add: run_async_def new_session_def start_async_def loop_async_def
      clear_loop_timer_def uu_connect_async_def uu_dial_async_def begin_exchange_def
      set_loop_timer_def expire_def onData_def u_extractData_def resume_all_def drain_next_def
      Let_def)

subsection \<open>Two cycles together\<close>

text \<open>
  With two cycles in flight and an empty buffer, a chunk that holds a line resolves both
  exchanges with that line, and both cycles continue, the one whose listener was added
  first going first.
\<close>

lemma react_data_two_cycles:
  assumes "cycles s = [ph1, ph2]" "responseBuffer s = []" "CHR 0x0A \<in> set chunk"
  shows "react (OnData chunk) s =
     resume ph2 (u_extractData (takeWhile (\<lambda>x. x \<noteq> CHR 0x0A) chunk))
       (resume ph1 (u_extractData (takeWhile (\<lambda>x. x \<noteq> CHR 0x0A) chunk))
          (s\<lparr>responseBuffer := [], cycles := []\<rparr>))"
  using assms by (simp add: onData_complete resume_all_def)

text \<open>
  Two cycles both wait for the answer to the write of the first entry. When the line
  arrives each removes one entry: the second entry leaves the queue as its request is
  written, before any answer to it.
\<close>

lemma two_cycles_shift_twice:
  assumes "cycles s = [AwaitWrite, AwaitWrite]" "responseBuffer s = []" "CHR 0x0A \<in> set chunk"
    and "\<not> endRequest s" "writeParameters s = a # b # rest"
  shows "writeParameters (react (OnData chunk) s) = rest
       \<and> writes (trace (react (OnData chunk) s))
           = writes (trace s) @ getRequest ''DAT'' ''W'' b
               # (if rest = [] then [] else [getRequest ''DAT'' ''W'' (hd rest)])"
proof -
  note step = react_data_two_cycles [OF assms(1) assms(2) assms(3)]
  show ?thesis
    unfolding step using assms(4) assms(5)
    by (simp add: drain_next_def begin_exchange_def set_loop_timer_def writes_append Let_def)
qed

text \<open>
  C3 fails in \<open>client.ts\<close>. \<open>start\<close> asks the socket to connect and the socket reports an
  error and closes, which leaves the \<open>connectHandler\<close> of that attempt registered;
  \<open>start\<close> is called again and two commands are queued; the socket connects. Both
  handlers call \<open>loop\<close> and two cycles run together: every read and the first command are
  written twice, and when the first command is answered each cycle removes one entry, so
  the second command leaves the queue while its exchange has only just been written. The
  socket then reports an error: that exchange fails, the queue is empty, and the second
  command, never answered, is not retried.
\<close>

theorem overlapping_cycles_drop_entry:
  "writes (trace (run_async
      [DoStart ConnectPending, OnError, OnClose, DoStart ConnectPending,
       DoSendCommand [''4'', ''215''], DoSendCommand [''1'', ''1''], OnConnect ConnectPending,
       OnData ''i\<newline>'', OnData ''d\<newline>'', OnData ''e\<newline>'', OnData ''ok\<newline>''] new_session))
     = [getRequest ''INF'' ''R'' [''''], getRequest ''INF'' ''R'' [''''],
        getRequest ''DAT'' ''R'' [''0''], getRequest ''DAT'' ''R'' [''0''],
        getRequest ''DAT'' ''R'' [''2''], getRequest ''DAT'' ''R'' [''2''],
        getRequest ''DAT'' ''W'' [''4'', ''215''], getRequest ''DAT'' ''W'' [''4'', ''215''],
        getRequest ''DAT'' ''W'' [''1'', ''1'']]
   \<and> cycles (run_async
      [DoStart ConnectPending, OnError, OnClose, DoStart ConnectPending,
       DoSendCommand [''4'', ''215''], DoSendCommand [''1'', ''1''], OnConnect ConnectPending,
       OnData ''i\<newline>'', OnData ''d\<newline>'', OnData ''e\<newline>'', OnData ''ok\<newline>''] new_session)
     = [AwaitWrite]
   \<and> writeParameters (run_async
      [DoStart ConnectPending, OnError, OnClose, DoStart ConnectPending,
       DoSendCommand [''4'', ''215''], DoSendCommand [''1'', ''1''], OnConnect ConnectPending,
       OnData ''i\<newline>'', OnData ''d\<newline>'', OnData ''e\<newline>'', OnData ''ok\<newline>''] new_session)
     = []
   \<and> writeParameters (run_async
      [DoStart ConnectPending, OnError, OnClose, DoStart ConnectPending,
       DoSendCommand [''4'', ''215''], DoSendCommand [''1'', ''1''], OnConnect ConnectPending,
       OnData ''i\<newline>'', OnData ''d\<newline>'', OnData ''e\<newline>'', OnData ''ok\<newline>'',
       OnError] new_session)
     = []
   \<and> cycles (run_async
      [DoStart ConnectPending, OnError, OnClose, DoStart ConnectPending,
       DoSendCommand [''4'', ''215''], DoSendCommand [''1'', ''1''], OnConnect ConnectPending,
       OnData ''i\<newline>'', OnData ''d\<newline>'', OnData ''e\<newline>'', OnData ''ok\<newline>'',
       OnError] new_session)
     = []
   \<and> writes (trace (run_async
      [DoStart ConnectPending, OnError, OnClose, DoStart ConnectPending,
       DoSendCommand [''4'', ''215''], DoSendCommand [''1'', ''1''], OnConnect ConnectPending,
       OnData ''i\<newline>'', OnData ''d\<newline>'', OnData ''e\<newline>'', OnData ''ok\<newline>'',
       OnError] new_session))
     = [getRequest ''INF'' ''R'' [''''], getRequest ''INF'' ''R'' [''''],
        getRequest ''DAT'' ''R'' [''0''], getRequest ''DAT'' ''R'' [''0''],
        getRequest ''DAT'' ''R'' [''2''], getRequest ''DAT'' ''R'' [''2''],
        getRequest ''DAT'' ''W'' [''4'', ''215''], getRequest ''DAT'' ''W'' [''4'', ''215''],
        getRequest ''DAT'' ''W'' [''1'', ''1'']]
   \<and> loopTimers (run_async
      [DoStart ConnectPending, OnError, OnClose, DoStart ConnectPending,
       DoSendCommand [''4'', ''215''], DoSendCommand [''1'', ''1''], OnConnect ConnectPending,
       OnData ''i\<newline>'', OnData ''d\<newline>'', OnData ''e\<newline>'', OnData ''ok\<newline>'',
       OnError] new_session)
     = [1000, 5000]"
  by (simp add: run_async_def new_session_def start_async_def loop_async_def
      clear_loop_timer_def uu_connect_async_def uu_dial_async_def begin_exchange_def
      set_loop_timer_def fail_cycle_def sendCommand_def onData_def u_extractData_def
      resume_all_def drain_next_def numeral_2_eq_2 Let_def)

text \<open>
  The second client file reaches the same state without a second call of \<open>start\<close>: the
  \<open>'error'\<close> listener of the refused attempt sets the timer that retries, and the callback
  of the refused attempt is still registered when the socket connects.
\<close>

lemma second_file_overlap:
  "writes (trace (run_async0
      [DoStart ConnectPending, OnError, OnClose, OnLoopTimer 0 ConnectPending,
       DoSendCommand [''4'', ''215''], DoSendCommand [''1'', ''1''], OnConnect ConnectPending,
       OnData ''i\<newline>'', OnData ''d\<newline>'', OnData ''e\<newline>'', OnData ''ok\<newline>''] new_session0))
     = [getRequest ''INF'' ''R'' [''''], getRequest ''INF'' ''R'' [''''],
        getRequest ''DAT'' ''R'' [''0''], getRequest ''DAT'' ''R'' [''0''],
        getRequest ''DAT'' ''R'' [''2''], getRequest ''DAT'' ''R'' [''2''],
        getRequest ''DAT'' ''W'' [''4'', ''215''], getRequest ''DAT'' ''W'' [''4'', ''215''],
        getRequest ''DAT'' ''W'' [''1'', ''1'']]
   \<and> cycles0 (run_async0
      [DoStart ConnectPending, OnError, OnClose, OnLoopTimer 0 ConnectPending,
       DoSendCommand [''4'', ''215''], DoSendCommand [''1'', ''1''], OnConnect ConnectPending,
       OnData ''i\<newline>'', OnData ''d\<newline>'', OnData ''e\<newline>'', OnData ''ok\<newline>''] new_session0)
     = [AwaitWrite]
   \<and> writeParameters (run_async0
      [DoStart ConnectPending, OnError, OnClose, OnLoopTimer 0 ConnectPending,
       DoSendCommand [''4'', ''215''], DoSendCommand [''1'', ''1''], OnConnect ConnectPending,
       OnData ''i\<newline>'', OnData ''d\<newline>'', OnData ''e\<newline>'', OnData ''ok\<newline>''] new_session0)
     = []
   \<and> writeParameters (run_async0
      [DoStart ConnectPending, OnError, OnClose, OnLoopTimer 0 ConnectPending,
       DoSendCommand [''4'', ''215''], DoSendCommand [''1'', ''1''], OnConnect ConnectPending,
       OnData ''i\<newline>'', OnData ''d\<newline>'', OnData ''e\<newline>'', OnData ''ok\<newline>'',
       OnResponseTimer 0] new_session0)
     = []"
  by (simp add: run_async0_def new_session0_def start_async0_def loop_async0_def
      uu_connect_async0_def uu_dial_async0_def begin_exchange0_def fail_cycle0_def
      sendCommand_def onData_def u_extractData_def resume_all0_def drain_next0_def
      numeral_2_eq_2 Let_def)

text \<open>
  With one queued command the two cycles of the second file write eight frames, where one
  cycle writes four.
\<close>

lemma second_file_eight_frames:
  "writes (trace (run_async0
      [DoStart ConnectPending, OnError, OnClose, OnLoopTimer 0 ConnectPending,
       DoSendCommand [''4'', ''215''], OnConnect ConnectPending,
       OnData ''i\<newline>'', OnData ''d\<newline>'', OnData ''e\<newline>'', OnData ''ok\<newline>''] new_session0))
     = [getRequest ''INF'' ''R'' [''''], getRequest ''INF'' ''R'' [''''],
        getRequest ''DAT'' ''R'' [''0''], getRequest ''DAT'' ''R'' [''0''],
        getRequest ''DAT'' ''R'' [''2''], getRequest ''DAT'' ''R'' [''2''],
        getRequest ''DAT'' ''W'' [''4'', ''215''], getRequest ''DAT'' ''W'' [''4'', ''215'']]
   \<and> timers (run_async0
      [DoStart ConnectPending, OnError, OnClose, OnLoopTimer 0 ConnectPending,
       DoSendCommand [''4'', ''215''], OnConnect ConnectPending,
       OnData ''i\<newline>'', OnData ''d\<newline>'', OnData ''e\<newline>'', OnData ''ok\<newline>''] new_session0)
     = [1000, 1000]"
  by (simp add: run_async0_def new_session0_def start_async0_def loop_async0_def
      uu_connect_async0_def uu_dial_async0_def begin_exchange0_def fail_cycle0_def
      sendCommand_def onData_def u_extractData_def resume_all0_def drain_next0_def
      numeral_2_eq_2 Let_def)

section \<open>Stopping\<close>

lemma stop_effect:
  "endRequest (stop c) \<and> loopTimeout (stop c) = None \<and> \<not> isConnected (stop c)
   \<and> trace (stop c) = trace c @ [SockEnd]"
  by (simp add: stop_def uu_disconnect_def Let_def)

text \<open>A second \<open>stop\<close> changes nothing but asks the socket to end once more.\<close>

lemma stop_idempotent: "stop (stop c) = (stop c)\<lparr>trace := trace (stop c) @ [SockEnd]\<rparr>"
  by (simp add: stop_def uu_disconnect_def Let_def)

lemma step_stopped:
  assumes "endRequest c" "\<not> is_Start i"
  shows "endRequest (step i c) \<and> attempts (trace (step i c)) = attempts (trace c)"
  using assms
  by (cases i)
     (simp_all add: stop_def uu_disconnect_def sendCommand_def loop_def Let_def attempts_append)

lemma run_stopped:
  assumes "endRequest c" "\<forall>i \<in> set inputs. \<not> is_Start i"
  shows "attempts (trace (run inputs c)) = attempts (trace c)"
  using assms
proof (induction inputs arbitrary: c)
  case Nil
  then show ?case by (simp add: run_def)
next
  case (Cons i inputs)
  from Cons.prems step_stopped [of c i]
  have "endRequest (step i c)" "attempts (trace (step i c)) = attempts (trace c)"
    by simp_all
  with Cons.IH [of "step i c"] Cons.prems show ?case
    by (simp add: run_def)
qed

text \<open>
  In \<open>client.ts\<close>, after \<open>stop\<close> and until \<open>start\<close> is called again, no timer, socket event
  or other call makes the client connect or write.
\<close>

lemma stop_quiet:
  assumes "\<forall>i \<in> set inputs. \<not> is_Start i"
  shows "attempts (trace (run inputs (stop c))) = attempts (trace c)"
  using run_stopped [OF _ assms, of "stop c"] stop_effect [of c]
  by (simp add: attempts_append)

text \<open>
  C6 fails in the second client file. \<open>start\<close> begins a connection, the socket reports an
  error and the listener of \<open>__connect\<close> sets the 5000 ms timer, \<open>stop\<close> is called while
  that timer is pending, the timer fires: \<open>loop\<close> does not look at the stop flag and
  \<open>__connect\<close> asks the socket to connect again.
\<close>

theorem stop0_then_timer_connects:
  "trace (run0 [Start ConnectPending [], ErrorEvent, Stop] new_client0) = [SockConnect, SockEnd]
   \<and> timers (run0 [Start ConnectPending [], ErrorEvent, Stop] new_client0) = [5000]
   \<and> endRequest (run0 [Start ConnectPending [], ErrorEvent, Stop] new_client0)
   \<and> trace (run0 [Start ConnectPending [], ErrorEvent, Stop, TimerFires ConnectPending []]
        new_client0) = [SockConnect, SockEnd, SockConnect]"
  by (simp add: run0_def start0_def loop0_def uu_connect0_def on_error0_def stop0_def
      new_client0_def Let_def)

lemma stop_then_timer_quiet:
  "trace (run [Start (ConnectThrows False) [], Stop, TimerFires ConnectPending []] new_client)
     = [SockConnect, SockEnd]"
  by (simp add: run_def start_def loop_def uu_connect_def stop_def uu_disconnect_def
      new_client_def Let_def)

section \<open>Properties of the accessors\<close>

lemma returning_simps [simp]:
  "returning (Inl e) f = Inl e" "returning (Inr v) f = Inr (f v)"
  by (simp_all add: returning_def)

lemma element_Some:
  "i < length xs \<Longrightarrow> element (Some xs) i = Inr (Str (xs ! i))"
  by (simp add: element_def)

subsection \<open>Absent snapshots\<close>

lemma infoStrings_unavailable:
  "info c = None \<Longrightarrow> \<forall>f \<in> set (infoStrings K). f c = Inr Null"
  by (simp add: infoStrings_def accessor_defs)

lemma dataStrings_unavailable:
  "data c = None \<Longrightarrow> \<forall>f \<in> set (dataStrings K). f c = Inr Null"
  by (simp add: dataStrings_def accessor_defs)

lemma data2Strings_unavailable:
  "data2 c = None \<Longrightarrow> \<forall>f \<in> set (data2Strings K). f c = Inr Null"
  by (simp add: data2Strings_def accessor_defs)

lemma dataFloats_unavailable:
  "data c = None \<Longrightarrow> \<forall>f \<in> set (dataFloats parseFloat K). f c = Inr None"
  by (simp add: dataFloats_def accessor_defs)

lemma data2Floats_unavailable:
  "data2 c = None \<Longrightarrow> \<forall>f \<in> set (data2Floats parseFloat K). f c = Inr None"
  by (simp add: data2Floats_def accessor_defs)

lemma dataInts_unavailable:
  "data c = None \<Longrightarrow> \<forall>f \<in> set (dataInts K). f c = Inr None"
  by (simp add: dataInts_def accessor_defs)

lemma dataBooleans_unavailable:
  "data c = None \<Longrightarrow> \<forall>f \<in> set (dataBooleans K). f c = Inr False"
  by (simp add: dataBooleans_def accessor_defs)

lemma featureFlags_unavailable:
  "data c = None \<Longrightarrow>
   u_getStoveTypeBitArray K c = Inr (replicate 16 False)
   \<and> (\<forall>f \<in> set (featureFlags K). f c = Inr False) \<and> getFanNumber K c = Inr 0"
  by (simp add: featureFlags_def accessor_defs)

lemma state_unavailable:
  "data c = None \<Longrightarrow>
   u_getStoveType K c = Inr None \<and> u_getStoveState K c = Inr (Str ''not_connected'')
   \<and> getAction K c = Inr (Str ''not_connected'')"
  by (simp add: accessor_defs orEmpty_def)

lemma booleans_off:
  assumes "data c = Some d" "StoveRegisters K name < length d" "d ! StoveRegisters K name \<noteq> ''1''"
  shows "returning (returning (element (data c) (StoveRegisters K name))
            (\<lambda>v. Str (if v = Str ''1'' then ''on'' else ''off''))) (\<lambda>v. v = Str ''on'') = Inr False"
  using assms by (simp add: element_Some)

text \<open>
  C10. With the snapshot it reads absent, every accessor returns and none throws. The
  accessors of type \<open>string | null\<close> and the numeric getters return \<open>null\<close>;
  \<open>_getStoveState\<close> (and \<open>getAction\<close> after it) returns the string \<open>not_connected\<close>;
  \<open>getIsOn\<close>, \<open>getEcoMode\<close> and \<open>getChronoMode\<close> return \<open>false\<close>, as they do for a
  present snapshot whose field is not \<open>1\<close>; the feature queries return \<open>false\<close> and the fan
  count 0.
\<close>

theorem accessors_unavailable:
  "(info c = None \<longrightarrow> (\<forall>f \<in> set (infoStrings K). f c = Inr Null))
   \<and> (data c = None \<longrightarrow>
        (\<forall>f \<in> set (dataStrings K). f c = Inr Null)
        \<and> u_getStoveType K c = Inr None
        \<and> u_getStoveState K c = Inr (Str ''not_connected'')
        \<and> getAction K c = Inr (Str ''not_connected'')
        \<and> (\<forall>f \<in> set (dataBooleans K). f c = Inr False)
        \<and> (\<forall>f \<in> set (dataFloats parseFloat K). f c = Inr None)
        \<and> (\<forall>f \<in> set (dataInts K). f c = Inr None)
        \<and> u_getStoveTypeBitArray K c = Inr (replicate 16 False)
        \<and> (\<forall>f \<in> set (featureFlags K). f c = Inr False)
        \<and> getFanNumber K c = Inr 0)
   \<and> (data2 c = None \<longrightarrow>
        (\<forall>f \<in> set (data2Strings K). f c = Inr Null)
        \<and> (\<forall>f \<in> set (data2Floats parseFloat K). f c = Inr None)
        \<and> getWaterPump K c = Inr None)
   \<and> (data c = Some d \<and> StoveRegisters K ''INDEX_STOVE_ON'' < length d
        \<and> d ! StoveRegisters K ''INDEX_STOVE_ON'' \<noteq> ''1'' \<longrightarrow> getIsOn K c = Inr False)
   \<and> (data c = Some d \<and> StoveRegisters K ''INDEX_ECO_MODE'' < length d
        \<and> d ! StoveRegisters K ''INDEX_ECO_MODE'' \<noteq> ''1'' \<longrightarrow> getEcoMode K c = Inr False)
   \<and> (data c = Some d \<and> StoveRegisters K ''INDEX_TIMER_ON'' < length d
        \<and> d ! StoveRegisters K ''INDEX_TIMER_ON'' \<noteq> ''1'' \<longrightarrow> getChronoMode K c = Inr False)"
    (is "?info \<and> ?data \<and> ?data2 \<and> ?on \<and> ?eco \<and> ?chrono")
proof -
  have 1: ?info
    using infoStrings_unavailable [of c K] by blast
  have 2: ?data
    using dataStrings_unavailable [of c K] state_unavailable [of c K]
      dataBooleans_unavailable [of c K] dataFloats_unavailable [of c parseFloat K]
      dataInts_unavailable [of c K] featureFlags_unavailable [of c K]
    by blast
  have 3: ?data2
    using data2Strings_unavailable [of c K] data2Floats_unavailable [of c parseFloat K]
    by (simp add: getWaterPump_def u_getGenericPump_def)
  have 4: ?on
    using booleans_off [of c d K "''INDEX_STOVE_ON''"]
    by (simp add: getIsOn_def u_getStoveIsOn_def)
  have 5: ?eco
    using booleans_off [of c d K "''INDEX_ECO_MODE''"]
    by (simp add: getEcoMode_def u_getEcoMode_def)
  have 6: ?chrono
    using booleans_off [of c d K "''INDEX_TIMER_ON''"]
    by (simp add: getChronoMode_def u_getChronoMode_def)
  from 1 2 3 4 5 6 show ?thesis
    by (intro conjI)
qed

theorem accessors_unavailable_witness:
  "u_getFirmwareVersion sample_constants new_client = Inr Null
   \<and> u_getStoveIsOn sample_constants new_client = Inr Null
   \<and> u_getStoveState sample_constants new_client = Inr (Str ''not_connected'')
   \<and> getIsOn sample_constants new_client = Inr False
   \<and> getEcoMode sample_constants new_client = Inr False
   \<and> getChronoMode sample_constants new_client = Inr False
   \<and> getSmokeTemperature (\<lambda>v. 0 :: int) sample_constants new_client = Inr None
   \<and> u_getFlowSwitch sample_constants new_client = Inr Null
   \<and> getWaterPump sample_constants new_client = Inr None
   \<and> getIsOn sample_constants
        (new_client\<lparr>data := Some [''0'', ''1'', ''2'', ''3'', ''4'', ''5'', ''0'']\<rparr>) = Inr False"
proof -
  have absent: "info new_client = None" "data new_client = None" "data2 new_client = None"
    by (simp_all add: new_client_def)
  let ?c = "new_client\<lparr>data := Some [''0'', ''1'', ''2'', ''3'', ''4'', ''5'', ''0'']\<rparr>"
  have present: "data ?c = Some [''0'', ''1'', ''2'', ''3'', ''4'', ''5'', ''0'']"
    "StoveRegisters sample_constants ''INDEX_STOVE_ON'' = 6"
    by (simp_all add: sample_constants_def)
  from accessors_unavailable [of new_client sample_constants "\<lambda>v. 0 :: int" "[]"] absent
    accessors_unavailable [of ?c sample_constants "\<lambda>v. 0 :: int"
      "[''0'', ''1'', ''2'', ''3'', ''4'', ''5'', ''0'']"] present
  show ?thesis
    by (simp add: infoStrings_def dataStrings_def data2Strings_def dataBooleans_def
        dataFloats_def data2Floats_def)
qed

text \<open>A temperature field \<open>215\<close> reads as \<open>21.5\<close>.\<close>

lemma toStringTenths_215: "toStringTenths (parseInt (Str ''215'')) = ''21.5''"
  by (simp add: parseInt_def isWhiteSpace_def digitValue_def toStringTenths_def
      toStringDecimal.simps [of 21] toStringDecimal.simps [of 2] decimalDigit_def)

subsection \<open>The stove state\<close>

lemma find_first_label:
  assumes "distinct (map (\<lambda>(label, name). g label) xs)" "(a, b) \<in> set xs"
  shows "find (\<lambda>(label, name). Num (g a) = Num (g label)) xs = Some (a, b)"
  using assms
proof (induction xs)
  case Nil
  then show ?case by simp
next
  case (Cons x xs)
  obtain l n where x: "x = (l, n)"
    by (cases x)
  show ?case
  proof (cases "(a, b) = x")
    case True
    then show ?thesis by (simp add: x)
  next
    case False
    with Cons.prems have mem: "(a, b) \<in> set xs"
      by simp
    then have "g a \<in> (\<lambda>(label, name). g label) ` set xs"
      by force
    with Cons.prems(1) have "g l \<noteq> g a"
      by (auto simp: x)
    with Cons.IH mem Cons.prems(1) show ?thesis
      by (simp add: x)
  qed
qed

text \<open>
  C9 (amended). Given a present data snapshot that has the stove-state field, the lookup
  maps every one of the twenty-one numeric codes of the \<open>switch\<close> (distinct codes assumed)
  to its state name, and any other value of the field, numeric or not, comes back as the
  raw string of the field.
\<close>

theorem u_getStoveState_lookup:
  assumes "data c = Some d" "StoveRegisters K ''INDEX_STOVE_STATE'' < length d"
    and "distinct (map (\<lambda>(label, name). StoveState K label) stoveStateCases)"
  shows "(\<forall>(label, name) \<in> set stoveStateCases.
            parseInt (Str (d ! StoveRegisters K ''INDEX_STOVE_STATE'')) = Num (StoveState K label)
            \<longrightarrow> u_getStoveState K c = Inr (Str name))
     \<and> ((\<forall>(label, name) \<in> set stoveStateCases.
            parseInt (Str (d ! StoveRegisters K ''INDEX_STOVE_STATE'')) \<noteq> Num (StoveState K label))
          \<longrightarrow> u_getStoveState K c = Inr (Str (d ! StoveRegisters K ''INDEX_STOVE_STATE'')))
     \<and> length stoveStateCases = 21"
proof (intro conjI)
  let ?raw = "d ! StoveRegisters K ''INDEX_STOVE_STATE''"
  have el: "element (data c) (StoveRegisters K ''INDEX_STOVE_STATE'') = Inr (Str ?raw)"
    using assms(1,2) by (simp add: element_Some)
  show "\<forall>(label, name) \<in> set stoveStateCases.
      parseInt (Str ?raw) = Num (StoveState K label) \<longrightarrow> u_getStoveState K c = Inr (Str name)"
  proof (intro ballI, clarify)
    fix label name
    assume mem: "(label, name) \<in> set stoveStateCases"
      and st: "parseInt (Str ?raw) = Num (StoveState K label)"
    from find_first_label [OF assms(3) mem]
    show "u_getStoveState K c = Inr (Str name)"
      using assms(1) el st by (simp add: u_getStoveState_def)
  qed
  show "(\<forall>(label, name) \<in> set stoveStateCases. parseInt (Str ?raw) \<noteq> Num (StoveState K label))
      \<longrightarrow> u_getStoveState K c = Inr (Str ?raw)"
  proof
    assume "\<forall>(label, name) \<in> set stoveStateCases. parseInt (Str ?raw) \<noteq> Num (StoveState K label)"
    then have "find (\<lambda>(label, name). parseInt (Str ?raw) = Num (StoveState K label))
        stoveStateCases = None"
      by (auto simp: find_None_iff)
    then show "u_getStoveState K c = Inr (Str ?raw)"
      using assms(1) el by (simp add: u_getStoveState_def)
  qed
  show "length stoveStateCases = 21"
    by (simp add: stoveStateCases_def)
qed

lemma parseInt_5: "parseInt (Str ''5'') = Num 5"
  by (simp add: parseInt_def isWhiteSpace_def digitValue_def)

lemma parseInt_77: "parseInt (Str ''77'') = Num 77"
  by (simp add: parseInt_def isWhiteSpace_def digitValue_def)

lemma sample_states:
  "map (\<lambda>(label, name). StoveState sample_constants label) stoveStateCases = map int [0 ..< 21]"
  by (simp add: sample_constants_def stoveStateCases_def upt_rec)

theorem u_getStoveState_lookup_witness:
  "u_getStoveState sample_constants
     (new_client\<lparr>data := Some [''0'', ''1'', ''2'', ''3'', ''4'', ''5'', ''0'']\<rparr>)
     = Inr (Str ''starting_5_waiting'')
   \<and> u_getStoveState sample_constants
     (new_client\<lparr>data := Some [''0'', ''1'', ''2'', ''3'', ''4'', ''77'', ''0'']\<rparr>)
     = Inr (Str ''77'')"
proof -
  let ?c = "new_client\<lparr>data := Some [''0'', ''1'', ''2'', ''3'', ''4'', ''5'', ''0'']\<rparr>"
  let ?c' = "new_client\<lparr>data := Some [''0'', ''1'', ''2'', ''3'', ''4'', ''77'', ''0'']\<rparr>"
  have i: "StoveRegisters sample_constants ''INDEX_STOVE_STATE'' = 5"
    by (simp add: sample_constants_def)
  have dist: "distinct (map (\<lambda>(label, name). StoveState sample_constants label) stoveStateCases)"
    unfolding sample_states by (simp add: distinct_map)
  have codes: "StoveState sample_constants ''STATUS_STARTING_5'' = 5"
    "\<forall>(label, name) \<in> set stoveStateCases. Num 77 \<noteq> Num (StoveState sample_constants label)"
    by (simp_all add: sample_constants_def stoveStateCases_def upt_rec)
  have "(''STATUS_STARTING_5'', ''starting_5_waiting'') \<in> set stoveStateCases"
    by (simp add: stoveStateCases_def)
  with u_getStoveState_lookup [of ?c "[''0'', ''1'', ''2'', ''3'', ''4'', ''5'', ''0'']"
      sample_constants, OF _ _ dist] i codes parseInt_5
  have 1: "u_getStoveState sample_constants ?c = Inr (Str ''starting_5_waiting'')"
    by fastforce
  from u_getStoveState_lookup [of ?c' "[''0'', ''1'', ''2'', ''3'', ''4'', ''77'', ''0'']"
      sample_constants, OF _ _ dist] i codes parseInt_77
  have 2: "u_getStoveState sample_constants ?c' = Inr (Str ''77'')"
    by simp
  from 1 2 show ?thesis
    by simp
qed

text \<open>C9 as stated counts twenty-two codes; the \<open>switch\<close> has twenty-one labels.\<close>

theorem stoveStateCases_counterexample:
  "length stoveStateCases = 21 \<and> length stoveStateCases \<noteq> 22"
  by (simp add: stoveStateCases_def)

subsection \<open>The stove-type bits\<close>

lemma toInt32_small: "0 \<le> n \<Longrightarrow> n < 2 ^ 31 \<Longrightarrow> toInt32 n = n"
  by (simp add: toInt32_def Let_def)

lemma bitSet_power:
  assumes "i < 16"
  shows "bitSet (Num (2 ^ i)) j = (i = j)"
proof -
  have lt: "(2 :: int) ^ i < 2 ^ 31"
    by (rule power_strict_increasing) (use assms in simp_all)
  have "toInt32 (2 ^ i) = 2 ^ i"
    by (rule toInt32_small [OF _ lt]) simp
  moreover have "odd ((2 :: int) ^ i div 2 ^ j) = (i = j)"
    using bit_exp_iff [where ?'a = int, of i j] by (auto simp: bit_iff_odd)
  ultimately show ?thesis
    by (simp add: bitSet_def odd_iff_mod_2_eq_one)
qed

lemma bitSet_0: "bitSet (Num 0) j = False"
  by (simp add: bitSet_def toInt32_def)

lemma rev_upt_16: "rev [0 ..< 16] = [15, 14, 13, 12, 11, 10, 9, 8, 7, 6, 5, 4, 3, 2, 1, 0]"
  by (simp add: upt_rec)

lemma bitArray_power:
  assumes "u_getStoveType K c = Inr (Some (Num (2 ^ i)))" "i < 16"
  shows "u_getStoveTypeBitArray K c =
     Inr [i = 15, i = 14, i = 13, i = 12, i = 11, i = 10, i = 9, i = 8,
          i = 7, i = 6, i = 5, i = 4, i = 3, i = 2, i = 1, i = 0]"
  using assms by (simp add: u_getStoveTypeBitArray_def rev_upt_16 bitSet_power)

lemma bitArray_0:
  assumes "u_getStoveType K c = Inr (Some (Num 0))"
  shows "u_getStoveTypeBitArray K c = Inr (replicate 16 False)"
  using assms by (simp add: u_getStoveTypeBitArray_def rev_upt_16 bitSet_0 eval_nat_numeral)

lemmas feature_defs = isTempRoom1Enabled_def isTempWaterEnabled_def isDhwEnabled_def
  isBoilerTempEnabled_def isDomesticHotWaterEnabled_def isBoilerEnabled_def
  isTempRoom2Enabled_def isTempRoom3Enabled_def isPufferEnabled_def isFlowSwitchEnabled_def
  isPumpEnabled_def isAirEx1Enabled_def isAirEx2Enabled_def isAirEx3Enabled_def
  isGenericPumpEnabled_def

lemma featureFlags_zero:
  assumes "u_getStoveType K c = Inr (Some (Num 0))"
  shows "map (\<lambda>f. f c) (featureFlags K) = replicate 15 (Inr False) \<and> getFanNumber K c = Inr 0"
  by (simp add: featureFlags_def feature_defs getFanNumber_def bitArray_0 [OF assms]
      eval_nat_numeral)

lemma featureFlags_power:
  assumes "u_getStoveType K c = Inr (Some (Num (2 ^ i)))" "i < 16"
  shows "map (\<lambda>f. f c) (featureFlags K) = map (\<lambda>j. Inr (j = 15 - i)) featureIndices
     \<and> getFanNumber K c = Inr (if i = 13 then 2 else if i = 12 then 1 else 0)"
proof -
  have "\<And>k. k \<le> 15 \<Longrightarrow> (i = 15 - k) = (k = 15 - i)"
    using assms(2) by auto
  from this [of 0] this [of 1] this [of 3] this [of 4] this [of 5] this [of 6] this [of 7]
    this [of 8] this [of 9] this [of 10] this [of 11] this [of 12] this [of 13] this [of 14]
    this [of 15]
  show ?thesis
    by (simp add: featureFlags_def featureIndices_def feature_defs getFanNumber_def
        bitArray_power [OF assms])
qed

text \<open>
  C8 (amended). With the stove type 0 every feature flag is false and the fan count is 0.
  With a 16-bit stove type that has exactly the bit \<open>i\<close> set, the flag that reads index
  \<open>15 - i\<close> of the bit array is true and every other flag is false; no flag reads index 2,
  so for bit 13 no flag is true and the fan count is 2; bit 12 sets \<open>isDhwEnabled\<close> and
  makes the fan count 1; for every other bit the fan count is 0.
\<close>

theorem featureFlags_single_bit:
  assumes "u_getStoveType K c = Inr (Some (Num v))"
  shows "(v = 0 \<longrightarrow>
            map (\<lambda>f. f c) (featureFlags K) = replicate 15 (Inr False) \<and> getFanNumber K c = Inr 0)
     \<and> (\<forall>i < 16. v = 2 ^ i \<longrightarrow>
            map (\<lambda>f. f c) (featureFlags K) = map (\<lambda>j. Inr (j = 15 - i)) featureIndices
            \<and> getFanNumber K c = Inr (if i = 13 then 2 else if i = 12 then 1 else 0))"
proof (intro conjI impI allI)
  assume "v = 0"
  with assms featureFlags_zero [of K c]
  show "map (\<lambda>f. f c) (featureFlags K) = replicate 15 (Inr False)" "getFanNumber K c = Inr 0"
    by simp_all
next
  fix i :: nat
  assume "i < 16" "v = 2 ^ i"
  with assms featureFlags_power [of K c i]
  show "map (\<lambda>f. f c) (featureFlags K) = map (\<lambda>j. Inr (j = 15 - i)) featureIndices"
    "getFanNumber K c = Inr (if i = 13 then 2 else if i = 12 then 1 else 0)"
    by simp_all
qed

lemma parseInt_64: "parseInt (Str ''64'') = Num 64"
  by (simp add: parseInt_def isWhiteSpace_def digitValue_def)

lemma parseInt_8192: "parseInt (Str ''8192'') = Num 8192"
  by (simp add: parseInt_def isWhiteSpace_def digitValue_def)

lemma parseInt_4096: "parseInt (Str ''4096'') = Num 4096"
  by (simp add: parseInt_def isWhiteSpace_def digitValue_def)

theorem featureFlags_single_bit_witness:
  "map (\<lambda>f. f (new_client\<lparr>data := Some [''0'', ''1'', ''2'', ''3'', ''64'']\<rparr>))
       (featureFlags sample_constants)
     = map Inr [False, False, False, False, False, False, False, False, True, False, False,
                False, False, False, False]
   \<and> isPufferEnabled sample_constants (new_client\<lparr>data := Some [''0'', ''1'', ''2'', ''3'', ''64'']\<rparr>)
     = Inr True
   \<and> getFanNumber sample_constants (new_client\<lparr>data := Some [''0'', ''1'', ''2'', ''3'', ''64'']\<rparr>)
     = Inr 0"
proof -
  let ?c = "new_client\<lparr>data := Some [''0'', ''1'', ''2'', ''3'', ''64'']\<rparr>"
  have t: "u_getStoveType sample_constants ?c = Inr (Some (Num 64))"
    by (simp add: u_getStoveType_def sample_constants_def element_Some parseInt_64)
  note bit6 = featureFlags_single_bit [OF t, THEN conjunct2, rule_format, of 6]
  from bit6 show ?thesis
    by (simp add: featureIndices_def featureFlags_def)
qed

text \<open>
  C8 as stated fails for the value with only bit 13 set: no feature flag is true there (the
  bit is the high bit of the fan count); and for bit 12 the fan count changes together
  with \<open>isDhwEnabled\<close>.
\<close>

theorem featureFlags_bit13_counterexample:
  "map (\<lambda>f. f (new_client\<lparr>data := Some [''0'', ''1'', ''2'', ''3'', ''8192'']\<rparr>))
       (featureFlags sample_constants) = replicate 15 (Inr False)
   \<and> getFanNumber sample_constants (new_client\<lparr>data := Some [''0'', ''1'', ''2'', ''3'', ''8192'']\<rparr>)
     = Inr 2
   \<and> isDhwEnabled sample_constants (new_client\<lparr>data := Some [''0'', ''1'', ''2'', ''3'', ''4096'']\<rparr>)
     = Inr True
   \<and> getFanNumber sample_constants (new_client\<lparr>data := Some [''0'', ''1'', ''2'', ''3'', ''4096'']\<rparr>)
     = Inr 1"
proof -
  let ?c = "new_client\<lparr>data := Some [''0'', ''1'', ''2'', ''3'', ''8192'']\<rparr>"
  let ?c' = "new_client\<lparr>data := Some [''0'', ''1'', ''2'', ''3'', ''4096'']\<rparr>"
  have "u_getStoveType sample_constants ?c = Inr (Some (Num (2 ^ 13)))"
    by (simp add: u_getStoveType_def sample_constants_def element_Some parseInt_8192)
  from featureFlags_power [OF this] have 1:
    "map (\<lambda>f. f ?c) (featureFlags sample_constants) = replicate 15 (Inr False)"
    "getFanNumber sample_constants ?c = Inr 2"
    by (simp_all add: featureIndices_def eval_nat_numeral)
  have "u_getStoveType sample_constants ?c' = Inr (Some (Num (2 ^ 12)))"
    by (simp add: u_getStoveType_def sample_constants_def element_Some parseInt_4096)
  from featureFlags_power [OF this] have 2:
    "isDhwEnabled sample_constants ?c' = Inr True" "getFanNumber sample_constants ?c' = Inr 1"
    by (simp_all add: featureIndices_def featureFlags_def)
  from 1 2 show ?thesis
    by simp
qed

end
